theory Spec2Isabelle
  imports Main "HOL-Library.Log_Nat" "HOL-Library.Sublist"
begin

text \<open>
  The market-making bot of \<^verbatim>\<open>main.py\<close>, function \<^verbatim>\<open>run_trading_bot\<close>: the choice of the
  symbol, the quotes around the mark price (in the binary64 arithmetic of Python's floats),
  the steps of one turn of the trading loop, the loop and the shutdown. The exchange client,
  the terminal and the clock are a record of functions that answer each call; the program
  is a function from the events so far to a result and the events extended. The definitions
  come first, section by section as the source has them; the properties follow.
\<close>

section \<open>Strings\<close>

text \<open>
  A Python string is modelled by the bytes of its UTF-8 encoding, a \<^typ>\<open>string\<close>: equality,
  concatenation and \<^verbatim>\<open>endswith\<close> of an ASCII suffix are the same on code points and on these
  bytes. The methods \<^verbatim>\<open>str.upper()\<close> and \<^verbatim>\<open>str.strip()\<close> follow the Unicode tables of the
  interpreter; the program takes them from the outside world (below), as functions on
  strings. On ASCII text they are the two functions defined here: \<^verbatim>\<open>upper\<close> maps the letters
  a..z to A..Z and leaves every other character alone, \<^verbatim>\<open>strip\<close> removes the white space
  (codes 9 to 13 and 28 to 32) at both ends.
\<close>

definition upper_char :: "char \<Rightarrow> char" where
  "upper_char c =
     (let n = (of_char c :: nat) in if 97 \<le> n \<and> n \<le> 122 then char_of (n - 32) else c)"

definition ascii_upper :: "string \<Rightarrow> string" where
  "ascii_upper s = map upper_char s"

definition isspace :: "char \<Rightarrow> bool" where
  "isspace c = (let n = (of_char c :: nat) in (9 \<le> n \<and> n \<le> 13) \<or> (28 \<le> n \<and> n \<le> 32))"

definition ascii_strip :: "string \<Rightarrow> string" where
  "ascii_strip s = rev (dropWhile isspace (rev (dropWhile isspace s)))"

text \<open>\<^verbatim>\<open>s.endswith(suf)\<close>.\<close>

definition endswith :: "string \<Rightarrow> string \<Rightarrow> bool" where
  "endswith s suf = (length suf \<le> length s \<and> drop (length s - length suf) s = suf)"

section \<open>Symbol selection (main.py, lines 232-239)\<close>

text \<open>
  \<^verbatim>\<open>os.getenv("SYMBOL", "BTC")\<close>: the argument is the value of the environment variable,
  \<open>None\<close> when it is unset.
\<close>

definition getenv_SYMBOL :: "string option \<Rightarrow> string" where
  "getenv_SYMBOL env = (case env of None \<Rightarrow> ''BTC'' | Some v \<Rightarrow> v)"

text \<open>The first argument is \<^verbatim>\<open>str.upper\<close>.\<close>

definition select_symbol :: "(string \<Rightarrow> string) \<Rightarrow> string option \<Rightarrow> string" where
  "select_symbol upper env =
     (let env_symbol = upper (getenv_SYMBOL env)
      in if \<not> endswith env_symbol ''-USD'' then env_symbol @ ''-USD'' else env_symbol)"

section \<open>Python floats\<close>

text \<open>
  A Python \<^verbatim>\<open>float\<close> is an IEEE 754 binary64 number. It is modelled by its sign and its
  exact magnitude, a rational: \<open>Finite s m\<close> is \<open>m\<close> when \<open>s\<close> is \<open>False\<close> and \<open>- m\<close> when
  \<open>s\<close> is \<open>True\<close> (so \<open>Finite True 0\<close> is \<^verbatim>\<open>-0.0\<close>). Every arithmetic operation computes
  the exact rational result and rounds it to the nearest double, ties to even, as the
  hardware does.
\<close>

datatype pyfloat = Finite bool rat | Infinity bool | NaN

text \<open>\<open>ilog2 x\<close> is the binary exponent of a positive \<open>x\<close>: \<open>2 powi ilog2 x \<le> x < 2 powi (ilog2 x + 1)\<close>.\<close>

definition ilog2 :: "rat \<Rightarrow> int" where
  "ilog2 x = (if 1 \<le> x then bitlen \<lfloor>x\<rfloor> - 1 else - bitlen (\<lceil>1 / x\<rceil> - 1))"

definition round_half_even :: "rat \<Rightarrow> int" where
  "round_half_even x =
     (let f = \<lfloor>x\<rfloor>; d = x - of_int f
      in if d < 1 / 2 then f else if 1 / 2 < d then f + 1 else if even f then f else f + 1)"

text \<open>
  The exponent of the last mantissa bit: 53 significant bits for a normal number, the fixed
  exponent \<open>-1074\<close> below \<open>2 powi (-1022)\<close> (subnormal numbers).
\<close>

definition ulp_exp :: "rat \<Rightarrow> int" where
  "ulp_exp m = max (ilog2 m) (- 1022) - 52"

text \<open>The doubles end below \<open>2 powi 1024\<close>.\<close>

definition huge :: rat where
  "huge = 2 powi 1024"

text \<open>Rounding a magnitude \<open>m \<ge> 0\<close> with sign \<open>s\<close>; a result of \<open>huge\<close> or more overflows.\<close>

definition round_float :: "bool \<Rightarrow> rat \<Rightarrow> pyfloat" where
  "round_float s m =
     (if m = 0 then Finite s 0
      else let u = 2 powi (ulp_exp m); r = of_int (round_half_even (m / u)) * u
           in if huge \<le> r then Infinity s else Finite s r)"

definition float_val :: "bool \<Rightarrow> rat \<Rightarrow> rat" where
  "float_val s m = (if s then - m else m)"

fun fmul :: "pyfloat \<Rightarrow> pyfloat \<Rightarrow> pyfloat" where
  "fmul NaN y = NaN"
| "fmul x NaN = NaN"
| "fmul (Infinity s) (Infinity t) = Infinity (s \<noteq> t)"
| "fmul (Infinity s) (Finite t n) = (if n = 0 then NaN else Infinity (s \<noteq> t))"
| "fmul (Finite s m) (Infinity t) = (if m = 0 then NaN else Infinity (s \<noteq> t))"
| "fmul (Finite s m) (Finite t n) = round_float (s \<noteq> t) (m * n)"

fun fadd :: "pyfloat \<Rightarrow> pyfloat \<Rightarrow> pyfloat" where
  "fadd NaN y = NaN"
| "fadd x NaN = NaN"
| "fadd (Infinity s) (Infinity t) = (if s = t then Infinity s else NaN)"
| "fadd (Infinity s) (Finite t n) = Infinity s"
| "fadd (Finite s m) (Infinity t) = Infinity t"
| "fadd (Finite s m) (Finite t n) =
     (let v = float_val s m + float_val t n
      in if v = 0 then Finite (s \<and> t) 0 else round_float (v < 0) \<bar>v\<bar>)"

fun fneg :: "pyfloat \<Rightarrow> pyfloat" where
  "fneg NaN = NaN"
| "fneg (Infinity s) = Infinity (\<not> s)"
| "fneg (Finite s m) = Finite (\<not> s) m"

definition fsub :: "pyfloat \<Rightarrow> pyfloat \<Rightarrow> pyfloat" where
  "fsub x y = fadd x (fneg y)"

text \<open>\<^verbatim>\<open>x < y\<close>, \<^verbatim>\<open>x > y\<close>, \<^verbatim>\<open>x != y\<close> and \<^verbatim>\<open>abs(x)\<close>. Every comparison with NaN but \<^verbatim>\<open>!=\<close> is false.\<close>

fun flt :: "pyfloat \<Rightarrow> pyfloat \<Rightarrow> bool" where
  "flt NaN y = False"
| "flt x NaN = False"
| "flt (Infinity s) (Infinity t) = (s \<and> \<not> t)"
| "flt (Infinity s) (Finite t n) = s"
| "flt (Finite s m) (Infinity t) = (\<not> t)"
| "flt (Finite s m) (Finite t n) = (float_val s m < float_val t n)"

definition fgt :: "pyfloat \<Rightarrow> pyfloat \<Rightarrow> bool" where
  "fgt x y = flt y x"

fun fne :: "pyfloat \<Rightarrow> pyfloat \<Rightarrow> bool" where
  "fne (Finite s m) (Finite t n) = (float_val s m \<noteq> float_val t n)"
| "fne (Infinity s) (Infinity t) = (s \<noteq> t)"
| "fne x y = True"

fun fabs :: "pyfloat \<Rightarrow> pyfloat" where
  "fabs NaN = NaN"
| "fabs (Infinity s) = Infinity False"
| "fabs (Finite s m) = Finite False m"

text \<open>
  The integer literals the program mixes with floats (\<^verbatim>\<open>0\<close>, \<^verbatim>\<open>1\<close>, \<^verbatim>\<open>100\<close>, \<^verbatim>\<open>10000.0\<close> and
  \<^verbatim>\<open>SPREAD_BPS\<close>) are doubles exactly.
\<close>

definition float_of_small_int :: "int \<Rightarrow> pyfloat" where
  "float_of_small_int i = Finite (i < 0) (of_int \<bar>i\<bar>)"

subsection \<open>Fixed-point formatting\<close>

definition digit_char :: "nat \<Rightarrow> char" where
  "digit_char d = ''0123456789'' ! d"

fun str_nat :: "nat \<Rightarrow> string" where
  "str_nat n = (if n < 10 then [digit_char n] else str_nat (n div 10) @ [digit_char (n mod 10)])"

declare str_nat.simps [simp del]

definition zfill :: "nat \<Rightarrow> string \<Rightarrow> string" where
  "zfill p ds = replicate (p - length ds) CHR ''0'' @ ds"

text \<open>
  \<^verbatim>\<open>f"{x:.pf}"\<close>: the exact value of the double, rounded half-even to \<open>p\<close> fractional digits;
  the sign is printed whenever the sign bit is set.
\<close>

fun format_f :: "nat \<Rightarrow> pyfloat \<Rightarrow> string" where
  "format_f p NaN = ''nan''"
| "format_f p (Infinity s) = (if s then ''-inf'' else ''inf'')"
| "format_f p (Finite s m) =
     (let n = nat (round_half_even (m * 10 ^ p))
      in (if s then ''-'' else '''') @ str_nat (n div 10 ^ p) @
         (if p = 0 then '''' else ''.'' @ zfill p (str_nat (n mod 10 ^ p))))"

text \<open>The fractional digits of a formatted number: what follows the decimal point.\<close>

definition fraction_digits :: "string \<Rightarrow> string" where
  "fraction_digits s = tl (dropWhile (\<lambda>c. c \<noteq> CHR ''.'') s)"

section \<open>Quotes (main.py, lines 104-108 and 265-288)\<close>

definition SPREAD_BPS :: int where
  "SPREAD_BPS = 8"

definition ORDER_SIZE :: string where
  "ORDER_SIZE = ''0.0015''"

definition REFRESH_RATE :: nat where
  "REFRESH_RATE = 30"

text \<open>\<^verbatim>\<open>spread_factor = SPREAD_BPS / 10000.0\<close>: the quotient of two exact doubles, rounded.\<close>

definition spread_factor :: pyfloat where
  "spread_factor = round_float False (of_int SPREAD_BPS / 10000)"

definition bid_price :: "pyfloat \<Rightarrow> pyfloat" where
  "bid_price mark_price = fmul mark_price (fsub (float_of_small_int 1) spread_factor)"

definition ask_price :: "pyfloat \<Rightarrow> pyfloat" where
  "ask_price mark_price = fmul mark_price (fadd (float_of_small_int 1) spread_factor)"

text \<open>The pair \<^verbatim>\<open>(bid_price_str, ask_price_str)\<close>.\<close>

definition quote_prices :: "pyfloat \<Rightarrow> string \<times> string" where
  "quote_prices mark_price =
     (if flt mark_price (float_of_small_int 100)
      then (format_f 4 (bid_price mark_price), format_f 4 (ask_price mark_price))
      else (format_f 2 (bid_price mark_price), format_f 2 (ask_price mark_price)))"

section \<open>Exceptions, events and the outside world\<close>

text \<open>
  \<open>Exception msg\<close> stands for any exception of class \<^verbatim>\<open>Exception\<close> (a gateway error, a
  \<^verbatim>\<open>KeyError\<close>, a \<^verbatim>\<open>ValueError\<close>, ...), with its message. \<open>KeyboardInterrupt\<close> is not an
  \<^verbatim>\<open>Exception\<close>: \<^verbatim>\<open>except Exception\<close> lets it pass, a bare \<^verbatim>\<open>except:\<close> catches it.
\<close>

datatype exn = Exception string | KeyboardInterrupt

type_synonym order_id = string

text \<open>
  The \<^verbatim>\<open>qty\<close> argument of \<^verbatim>\<open>place_order\<close>: a string the program holds, or \<^verbatim>\<open>str(x)\<close> of a
  float \<open>x\<close> (kept as the float it prints).
\<close>

datatype qty_arg = Text string | Str_of pyfloat

record order_req =
  symbol :: string
  side :: string
  order_type :: string
  qty :: qty_arg
  price :: "string option"
  time_in_force :: string
  reduce_only :: bool

datatype level = INFO | WARNING | ERROR | CRITICAL

text \<open>
  The log lines of \<^verbatim>\<open>run_trading_bot\<close>, one constructor for each call of the logger, in
  the order of the source (lines 224, 250, 251, 290, 299, 307, 309, 314, 316, 319, 332, 333,
  348, 350, 358, 387, 393, 397, 399, 402, 407, 412, 416, 424, 426, 428), with the values the
  line prints. The logger itself does not raise.
\<close>

datatype log_msg =
    Failed_to_initialize_context
  | Starting_Bot string string
  | Spread_Target int string
  | Mark_Target string string string
  | Found_open_orders nat
  | Cancelled_orders_Batch nat
  | Batch_cancel_failed string
  | Cancelled_order order_id
  | FAILED_to_cancel_order order_id string
  | CRITICAL_ERROR_in_Cancel_Orders_step string
  | OPEN_POSITION_DETECTED pyfloat string
  | Attempting_CLOSE_via_Market_Order
  | POSITION_CLOSE_ORDER_SENT
  | FAILED_to_update_position_close_order string
  | CRITICAL_ERROR_in_Position_Check_step string
  | Orders_placed_successfully
  | Error_in_trading_loop string
  | Bot_stopped_by_user
  | Fatal_error string
  | Emergency_exit
  | SHUTDOWN_SEQUENCE
  | Retrieved_open_orders_to_cancel nat
  | Shutdown_Cancelled_orders nat
  | Shutdown_Cancelled_orders_via_fallback
  | Shutdown_No_open_orders_found
  | Failed_to_cleanup_orders_on_exit string

text \<open>What the program does to the outside world, in the order it does it.\<close>

datatype event =
    Print string
  | Input string
  | Get_auth_context string
  | Query_symbol_price string
  | Query_open_orders string
  | Cancel_orders "order_id list"
  | Query_positions string
  | Place_order order_req
  | Sleep nat
  | Log level log_msg

text \<open>
  An entry of the positions listing, as the loop reads it: \<^verbatim>\<open>pos.get('symbol')\<close>, and
  \<^verbatim>\<open>float(pos.get('qty', 0))\<close>, which is a float or raises (\<open>Inl\<close> the message).
\<close>

record position =
  pos_symbol :: "string option"
  pos_qty :: "string + pyfloat"

text \<open>
  The authentication context \<^verbatim>\<open>{client, auth, token, address}\<close>. The client and the signing
  object are the outside world below; the token and the label are strings.
\<close>

record auth_context =
  token :: string
  address :: string

text \<open>
  The outside world: the exchange client, the terminal, the clock and the environment.
  Every call is answered from the history of events so far, by a value or by an exception;
  the interrupt of the user (Ctrl-C) arrives as the answer \<open>Inl KeyboardInterrupt\<close> of the call
  that is running.
  \<^item> \<open>query_symbol_price\<close> answers \<^verbatim>\<open>float(client.query_symbol_price(s)['mark_price'])\<close>;
  \<^item> \<open>query_open_orders\<close> answers \<^verbatim>\<open>client.query_open_orders(token, symbol=s).get('result', [])\<close>,
    each order by its \<^verbatim>\<open>'id'\<close> (\<open>None\<close> when the key is missing);
  \<^item> \<open>get_auth_context\<close> answers \<^verbatim>\<open>get_auth_context_private_key()\<close> (mode \<open>1\<close>) and
    \<^verbatim>\<open>get_auth_context_api_token()\<close> (mode \<open>2\<close>): a context, or \<open>None\<close>;
  \<^item> \<open>str_upper\<close> and \<open>str_strip\<close> are the methods \<^verbatim>\<open>str.upper\<close> and \<^verbatim>\<open>str.strip\<close> of the
    interpreter, with its Unicode tables (on ASCII text, \<open>ascii_upper\<close> and \<open>ascii_strip\<close>).

  The token and the signing object go with every call and are left out of the events.
\<close>

record world =
  str_upper :: "string \<Rightarrow> string"
  str_strip :: "string \<Rightarrow> string"
  env_SYMBOL :: "string option"
  input :: "string \<Rightarrow> event list \<Rightarrow> exn + string"
  get_auth_context :: "string \<Rightarrow> event list \<Rightarrow> exn + auth_context option"
  query_symbol_price :: "string \<Rightarrow> event list \<Rightarrow> exn + pyfloat"
  query_open_orders :: "string \<Rightarrow> event list \<Rightarrow> exn + order_id option list"
  cancel_orders :: "order_id list \<Rightarrow> event list \<Rightarrow> exn + unit"
  query_positions :: "string \<Rightarrow> event list \<Rightarrow> exn + position list"
  place_order :: "order_req \<Rightarrow> event list \<Rightarrow> exn + unit"
  sleep :: "nat \<Rightarrow> event list \<Rightarrow> exn + unit"

section \<open>Control flow\<close>

text \<open>
  A piece of the program takes the events so far and returns its value or the exception
  it raises, with the events extended by its own.
\<close>

type_synonym 'a prog = "event list \<Rightarrow> (exn + 'a) \<times> event list"

definition ret :: "'a \<Rightarrow> 'a prog" where
  "ret a tr = (Inr a, tr)"

definition throw :: "exn \<Rightarrow> 'a prog" where
  "throw e tr = (Inl e, tr)"

definition and_then :: "'a prog \<Rightarrow> ('a \<Rightarrow> 'b prog) \<Rightarrow> 'b prog" where
  "and_then p f tr = (case p tr of (Inl e, tr') \<Rightarrow> (Inl e, tr') | (Inr a, tr') \<Rightarrow> f a tr')"

definition seq :: "unit prog \<Rightarrow> 'b prog \<Rightarrow> 'b prog" where
  "seq p q = and_then p (\<lambda>_. q)"

text \<open>A call of the outside world: answered from the history, then recorded.\<close>

definition call :: "(event list \<Rightarrow> exn + 'a) \<Rightarrow> event \<Rightarrow> 'a prog" where
  "call f ev tr = (f tr, tr @ [ev])"

definition log :: "level \<Rightarrow> log_msg \<Rightarrow> unit prog" where
  "log l m tr = (Inr (), tr @ [Log l m])"

definition print :: "string \<Rightarrow> unit prog" where
  "print s tr = (Inr (), tr @ [Print s])"

text \<open>\<^verbatim>\<open>try: p  except Exception as e: h e\<close> and \<^verbatim>\<open>try: p  except: h\<close>.\<close>

definition try_except :: "'a prog \<Rightarrow> (string \<Rightarrow> 'a prog) \<Rightarrow> 'a prog" where
  "try_except p h tr =
     (case p tr of (Inl (Exception msg), tr') \<Rightarrow> h msg tr' | r \<Rightarrow> r)"

definition try_except_all :: "'a prog \<Rightarrow> 'a prog \<Rightarrow> 'a prog" where
  "try_except_all p h tr = (case p tr of (Inl e, tr') \<Rightarrow> h tr' | r \<Rightarrow> r)"

text \<open>A pure computation that may raise an \<^verbatim>\<open>Exception\<close>.\<close>

definition lift :: "string + 'a \<Rightarrow> 'a prog" where
  "lift r = (case r of Inl msg \<Rightarrow> throw (Exception msg) | Inr a \<Rightarrow> ret a)"

section \<open>The trading loop (main.py, lines 253-394)\<close>

text \<open>\<^verbatim>\<open>[o['id'] for o in result_list]\<close>: a \<^verbatim>\<open>KeyError\<close> at the first order without an id.\<close>

fun ids_of :: "order_id option list \<Rightarrow> string + order_id list" where
  "ids_of [] = Inr []"
| "ids_of (None # rest) = Inl ''KeyError: id''"
| "ids_of (Some oid # rest) = (case ids_of rest of Inl msg \<Rightarrow> Inl msg | Inr ids \<Rightarrow> Inr (oid # ids))"

text \<open>Lines 311-316: the fallback, one order at a time.\<close>

fun cancel_one_by_one :: "world \<Rightarrow> order_id list \<Rightarrow> unit prog" where
  "cancel_one_by_one w [] = ret ()"
| "cancel_one_by_one w (oid # rest) =
     seq (try_except
            (seq (call (cancel_orders w [oid]) (Cancel_orders [oid]))
                 (log INFO (Cancelled_order oid)))
            (\<lambda>single_error. log ERROR (FAILED_to_cancel_order oid single_error)))
         (cancel_one_by_one w rest)"

text \<open>Lines 292-319: step 3, cancel the open orders of the symbol.\<close>

definition cancel_open_orders :: "world \<Rightarrow> string \<Rightarrow> unit prog" where
  "cancel_open_orders w current_symbol =
     try_except
       (and_then (call (query_open_orders w current_symbol) (Query_open_orders current_symbol))
          (\<lambda>result_list.
             if 0 < length result_list then
               seq (log INFO (Found_open_orders (length result_list)))
                 (and_then (lift (ids_of result_list))
                    (\<lambda>ids_to_cancel.
                       if ids_to_cancel \<noteq> [] then
                         try_except
                           (seq (call (cancel_orders w ids_to_cancel) (Cancel_orders ids_to_cancel))
                                (log INFO (Cancelled_orders_Batch (length ids_to_cancel))))
                           (\<lambda>batch_error.
                              seq (log WARNING (Batch_cancel_failed batch_error))
                                  (cancel_one_by_one w ids_to_cancel))
                       else ret ()))
             else ret ()))
       (\<lambda>e. log ERROR (CRITICAL_ERROR_in_Cancel_Orders_step e))"

text \<open>Lines 335-347: the order that closes a position of \<open>q\<close>.\<close>

definition close_order :: "string \<Rightarrow> pyfloat \<Rightarrow> order_req" where
  "close_order current_symbol q =
     \<lparr>symbol = current_symbol,
      side = (if fgt q (float_of_small_int 0) then ''sell'' else ''buy''),
      order_type = ''market'',
      qty = Str_of (fabs q),
      price = None,
      time_in_force = ''ioc'',
      reduce_only = True\<rparr>"

text \<open>Lines 327-350: the loop over the positions listing.\<close>

fun close_positions :: "world \<Rightarrow> string \<Rightarrow> position list \<Rightarrow> unit prog" where
  "close_positions w current_symbol [] = ret ()"
| "close_positions w current_symbol (pos # rest) =
     seq (if pos_symbol pos = Some current_symbol then
            and_then (lift (pos_qty pos))
              (\<lambda>q. if fne q (float_of_small_int 0) then
                      seq (log WARNING (OPEN_POSITION_DETECTED q current_symbol))
                     (seq (log INFO Attempting_CLOSE_via_Market_Order)
                        (try_except
                           (seq (call (place_order w (close_order current_symbol q))
                                      (Place_order (close_order current_symbol q)))
                                (log INFO POSITION_CLOSE_ORDER_SENT))
                           (\<lambda>close_error.
                              log ERROR (FAILED_to_update_position_close_order close_error))))
                    else ret ())
          else ret ())
         (close_positions w current_symbol rest)"

text \<open>Lines 321-358: step 4, check and close positions.\<close>

definition check_positions :: "world \<Rightarrow> string \<Rightarrow> unit prog" where
  "check_positions w current_symbol =
     try_except
       (and_then (call (query_positions w current_symbol) (Query_positions current_symbol))
          (close_positions w current_symbol))
       (\<lambda>e. log ERROR (CRITICAL_ERROR_in_Position_Check_step e))"

text \<open>Lines 360-387: step 5, the two resting orders.\<close>

definition limit_order :: "string \<Rightarrow> string \<Rightarrow> string \<Rightarrow> string \<Rightarrow> order_req" where
  "limit_order current_symbol sd current_order_size price_str =
     \<lparr>symbol = current_symbol,
      side = sd,
      order_type = ''limit'',
      qty = Text current_order_size,
      price = Some price_str,
      time_in_force = ''gtc'',
      reduce_only = False\<rparr>"

definition place_new_orders :: "world \<Rightarrow> string \<Rightarrow> string \<Rightarrow> string \<Rightarrow> string \<Rightarrow> unit prog" where
  "place_new_orders w current_symbol current_order_size bid_price_str ask_price_str =
     (let buy = limit_order current_symbol ''buy'' current_order_size bid_price_str;
          sell = limit_order current_symbol ''sell'' current_order_size ask_price_str
      in seq (call (place_order w buy) (Place_order buy))
        (seq (call (place_order w sell) (Place_order sell))
             (log INFO Orders_placed_successfully)))"

text \<open>Lines 256-390: the body of the inner \<^verbatim>\<open>try\<close>.\<close>

definition tick_body :: "world \<Rightarrow> string \<Rightarrow> string \<Rightarrow> unit prog" where
  "tick_body w current_symbol current_order_size =
     and_then (call (query_symbol_price w current_symbol) (Query_symbol_price current_symbol))
       (\<lambda>mark_price.
          let (bid_price_str, ask_price_str) = quote_prices mark_price
          in seq (log INFO (Mark_Target (format_f 4 mark_price) bid_price_str ask_price_str))
            (seq (cancel_open_orders w current_symbol)
            (seq (check_positions w current_symbol)
            (seq (place_new_orders w current_symbol current_order_size bid_price_str ask_price_str)
                 (call (sleep w REFRESH_RATE) (Sleep REFRESH_RATE))))))"

text \<open>Lines 255-394: one turn of the loop, with its handler.\<close>

definition tick :: "world \<Rightarrow> string \<Rightarrow> string \<Rightarrow> unit prog" where
  "tick w current_symbol current_order_size =
     try_except (tick_body w current_symbol current_order_size)
       (\<lambda>loop_error.
          seq (log ERROR (Error_in_trading_loop loop_error)) (call (sleep w 5) (Sleep 5)))"

text \<open>
  Line 254, \<^verbatim>\<open>while True\<close>: the loop leaves only by an exception. The first argument bounds
  the number of turns; \<open>None\<close> is a loop still running after that many.
\<close>

fun trading_loop :: "nat \<Rightarrow> world \<Rightarrow> string \<Rightarrow> string \<Rightarrow> event list \<Rightarrow> (exn \<times> event list) option" where
  "trading_loop 0 w current_symbol current_order_size tr = None"
| "trading_loop (Suc n) w current_symbol current_order_size tr =
     (case tick w current_symbol current_order_size tr of
        (Inl e, tr') \<Rightarrow> Some (e, tr')
      | (Inr u, tr') \<Rightarrow> trading_loop n w current_symbol current_order_size tr')"

section \<open>Shutdown (main.py, lines 396-428)\<close>

text \<open>Lines 419-423: the fallback of the shutdown, behind a bare \<^verbatim>\<open>except: pass\<close>.\<close>

fun shutdown_one_by_one :: "world \<Rightarrow> order_id list \<Rightarrow> unit prog" where
  "shutdown_one_by_one w [] = ret ()"
| "shutdown_one_by_one w (oid # rest) =
     seq (try_except_all (call (cancel_orders w [oid]) (Cancel_orders [oid])) (ret ()))
         (shutdown_one_by_one w rest)"

text \<open>
  Lines 403-428, the \<^verbatim>\<open>finally\<close> block. Of the guard \<^verbatim>\<open>context and client and token\<close>, the context
  is a non-empty dict and the client an object here: the token decides.
\<close>

definition shutdown_sweep :: "world \<Rightarrow> auth_context \<Rightarrow> string \<Rightarrow> unit prog" where
  "shutdown_sweep w context current_symbol =
     (if token context \<noteq> [] then
        try_except
          (seq (log INFO SHUTDOWN_SEQUENCE)
            (and_then (call (query_open_orders w current_symbol) (Query_open_orders current_symbol))
               (\<lambda>result_list.
                  if result_list \<noteq> [] then
                    and_then (lift (ids_of result_list))
                      (\<lambda>ids_to_cancel.
                         seq (log INFO (Retrieved_open_orders_to_cancel (length ids_to_cancel)))
                           (try_except
                              (seq (call (cancel_orders w ids_to_cancel) (Cancel_orders ids_to_cancel))
                                   (log INFO (Shutdown_Cancelled_orders (length ids_to_cancel))))
                              (\<lambda>batch_error.
                                 seq (shutdown_one_by_one w ids_to_cancel)
                                     (log INFO Shutdown_Cancelled_orders_via_fallback))))
                  else log INFO Shutdown_No_open_orders_found)))
          (\<lambda>cleanup_error. log ERROR (Failed_to_cleanup_orders_on_exit cleanup_error))
      else ret ())"

text \<open>
  Lines 396-402: the handlers of the outer \<^verbatim>\<open>try\<close> (the traceback printed between the two
  log lines of the second goes to the terminal only).
\<close>

fun outer_handler :: "exn \<Rightarrow> unit prog" where
  "outer_handler KeyboardInterrupt = log INFO Bot_stopped_by_user"
| "outer_handler (Exception msg) =
     seq (log CRITICAL (Fatal_error msg)) (log INFO Emergency_exit)"

text \<open>
  Lines 253-428: the outer \<^verbatim>\<open>try\<close>. The exception that ends the loop is handled, then the
  \<^verbatim>\<open>finally\<close> block runs; what it raises, the function raises.
\<close>

definition run_loop :: "nat \<Rightarrow> world \<Rightarrow> auth_context \<Rightarrow> string \<Rightarrow> string \<Rightarrow> event list
    \<Rightarrow> ((exn + unit) \<times> event list) option" where
  "run_loop fuel w context current_symbol current_order_size tr =
     (case trading_loop fuel w current_symbol current_order_size tr of
        None \<Rightarrow> None
      | Some (e, tr') \<Rightarrow>
          Some (seq (outer_handler e) (shutdown_sweep w context current_symbol) tr'))"

section \<open>Startup (main.py, lines 207-251)\<close>

text \<open>
  What the lines before the outer \<^verbatim>\<open>try\<close> leave: the function has returned, or the context,
  the symbol and the order size are set.
\<close>

datatype startup = Exit | Ready auth_context string string

definition choice_prompt :: string where
  "choice_prompt = ''Enter choice (1 or 2): ''"

definition size_prompt :: "string \<Rightarrow> string" where
  "size_prompt current_symbol =
     ''Enter Order Size for '' @ current_symbol @ '' [Default: '' @ ORDER_SIZE @ '']: ''"

definition startup :: "world \<Rightarrow> startup prog" where
  "startup w =
     seq (print (CHR 0x0A # ''--- STANDX TRADING BOT ---''))
    (seq (print ''Select Authentication Mode:'')
    (seq (print ''1. Private Key Wallet (requires WALLET_PRIVATE_KEY) : rabby, metamask, etc.'')
    (seq (print ''2. Keyless Wallet (requires STANDX_API_TOKEN & STANDX_API_KEY) : Binance wallet'')
    (and_then (call (input w choice_prompt) (Input choice_prompt))
       (\<lambda>answer.
          let choice = str_strip w answer
          in if choice = ''1'' \<or> choice = ''2'' then
               and_then (call (get_auth_context w choice) (Get_auth_context choice))
                 (\<lambda>context.
                    case context of
                      None \<Rightarrow> seq (log ERROR Failed_to_initialize_context) (ret Exit)
                    | Some c \<Rightarrow>
                        and_then
                          (call (input w (size_prompt (select_symbol (str_upper w) (env_SYMBOL w))))
                                (Input (size_prompt (select_symbol (str_upper w) (env_SYMBOL w)))))
                          (\<lambda>answer2.
                             let size_input = str_strip w answer2;
                                 current_order_size = (if size_input = [] then ORDER_SIZE else size_input)
                             in seq (log INFO (Starting_Bot (select_symbol (str_upper w) (env_SYMBOL w)) (address c)))
                               (seq (log INFO (Spread_Target SPREAD_BPS current_order_size))
                                    (ret (Ready c (select_symbol (str_upper w) (env_SYMBOL w)) current_order_size)))))
             else seq (print ''Invalid choice. Exiting.'') (ret Exit))))))"

text \<open>The whole of \<^verbatim>\<open>run_trading_bot\<close>.\<close>

definition run_trading_bot :: "nat \<Rightarrow> world \<Rightarrow> ((exn + unit) \<times> event list) option" where
  "run_trading_bot fuel w =
     (case startup w [] of
        (Inl e, tr) \<Rightarrow> Some (Inl e, tr)
      | (Inr Exit, tr) \<Rightarrow> Some (Inr (), tr)
      | (Inr (Ready c current_symbol current_order_size), tr) \<Rightarrow>
          run_loop fuel w c current_symbol current_order_size tr)"

section \<open>Reading the events\<close>

text \<open>The cancel calls, the orders placed and the shutdown sweeps among some events.\<close>

definition cancel_calls :: "event list \<Rightarrow> order_id list list" where
  "cancel_calls tr = concat (map (\<lambda>e. case e of Cancel_orders ids \<Rightarrow> [ids] | _ \<Rightarrow> []) tr)"

definition placed_orders :: "event list \<Rightarrow> order_req list" where
  "placed_orders tr = concat (map (\<lambda>e. case e of Place_order r \<Rightarrow> [r] | _ \<Rightarrow> []) tr)"

definition sweeps :: "event list \<Rightarrow> nat" where
  "sweeps tr = count_list tr (Log INFO SHUTDOWN_SEQUENCE)"

text \<open>The events of a shutdown sweep after its first two: cancel calls and log lines.\<close>

fun sweep_event :: "event \<Rightarrow> bool" where
  "sweep_event (Cancel_orders ids) = True"
| "sweep_event (Log l m) = (m \<noteq> SHUTDOWN_SEQUENCE)"
| "sweep_event e = False"

text \<open>The log lines that report an error.\<close>

fun error_logs :: "event list \<Rightarrow> log_msg list" where
  "error_logs [] = []"
| "error_logs (Log l m # tr) = (if l = INFO then error_logs tr else m # error_logs tr)"
| "error_logs (e # tr) = error_logs tr"

text \<open>A piece of the program that only ever adds events of one kind to the history.\<close>

definition emits_only :: "(event \<Rightarrow> bool) \<Rightarrow> 'a prog \<Rightarrow> bool" where
  "emits_only Q p = (\<forall>tr. \<exists>new. snd (p tr) = tr @ new \<and> list_all Q new)"

section \<open>Scenarios\<close>

text \<open>The four lines every run prints first (lines 207-210).\<close>

definition banner :: "event list" where
  "banner =
     [Print (CHR 0x0A # ''--- STANDX TRADING BOT ---''),
      Print ''Select Authentication Mode:'',
      Print ''1. Private Key Wallet (requires WALLET_PRIVATE_KEY) : rabby, metamask, etc.'',
      Print ''2. Keyless Wallet (requires STANDX_API_TOKEN & STANDX_API_KEY) : Binance wallet'']"

text \<open>
  An exchange where every call succeeds: mark price 30000, no open orders, no positions;
  the user picks mode 1 and the default order size.
\<close>

definition quiet_world :: world where
  "quiet_world =
     \<lparr>str_upper = ascii_upper,
      str_strip = ascii_strip,
      env_SYMBOL = None,
      input = (\<lambda>prompt h. if prompt = choice_prompt then Inr ''1'' else Inr ''''),
      get_auth_context = (\<lambda>mode h. Inr (Some \<lparr>token = ''tok'', address = ''0xabc''\<rparr>)),
      query_symbol_price = (\<lambda>s h. Inr (Finite False 30000)),
      query_open_orders = (\<lambda>s h. Inr []),
      cancel_orders = (\<lambda>ids h. Inr ()),
      query_positions = (\<lambda>s h. Inr []),
      place_order = (\<lambda>r h. Inr ()),
      sleep = (\<lambda>n h. Inr ())\<rparr>"



text \<open>The user presses Ctrl-C at the order size prompt.\<close>

definition interrupted_prompt_world :: world where
  "interrupted_prompt_world =
     quiet_world\<lparr>input :=
       (\<lambda>prompt h. if prompt = choice_prompt then Inr ''1'' else Inl KeyboardInterrupt)\<rparr>"

text \<open>The user presses Ctrl-C during the first price query, and during the second sleep.\<close>

definition interrupted_at_once_world :: world where
  "interrupted_at_once_world =
     quiet_world\<lparr>query_symbol_price := (\<lambda>s h. Inl KeyboardInterrupt)\<rparr>"

definition interrupted_later_world :: world where
  "interrupted_later_world =
     quiet_world\<lparr>sleep :=
       (\<lambda>n h. if Sleep REFRESH_RATE \<in> set h then Inl KeyboardInterrupt else Inr ())\<rparr>"

text \<open>
  Two orders are open when the user presses Ctrl-C during the first price query; and the
  same on an exchange that refuses every cancel call for more than one order.
\<close>

definition orders_left_world :: world where
  "orders_left_world =
     quiet_world\<lparr>query_symbol_price := (\<lambda>s h. Inl KeyboardInterrupt),
                 query_open_orders := (\<lambda>s h. Inr [Some ''a'', Some ''b''])\<rparr>"

definition orders_left_no_batch_world :: world where
  "orders_left_no_batch_world =
     orders_left_world\<lparr>cancel_orders :=
       (\<lambda>ids h. if length ids = 1 then Inr () else Inl (Exception ''too many orders''))\<rparr>"

text \<open>The user presses Ctrl-C during the first price query and the query of the open orders fails.\<close>

definition orders_unknown_world :: world where
  "orders_unknown_world =
     orders_left_world\<lparr>query_open_orders := (\<lambda>s h. Inl (Exception ''connection lost''))\<rparr>"

text \<open>The exchange reports a mark price of zero.\<close>

definition zero_price_world :: world where
  "zero_price_world = quiet_world\<lparr>query_symbol_price := (\<lambda>s h. Inr (Finite False 0))\<rparr>"

text \<open>Two orders are open and every cancel call fails.\<close>

definition cancel_down_world :: world where
  "cancel_down_world =
     quiet_world\<lparr>query_open_orders := (\<lambda>s h. Inr [Some ''a'', Some ''b'']),
                 cancel_orders := (\<lambda>ids h. Inl (Exception ''timeout''))\<rparr>"

text \<open>Three orders are open; the batch cancel fails, and so does the cancel of \<open>b\<close> alone.\<close>

definition cancel_flaky_world :: world where
  "cancel_flaky_world =
     quiet_world\<lparr>query_open_orders := (\<lambda>s h. Inr [Some ''a'', Some ''b'', Some ''c'']),
                 cancel_orders :=
                   (\<lambda>ids h. if ids = [''a''] \<or> ids = [''c''] then Inr ()
                            else Inl (Exception ''timeout''))\<rparr>"

text \<open>
  A short position of 0.01 BTC (the double nearest to 0.01), a position in another symbol,
  a flat entry and a long position of 0.25 BTC.
\<close>

definition open_positions_world :: world where
  "open_positions_world =
     quiet_world\<lparr>query_positions :=
       (\<lambda>s h. Inr [\<lparr>pos_symbol = Some ''BTC-USD'', pos_qty = Inr (round_float True (1 / 100))\<rparr>,
                    \<lparr>pos_symbol = Some ''ETH-USD'', pos_qty = Inr (Finite False 5)\<rparr>,
                    \<lparr>pos_symbol = Some ''BTC-USD'', pos_qty = Inr (Finite False 0)\<rparr>,
                    \<lparr>pos_symbol = Some ''BTC-USD'', pos_qty = Inr (Finite False (1 / 4))\<rparr>])\<rparr>"

text \<open>
  The listing has an entry for BTC whose quantity is the text \<^verbatim>\<open>n/a\<close>, on which \<^verbatim>\<open>float\<close>
  raises a \<^verbatim>\<open>ValueError\<close>, and after it a long position of 0.5 BTC.
\<close>

definition not_a_number :: string where
  "not_a_number = ''could not convert string to float: '' @ [CHR 0x27] @ ''n/a'' @ [CHR 0x27]"

definition unreadable_position_world :: world where
  "unreadable_position_world =
     quiet_world\<lparr>query_positions :=
       (\<lambda>s h. Inr [\<lparr>pos_symbol = Some ''BTC-USD'', pos_qty = Inl not_a_number\<rparr>,
                    \<lparr>pos_symbol = Some ''BTC-USD'', pos_qty = Inr (Finite False (1 / 2))\<rparr>])\<rparr>"

text \<open>Two long positions, and the user presses Ctrl-C while the first close order is sent.\<close>

definition interrupted_close_world :: world where
  "interrupted_close_world =
     quiet_world\<lparr>query_positions :=
       (\<lambda>s h. Inr [\<lparr>pos_symbol = Some ''BTC-USD'', pos_qty = Inr (Finite False (1 / 4))\<rparr>,
                    \<lparr>pos_symbol = Some ''BTC-USD'', pos_qty = Inr (Finite False (1 / 2))\<rparr>]),
                 place_order := (\<lambda>r h. Inl KeyboardInterrupt)\<rparr>"

section \<open>Properties of the symbol selection\<close>

lemma endswith_suffix: "endswith s suf \<longleftrightarrow> suffix suf s"
proof
  assume "endswith s suf"
  then have "s = take (length s - length suf) s @ suf"
    by (metis append_take_drop_id endswith_def)
  then show "suffix suf s" by (metis suffixI)
next
  assume "suffix suf s"
  then obtain p where "s = p @ suf" by (auto simp: suffix_def)
  then show "endswith s suf" by (simp add: endswith_def)
qed

lemma ascii_upper_BTC: "ascii_upper ''BTC'' = ''BTC''"
  by (simp add: ascii_upper_def upper_char_def)

lemma select_symbol_default: "upper ''BTC'' = ''BTC'' \<Longrightarrow> select_symbol upper None = ''BTC-USD''"
  by (simp add: select_symbol_def getenv_SYMBOL_def endswith_def)

text \<open>
  C10. Whatever \<^verbatim>\<open>str.upper\<close> does to the value of SYMBOL, ASCII or not: the trading symbol is
  the upper-cased value, with \<open>-USD\<close> appended exactly when the upper-cased value does not
  already end in \<open>-USD\<close>, and it always ends in \<open>-USD\<close>; with SYMBOL unset the value is BTC,
  which \<^verbatim>\<open>str.upper\<close> leaves as it is, and the symbol is \<open>BTC-USD\<close>.
\<close>

theorem select_symbol_normalised:
  "select_symbol upper (Some v) =
     (if suffix ''-USD'' (upper v) then upper v else upper v @ ''-USD'')
   \<and> suffix ''-USD'' (select_symbol upper env)
   \<and> (upper ''BTC'' = ''BTC'' \<longrightarrow> select_symbol upper None = ''BTC-USD'')
   \<and> ascii_upper ''BTC'' = ''BTC''"
proof (intro conjI impI)
  show "select_symbol upper (Some v) =
     (if suffix ''-USD'' (upper v) then upper v else upper v @ ''-USD'')"
    by (simp add: select_symbol_def getenv_SYMBOL_def endswith_suffix)
  show "suffix ''-USD'' (select_symbol upper env)"
    by (simp add: select_symbol_def Let_def endswith_suffix suffix_def)
  show "ascii_upper ''BTC'' = ''BTC''" by (rule ascii_upper_BTC)
next
  assume "upper ''BTC'' = ''BTC''"
  then show "select_symbol upper None = ''BTC-USD''" by (rule select_symbol_default)
qed

text \<open>
  On ASCII values, and on a value that is not ASCII: the letter e with an acute accent
  (bytes C3 A9), which \<^verbatim>\<open>str.upper\<close> turns into its capital (bytes C3 89).
\<close>

theorem select_symbol_normalised_witness:
  "select_symbol ascii_upper None = ''BTC-USD''
   \<and> select_symbol ascii_upper (Some ''eth'') = ''ETH-USD''
   \<and> select_symbol ascii_upper (Some ''sol-usd'') = ''SOL-USD''
   \<and> select_symbol
        (\<lambda>s. if s = [CHR 0xC3, CHR 0xA9] then [CHR 0xC3, CHR 0x89] else ascii_upper s)
        (Some [CHR 0xC3, CHR 0xA9]) = [CHR 0xC3, CHR 0x89] @ ''-USD''"
proof -
  have a: "ascii_upper ''eth'' = ''ETH''" by code_simp
  have b: "ascii_upper ''sol-usd'' = ''SOL-USD''" by code_simp
  have c: "\<not> suffix ''-USD'' ''ETH''" by (simp add: suffix_def)
  have d: "suffix ''-USD'' ''SOL-USD''" by (rule suffixI [of _ "''SOL''"]) simp
  have e: "\<not> suffix ''-USD'' [CHR 0xC3, CHR 0x89]" by (simp add: suffix_def)
  from select_symbol_normalised [of ascii_upper "''eth''" None]
  have 1: "select_symbol ascii_upper None = ''BTC-USD''"
    and 2: "select_symbol ascii_upper (Some ''eth'') = ''ETH-USD''"
    by (simp_all add: a c)
  from select_symbol_normalised [of ascii_upper "''sol-usd''" None]
  have 3: "select_symbol ascii_upper (Some ''sol-usd'') = ''SOL-USD''"
    by (simp add: b d)
  from select_symbol_normalised
    [of "\<lambda>s. if s = [CHR 0xC3, CHR 0xA9] then [CHR 0xC3, CHR 0x89] else ascii_upper s"
      "[CHR 0xC3, CHR 0xA9]" None]
  have 4: "select_symbol
        (\<lambda>s. if s = [CHR 0xC3, CHR 0xA9] then [CHR 0xC3, CHR 0x89] else ascii_upper s)
        (Some [CHR 0xC3, CHR 0xA9]) = [CHR 0xC3, CHR 0x89] @ ''-USD''"
    using e by simp
  from 1 2 3 4 show ?thesis by (intro conjI)
qed

section \<open>Rounding\<close>

lemma ilog2_bounds:
  assumes "0 < x"
  shows "2 powi (ilog2 x) \<le> x \<and> x < 2 powi (ilog2 x + 1)"
proof (cases "1 \<le> x")
  case True
  define n where "n = \<lfloor>x\<rfloor>"
  have n1: "1 \<le> n" using True by (simp add: n_def)
  then have npos: "0 < n" by simp
  have bl: "1 \<le> bitlen n" using npos bitlen_eq_zero_iff[of n] bitlen_nonneg[of n] by linarith
  from bitlen_bounds[OF npos] have lo: "2 ^ nat (bitlen n - 1) \<le> n" and hi: "n < 2 ^ nat (bitlen n)"
    by auto
  have "(2::rat) powi (bitlen n - 1) = 2 ^ nat (bitlen n - 1)"
    using bl by (simp add: power_int_nonneg_exp)
  also have "\<dots> = of_int (2 ^ nat (bitlen n - 1))" by simp
  also have "\<dots> \<le> of_int n" using lo by (simp only: of_int_le_iff)
  also have "\<dots> \<le> x" by (simp add: n_def)
  finally have A: "2 powi (bitlen n - 1) \<le> x" .
  have "n + 1 \<le> 2 ^ nat (bitlen n)" using hi by simp
  then have "(of_int (n + 1) :: rat) \<le> of_int (2 ^ nat (bitlen n))" by (simp only: of_int_le_iff)
  moreover have "x < of_int (n + 1)" unfolding n_def by linarith
  ultimately have "x < of_int (2 ^ nat (bitlen n))" by linarith
  also have "\<dots> = 2 powi (bitlen n)" using bl by (simp add: power_int_nonneg_exp)
  finally have B: "x < 2 powi (bitlen n - 1 + 1)" by simp
  have "ilog2 x = bitlen n - 1" using True by (simp add: ilog2_def n_def)
  with A B show ?thesis by simp
next
  case False
  define y where "y = 1 / x"
  have xl: "x < 1" using False by simp
  have y1: "1 < y" using assms xl by (simp add: y_def)
  define c where "c = \<lceil>y\<rceil>"
  have c2: "2 \<le> c" using y1 unfolding c_def by linarith
  define k where "k = bitlen (c - 1)"
  have cpos: "0 < c - 1" using c2 by simp
  have k1: "1 \<le> k" using cpos bitlen_eq_zero_iff[of "c - 1"] bitlen_nonneg[of "c - 1"] unfolding k_def by linarith
  from bitlen_bounds[OF cpos] have lo: "2 ^ nat (k - 1) \<le> c - 1" and hi: "c - 1 < 2 ^ nat k"
    unfolding k_def by auto
  have ylo: "of_int (c - 1) < y" unfolding c_def by linarith
  have yhi: "y \<le> of_int c" unfolding c_def by linarith
  have "(of_int (2 ^ nat (k - 1)) :: rat) \<le> of_int (c - 1)" using lo by (simp only: of_int_le_iff)
  then have ylo2: "2 ^ nat (k - 1) < y" using ylo by simp
  have "c \<le> 2 ^ nat k" using hi by simp
  then have "(of_int c :: rat) \<le> of_int (2 ^ nat k)" by (simp only: of_int_le_iff)
  moreover have "(of_int (2 ^ nat k) :: rat) = 2 ^ nat k" by simp
  ultimately have yhi2: "y \<le> 2 ^ nat k" using yhi by linarith
  have ypos: "0 < y" using y1 by simp
  have xy: "x = 1 / y" by (simp add: y_def)
  have "(2::rat) powi (- k) = 1 / 2 ^ nat k"
    using k1 by (simp add: power_int_minus_divide power_int_nonneg_exp)
  also have "\<dots> \<le> 1 / y" using yhi2 ypos by (simp add: frac_le)
  finally have A: "2 powi (- k) \<le> x" by (simp add: xy)
  have "1 / y < 1 / 2 ^ nat (k - 1)" using ylo2 by (simp add: frac_less2)
  also have "\<dots> = (2::rat) powi (- (k - 1))"
    using k1 power_int_minus_divide[of "2::rat" "k - 1"] power_int_nonneg_exp[of "k - 1" "2::rat"]
    by simp
  finally have B: "x < 2 powi (- k + 1)" by (simp add: xy)
  have "ilog2 x = - k" using False by (simp add: ilog2_def k_def c_def y_def)
  with A B show ?thesis by simp
qed

lemma ilog2_unique:
  assumes "0 < x" "2 powi e \<le> x" "x < 2 powi (e + 1)"
  shows "ilog2 x = e"
proof -
  from ilog2_bounds[OF assms(1)] have lo: "2 powi (ilog2 x) \<le> x" and hi: "x < 2 powi (ilog2 x + 1)"
    by auto
  have "\<not> ilog2 x < e"
  proof
    assume "ilog2 x < e"
    then have "ilog2 x + 1 \<le> e" by simp
    then have "(2::rat) powi (ilog2 x + 1) \<le> 2 powi e" by (simp add: power_int_increasing)
    with hi assms(2) show False by linarith
  qed
  moreover have "\<not> e < ilog2 x"
  proof
    assume "e < ilog2 x"
    then have "e + 1 \<le> ilog2 x" by simp
    then have "(2::rat) powi (e + 1) \<le> 2 powi (ilog2 x)" by (simp add: power_int_increasing)
    with lo assms(3) show False by linarith
  qed
  ultimately show ?thesis by linarith
qed

lemma round_half_even_err: "\<bar>of_int (round_half_even x) - x\<bar> \<le> 1 / 2"
proof -
  have "of_int \<lfloor>x\<rfloor> \<le> x" "x < of_int \<lfloor>x\<rfloor> + 1" by linarith+
  then show ?thesis
    unfolding round_half_even_def Let_def by (auto simp: abs_le_iff)
qed

lemma round_half_even_cert:
  assumes "of_int k - 1 / 2 < x" "x < of_int k + 1 / 2"
  shows "round_half_even x = k"
proof -
  have e: "\<bar>of_int (round_half_even x) - x\<bar> \<le> 1 / 2" by (rule round_half_even_err)
  have "\<bar>(of_int (round_half_even x) :: rat) - of_int k\<bar> < 1" using e assms by linarith
  then have "\<bar>of_int (round_half_even x - k) :: rat\<bar> < 1" by simp
  then have "\<bar>round_half_even x - k\<bar> < 1" by (metis of_int_abs of_int_less_1_iff)
  then show ?thesis by simp
qed

lemma round_half_even_int [simp]: "round_half_even (of_int k) = k"
  by (simp add: round_half_even_def)

lemma ulp_pos: "0 < (2::rat) powi e"
  by simp

lemma round_float_cert:
  assumes m: "0 < m" and lo: "2 powi e \<le> m" and hi: "m < 2 powi (e + 1)"
    and u: "u = max e (- 1022) - 52"
    and k1: "of_int k - 1 / 2 < m / 2 powi u" and k2: "m / 2 powi u < of_int k + 1 / 2"
    and fin: "of_int k * 2 powi u < huge"
  shows "round_float s m = Finite s (of_int k * 2 powi u)"
proof -
  have e: "ilog2 m = e" using m lo hi by (rule ilog2_unique)
  have ue: "ulp_exp m = u" by (simp add: ulp_exp_def e u)
  have r: "round_half_even (m / 2 powi u) = k" using k1 k2 by (rule round_half_even_cert)
  show ?thesis using m fin by (simp add: round_float_def ue r Let_def)
qed

lemma round_float_exact:
  assumes m: "0 < m" and lo: "2 powi e \<le> m" and hi: "m < 2 powi (e + 1)"
    and u: "u = max e (- 1022) - 52"
    and k: "m = of_int k * 2 powi u" and fin: "m < huge"
  shows "round_float s m = Finite s m"
proof -
  have e: "ilog2 m = e" using m lo hi by (rule ilog2_unique)
  have ue: "ulp_exp m = u" by (simp add: ulp_exp_def e u)
  have "m / 2 powi u = of_int k" using ulp_pos[of u] by (simp add: k)
  then have r: "round_half_even (m / 2 powi u) = k" by simp
  show ?thesis using m fin by (simp add: round_float_def ue r Let_def k[symmetric])
qed

text \<open>The rounding error: half a unit in the last place.\<close>

lemma ulp_exp_bound:
  assumes "0 < m"
  shows "2 powi (ulp_exp m) \<le> max (m / 2 ^ 52) (2 powi (- 1074))"
proof (cases "- 1022 \<le> ilog2 m")
  case True
  then have "ulp_exp m = ilog2 m - 52" by (simp add: ulp_exp_def)
  then have "(2::rat) powi (ulp_exp m) = 2 powi (ilog2 m) / 2 ^ 52"
    by (simp add: power_int_diff)
  also have "\<dots> \<le> m / 2 ^ 52"
    using ilog2_bounds[OF assms] by (simp add: divide_right_mono)
  finally show ?thesis by simp
next
  case False
  then have "ulp_exp m = - 1074" by (simp add: ulp_exp_def)
  then show ?thesis by simp
qed

lemma round_float_cases:
  assumes "0 < m"
  obtains r where "round_float s m = Finite s r" "\<bar>r - m\<bar> \<le> 2 powi (ulp_exp m) / 2" "r < huge"
  | r where "round_float s m = Infinity s" "\<bar>r - m\<bar> \<le> 2 powi (ulp_exp m) / 2" "huge \<le> r"
proof -
  define u where "u = (2::rat) powi (ulp_exp m)"
  define r where "r = of_int (round_half_even (m / u)) * u"
  have u: "0 < u" by (simp add: u_def ulp_pos)
  have "\<bar>of_int (round_half_even (m / u)) - m / u\<bar> \<le> 1 / 2" by (rule round_half_even_err)
  then have "\<bar>of_int (round_half_even (m / u)) - m / u\<bar> * u \<le> 1 / 2 * u"
    using u by (simp add: mult_right_mono)
  moreover have "\<bar>of_int (round_half_even (m / u)) - m / u\<bar> * u = \<bar>r - m\<bar>"
  proof -
    have "\<bar>of_int (round_half_even (m / u)) - m / u\<bar> * u
            = \<bar>(of_int (round_half_even (m / u)) - m / u) * u\<bar>"
      using u by (simp add: abs_mult)
    also have "(of_int (round_half_even (m / u)) - m / u) * u = r - m"
      using u by (simp add: r_def algebra_simps)
    finally show ?thesis .
  qed
  ultimately have err: "\<bar>r - m\<bar> \<le> u / 2" by simp
  show thesis
  proof (cases "huge \<le> r")
    case True
    then have "round_float s m = Infinity s"
      using assms by (simp add: round_float_def Let_def r_def u_def)
    then show ?thesis using that(2) err True by (simp add: u_def)
  next
    case False
    then have "round_float s m = Finite s r"
      using assms by (simp add: round_float_def Let_def r_def u_def)
    then show ?thesis using that(1) err False by (simp add: u_def)
  qed
qed

section \<open>The constants of the quote computation\<close>

lemma spread_factor_value: "spread_factor = Finite False (7378697629483821 / 2 ^ 63)"
proof -
  have "round_float False (8 / 10000) = Finite False (of_int 7378697629483821 * 2 powi (- 63))"
    by (rule round_float_cert [where e = "- 11"]) (simp_all add: huge_def)
  then show ?thesis by (simp add: spread_factor_def SPREAD_BPS_def)
qed

lemma one_minus_spread_factor:
  "fsub (float_of_small_int 1) spread_factor = Finite False (8999993495337199 / 2 ^ 53)"
proof -
  have "round_float False (1 - 7378697629483821 / 2 ^ 63)
          = Finite False (of_int 8999993495337199 * 2 powi (- 53))"
    by (rule round_float_cert [where e = "- 1"]) (simp_all add: huge_def)
  then show ?thesis
    by (simp add: fsub_def spread_factor_value float_of_small_int_def float_val_def Let_def)
qed

lemma one_plus_spread_factor:
  "fadd (float_of_small_int 1) spread_factor = Finite False (4507202507072392 / 2 ^ 52)"
proof -
  have "round_float False (1 + 7378697629483821 / 2 ^ 63)
          = Finite False (of_int 4507202507072392 * 2 powi (- 52))"
    by (rule round_float_cert [where e = 0]) (simp_all add: huge_def)
  then show ?thesis
    by (simp add: spread_factor_value float_of_small_int_def float_val_def Let_def)
qed

section \<open>The two quoting scenarios\<close>

lemma round_half_even_numeral [simp]: "round_half_even (numeral n) = numeral n"
  using round_half_even_int [of "numeral n"] by simp

lemma double_095: "round_float False (95 / 100) = Finite False (4278419646001971 / 2 ^ 52)"
proof -
  have "round_float False (95 / 100) = Finite False (of_int 8556839292003942 * 2 powi (- 53))"
    by (rule round_float_cert [where e = "- 1"]) (simp_all add: huge_def)
  then show ?thesis by simp
qed

lemma bid_30000: "bid_price (Finite False 30000) = Finite False 29976"
proof -
  have "round_float False (30000 * (8999993495337199 / 2 ^ 53))
          = Finite False (of_int 8239740138553344 * 2 powi (- 38))"
    by (rule round_float_cert [where e = 14]) (simp_all add: huge_def)
  then show ?thesis by (simp add: bid_price_def one_minus_spread_factor)
qed

lemma ask_30000: "ask_price (Finite False 30000) = Finite False (8252934278086655 / 2 ^ 38)"
proof -
  have "round_float False (30000 * (4507202507072392 / 2 ^ 52))
          = Finite False (of_int 8252934278086655 * 2 powi (- 38))"
    by (rule round_float_cert [where e = 14]) (simp_all add: huge_def)
  then show ?thesis by (simp add: ask_price_def one_plus_spread_factor)
qed

lemma bid_095:
  "bid_price (Finite False (4278419646001971 / 2 ^ 52)) = Finite False (8549993820570339 / 2 ^ 53)"
proof -
  have "round_float False (4278419646001971 / 2 ^ 52 * (8999993495337199 / 2 ^ 53))
          = Finite False (of_int 8549993820570339 * 2 powi (- 53))"
    by (rule round_float_cert [where e = "- 1"]) (simp_all add: huge_def)
  then show ?thesis by (simp add: bid_price_def one_minus_spread_factor)
qed

lemma ask_095:
  "ask_price (Finite False (4278419646001971 / 2 ^ 52)) = Finite False (8563684763437544 / 2 ^ 53)"
proof -
  have "round_float False (4278419646001971 / 2 ^ 52 * (4507202507072392 / 2 ^ 52))
          = Finite False (of_int 8563684763437544 * 2 powi (- 53))"
    by (rule round_float_cert [where e = "- 1"]) (simp_all add: huge_def)
  then show ?thesis by (simp add: ask_price_def one_plus_spread_factor)
qed

lemma format_29976: "format_f 2 (Finite False 29976) = ''29976.00''"
  by (simp add: Let_def str_nat.simps digit_char_def zfill_def)

lemma format_30024: "format_f 2 (Finite False (8252934278086655 / 2 ^ 38)) = ''30024.00''"
proof -
  have "round_half_even (8252934278086655 / 2 ^ 38 * 10 ^ 2) = 3002400"
    by (rule round_half_even_cert) simp_all
  then show ?thesis by (simp add: Let_def str_nat.simps digit_char_def zfill_def)
qed

lemma format_09492: "format_f 4 (Finite False (8549993820570339 / 2 ^ 53)) = ''0.9492''"
proof -
  have "round_half_even (8549993820570339 / 2 ^ 53 * 10 ^ 4) = 9492"
    by (rule round_half_even_cert) simp_all
  then show ?thesis by (simp add: Let_def str_nat.simps digit_char_def zfill_def)
qed

lemma format_09508: "format_f 4 (Finite False (8563684763437544 / 2 ^ 53)) = ''0.9508''"
proof -
  have "round_half_even (8563684763437544 / 2 ^ 53 * 10 ^ 4) = 9508"
    by (rule round_half_even_cert) simp_all
  then show ?thesis by (simp add: Let_def str_nat.simps digit_char_def zfill_def)
qed

lemma quote_30000: "quote_prices (Finite False 30000) = (''29976.00'', ''30024.00'')"
proof -
  have ge: "\<not> flt (Finite False 30000) (float_of_small_int 100)"
    by (simp add: float_of_small_int_def float_val_def)
  show ?thesis
    by (simp only: quote_prices_def ge if_False bid_30000 ask_30000 format_29976 format_30024)
qed

lemma quote_095:
  "quote_prices (Finite False (4278419646001971 / 2 ^ 52)) = (''0.9492'', ''0.9508'')"
proof -
  have lt: "flt (Finite False (4278419646001971 / 2 ^ 52)) (float_of_small_int 100)"
    by (simp add: float_of_small_int_def float_val_def)
  show ?thesis
    by (simp only: quote_prices_def lt if_True bid_095 ask_095 format_09492 format_09508)
qed

lemma format_mark_30000: "format_f 4 (Finite False 30000) = ''30000.0000''"
proof -
  have r: "replicate 3 CHR ''0'' = ''000''" by (simp add: numeral_3_eq_3)
  show ?thesis by (simp add: Let_def str_nat.simps digit_char_def zfill_def r)
qed

text \<open>
  C9. On mark price 30000 the quote strings are 29976.00 and 30024.00 (two decimals); on
  mark price 0.95 (the double nearest to it) they are 0.9492 and 0.9508 (four decimals).
  The spread is the program's \<open>SPREAD_BPS = 8\<close>.
\<close>

theorem quote_scenarios:
  "SPREAD_BPS = 8
   \<and> quote_prices (Finite False 30000) = (''29976.00'', ''30024.00'')
   \<and> quote_prices (round_float False (95 / 100)) = (''0.9492'', ''0.9508'')"
  by (simp only: quote_30000 quote_095 double_095 SPREAD_BPS_def simp_thms)

section \<open>Bounds on the two quotes\<close>

lemma round_float_error:
  assumes "0 < x"
  obtains r where "round_float s x = Finite s r \<and> r < huge \<or> round_float s x = Infinity s \<and> huge \<le> r"
    and "\<bar>r - x\<bar> \<le> max (x / 2 ^ 53) (1 / 2 ^ 1075)"
proof -
  have "2 powi (ulp_exp x) / 2 \<le> max (x / 2 ^ 52) (2 powi (- 1074)) / 2"
    using ulp_exp_bound [OF assms] by (simp add: divide_right_mono)
  also have "\<dots> = max (x / 2 ^ 52 / 2) (2 powi (- 1074) / 2)"
    by (simp add: max_def)
  also have "\<dots> = max (x / 2 ^ 53) (1 / 2 ^ 1075)"
    by simp
  finally have h: "2 powi (ulp_exp x) / 2 \<le> max (x / 2 ^ 53) (1 / 2 ^ 1075)" .
  show thesis
  proof (rule round_float_cases [OF assms, of s])
    fix r assume "round_float s x = Finite s r" "\<bar>r - x\<bar> \<le> 2 powi ulp_exp x / 2" "r < huge"
    then show thesis using h that [of r] by simp
  next
    fix r assume "round_float s x = Infinity s" "\<bar>r - x\<bar> \<le> 2 powi ulp_exp x / 2" "huge \<le> r"
    then show thesis using h that [of r] by simp
  qed
qed

text \<open>The two factors \<^verbatim>\<open>1 - spread_factor\<close> and \<^verbatim>\<open>1 + spread_factor\<close>, as the doubles they are.\<close>

lemma bid_price_bounds:
  assumes lo: "626 / 2 ^ 1074 \<le> m" and hi: "m < huge"
  shows "\<exists>b. bid_price (Finite False m) = Finite False b
            \<and> \<bar>b - m * (8999993495337199 / 2 ^ 53)\<bar> \<le> max (m / 2 ^ 53) (1 / 2 ^ 1075)
            \<and> b < m"
proof -
  define x where "x = m * (8999993495337199 / 2 ^ 53)"
  have m: "0 < m" using lo by (rule less_le_trans [rotated]) simp
  have x: "0 < x" using m by (simp add: x_def)
  have bid: "bid_price (Finite False m) = round_float False x"
    by (simp add: bid_price_def one_minus_spread_factor x_def)
  obtain r where r: "round_float False x = Finite False r \<and> r < huge
        \<or> round_float False x = Infinity False \<and> huge \<le> r"
    and err: "\<bar>r - x\<bar> \<le> max (x / 2 ^ 53) (1 / 2 ^ 1075)"
    using round_float_error [OF x] by blast
  have "x / 2 ^ 53 \<le> m / 2 ^ 53" using m by (simp add: x_def)
  then have "max (x / 2 ^ 53) (1 / 2 ^ 1075) \<le> max (m / 2 ^ 53) (1 / 2 ^ 1075)"
    by (rule max.mono) simp
  with err have err': "\<bar>r - x\<bar> \<le> max (m / 2 ^ 53) (1 / 2 ^ 1075)" by (rule order_trans)
  have a: "x + m / 2 ^ 53 < m" using m by (simp add: x_def)
  have b: "x + 1 / 2 ^ 1075 < m" using lo by (simp add: x_def)
  have "r \<le> x + max (m / 2 ^ 53) (1 / 2 ^ 1075)" using err' by linarith
  also have "\<dots> < m" using a b by (simp add: max_def)
  finally have rm: "r < m" .
  then have "r < huge" using hi by simp
  then have "round_float False x = Finite False r" using r by auto
  then show ?thesis using err' rm bid by (auto simp: x_def)
qed

lemma ask_price_bounds:
  assumes lo: "626 / 2 ^ 1074 \<le> m"
  shows "ask_price (Finite False m) = Infinity False
       \<or> (\<exists>a. ask_price (Finite False m) = Finite False a
            \<and> \<bar>a - m * (4507202507072392 / 2 ^ 52)\<bar> \<le> max (m * 2 / 2 ^ 53) (1 / 2 ^ 1075)
            \<and> m < a)"
proof -
  define x where "x = m * (4507202507072392 / 2 ^ 52)"
  have m: "0 < m" using lo by (rule less_le_trans [rotated]) simp
  have x: "0 < x" using m by (simp add: x_def)
  have ask: "ask_price (Finite False m) = round_float False x"
    by (simp add: ask_price_def one_plus_spread_factor x_def)
  obtain r where r: "round_float False x = Finite False r \<and> r < huge
        \<or> round_float False x = Infinity False \<and> huge \<le> r"
    and err: "\<bar>r - x\<bar> \<le> max (x / 2 ^ 53) (1 / 2 ^ 1075)"
    using round_float_error [OF x] by blast
  have "x / 2 ^ 53 \<le> m * 2 / 2 ^ 53" using m by (simp add: x_def)
  then have "max (x / 2 ^ 53) (1 / 2 ^ 1075) \<le> max (m * 2 / 2 ^ 53) (1 / 2 ^ 1075)"
    by (rule max.mono) simp
  with err have err': "\<bar>r - x\<bar> \<le> max (m * 2 / 2 ^ 53) (1 / 2 ^ 1075)" by (rule order_trans)
  have a: "m < x - m * 2 / 2 ^ 53" using m by (simp add: x_def)
  have b: "m < x - 1 / 2 ^ 1075" using lo by (simp add: x_def)
  have "m < x - max (m * 2 / 2 ^ 53) (1 / 2 ^ 1075)" using a b by (simp add: max_def)
  also have "\<dots> \<le> r" using err' by linarith
  finally have rm: "m < r" .
  show ?thesis using r err' rm ask by (auto simp: x_def)
qed

section \<open>Ordering and width of the quotes\<close>

lemma huge_ge_1: "1 \<le> huge"
  by (simp add: huge_def)

text \<open>Up to \<open>0.9992 * 2 ^ 1024\<close> the ask is a finite double; from \<open>0.99921 * 2 ^ 1024\<close> on it is \<open>inf\<close>.\<close>

lemma ask_price_finite:
  assumes lo: "626 / 2 ^ 1074 \<le> m" and hi: "m \<le> huge * 9992 / 10000"
  shows "\<exists>a. ask_price (Finite False m) = Finite False a
            \<and> \<bar>a - m * (4507202507072392 / 2 ^ 52)\<bar> \<le> max (m * 2 / 2 ^ 53) (1 / 2 ^ 1075)
            \<and> m < a \<and> a < huge"
proof -
  define x where "x = m * (4507202507072392 / 2 ^ 52)"
  have m: "0 < m" using lo by (rule less_le_trans [rotated]) simp
  have x: "0 < x" using m by (simp add: x_def)
  have ask: "ask_price (Finite False m) = round_float False x"
    by (simp add: ask_price_def one_plus_spread_factor x_def)
  obtain r where r: "round_float False x = Finite False r \<and> r < huge
        \<or> round_float False x = Infinity False \<and> huge \<le> r"
    and err: "\<bar>r - x\<bar> \<le> max (x / 2 ^ 53) (1 / 2 ^ 1075)"
    using round_float_error [OF x] by blast
  have "x / 2 ^ 53 \<le> m * 2 / 2 ^ 53" using m by (simp add: x_def)
  then have "max (x / 2 ^ 53) (1 / 2 ^ 1075) \<le> max (m * 2 / 2 ^ 53) (1 / 2 ^ 1075)"
    by (rule max.mono) simp
  with err have err': "\<bar>r - x\<bar> \<le> max (m * 2 / 2 ^ 53) (1 / 2 ^ 1075)" by (rule order_trans)
  have a: "m < x - m * 2 / 2 ^ 53" using m by (simp add: x_def)
  have b: "m < x - 1 / 2 ^ 1075" using lo by (simp add: x_def)
  have "m < x - max (m * 2 / 2 ^ 53) (1 / 2 ^ 1075)" using a b by (simp add: max_def)
  also have "\<dots> \<le> r" using err' by linarith
  finally have rm: "m < r" .
  have c: "x + m * 2 / 2 ^ 53 < huge" using hi m huge_ge_1 by (simp add: x_def)
  have d: "x + 1 / 2 ^ 1075 < huge" using hi m huge_ge_1 by (simp add: x_def)
  have "r \<le> x + max (m * 2 / 2 ^ 53) (1 / 2 ^ 1075)" using err' by linarith
  also have "\<dots> < huge" using c d by (simp add: max_def)
  finally have "r < huge" .
  then have "round_float False x = Finite False r" using r by auto
  then show ?thesis using err' rm ask \<open>r < huge\<close> by (auto simp: x_def)
qed

lemma ask_price_overflow:
  assumes "huge * 99921 / 100000 \<le> m"
  shows "ask_price (Finite False m) = Infinity False"
proof -
  define x where "x = m * (4507202507072392 / 2 ^ 52)"
  have m: "0 < m" using assms huge_ge_1 by simp
  have x: "0 < x" using m by (simp add: x_def)
  have ask: "ask_price (Finite False m) = round_float False x"
    by (simp add: ask_price_def one_plus_spread_factor x_def)
  obtain r where r: "round_float False x = Finite False r \<and> r < huge
        \<or> round_float False x = Infinity False \<and> huge \<le> r"
    and err: "\<bar>r - x\<bar> \<le> max (x / 2 ^ 53) (1 / 2 ^ 1075)"
    using round_float_error [OF x] by blast
  have c: "huge \<le> x - x / 2 ^ 53" using assms huge_ge_1 by (simp add: x_def)
  have d: "huge \<le> x - 1 / 2 ^ 1075" using assms huge_ge_1 by (simp add: x_def)
  have "huge \<le> x - max (x / 2 ^ 53) (1 / 2 ^ 1075)" using c d by (simp add: max_def)
  also have "\<dots> \<le> r" using err by linarith
  finally have "huge \<le> r" .
  then show ?thesis using r ask by auto
qed

text \<open>
  The ordering first holds at \<open>626 / 2 ^ 1074\<close>: one double below, the ask still rounds back
  to the mark price.
\<close>

lemma ask_price_625: "ask_price (Finite False (625 / 2 ^ 1074)) = Finite False (625 / 2 ^ 1074)"
proof -
  have "round_float False (625 / 2 ^ 1074 * (4507202507072392 / 2 ^ 52))
          = Finite False (of_int 625 * 2 powi (- 1074))"
    by (rule round_float_cert [where e = "- 1065"]) (simp_all add: huge_def)
  then show ?thesis by (simp add: ask_price_def one_plus_spread_factor)
qed

text \<open>
  C7, counterexample. The smallest positive double, \<open>1 / 2 ^ 1074\<close> (Python's \<^verbatim>\<open>5e-324\<close>), is
  a mark price above zero whose bid rounds back to the mark price itself: the bid is not
  below the mark price; and still at \<open>625 / 2 ^ 1074\<close> the ask rounds back to the mark
  price. At the mark price \<open>626 / 2 ^ 1074\<close> the quotes are the neighbouring
  doubles \<open>625 / 2 ^ 1074\<close> and \<open>627 / 2 ^ 1074\<close>: the relative width is \<open>2 / 626\<close>, twice
  \<open>2 * 8 / 10000\<close>. At the largest double, \<open>(2 ^ 53 - 1) * 2 ^ 971\<close>, the ask is \<open>inf\<close>.
\<close>

theorem quote_ordering_counterexample:
  "(0::rat) < 1 / 2 ^ 1074
   \<and> round_float False (1 / 2 ^ 1074) = Finite False (1 / 2 ^ 1074)
   \<and> bid_price (Finite False (1 / 2 ^ 1074)) = Finite False (1 / 2 ^ 1074)
   \<and> \<not> flt (bid_price (Finite False (1 / 2 ^ 1074))) (Finite False (1 / 2 ^ 1074))
   \<and> ask_price (Finite False (625 / 2 ^ 1074)) = Finite False (625 / 2 ^ 1074)
   \<and> \<not> flt (Finite False (625 / 2 ^ 1074)) (ask_price (Finite False (625 / 2 ^ 1074)))
   \<and> bid_price (Finite False (626 / 2 ^ 1074)) = Finite False (625 / 2 ^ 1074)
   \<and> ask_price (Finite False (626 / 2 ^ 1074)) = Finite False (627 / 2 ^ 1074)
   \<and> ((627 / 2 ^ 1074 - 625 / 2 ^ 1074) / (626 / 2 ^ 1074) :: rat) = 2 / 626
   \<and> round_float False ((2 ^ 53 - 1) * 2 ^ 971) = Finite False ((2 ^ 53 - 1) * 2 ^ 971)
   \<and> ask_price (Finite False ((2 ^ 53 - 1) * 2 ^ 971)) = Infinity False"
proof -
  have a: "round_float False (1 / 2 ^ 1074) = Finite False (1 / 2 ^ 1074)"
    by (rule round_float_exact [where e = "- 1074" and k = 1 and u = "- 1074"])
      (simp_all add: huge_def)
  have "round_float False (1 / 2 ^ 1074 * (8999993495337199 / 2 ^ 53))
          = Finite False (of_int 1 * 2 powi (- 1074))"
    by (rule round_float_cert [where e = "- 1075"]) (simp_all add: huge_def)
  then have b: "bid_price (Finite False (1 / 2 ^ 1074)) = Finite False (1 / 2 ^ 1074)"
    by (simp add: bid_price_def one_minus_spread_factor)
  have c: "\<not> flt (bid_price (Finite False (1 / 2 ^ 1074))) (Finite False (1 / 2 ^ 1074))"
    unfolding b by simp
  have d: "(0::rat) < 1 / 2 ^ 1074" by simp
  have "round_float False (626 / 2 ^ 1074 * (8999993495337199 / 2 ^ 53))
          = Finite False (of_int 625 * 2 powi (- 1074))"
    by (rule round_float_cert [where e = "- 1065"]) (simp_all add: huge_def)
  then have e: "bid_price (Finite False (626 / 2 ^ 1074)) = Finite False (625 / 2 ^ 1074)"
    by (simp add: bid_price_def one_minus_spread_factor)
  have "round_float False (626 / 2 ^ 1074 * (4507202507072392 / 2 ^ 52))
          = Finite False (of_int 627 * 2 powi (- 1074))"
    by (rule round_float_cert [where e = "- 1065"]) (simp_all add: huge_def)
  then have f: "ask_price (Finite False (626 / 2 ^ 1074)) = Finite False (627 / 2 ^ 1074)"
    by (simp add: ask_price_def one_plus_spread_factor)
  have g: "((627 / 2 ^ 1074 - 625 / 2 ^ 1074) / (626 / 2 ^ 1074) :: rat) = 2 / 626"
    by simp
  have h: "round_float False ((2 ^ 53 - 1) * 2 ^ 971) = Finite False ((2 ^ 53 - 1) * 2 ^ 971)"
    by (rule round_float_exact [where e = 1023 and k = "2 ^ 53 - 1" and u = 971])
      (simp_all add: huge_def)
  have i: "ask_price (Finite False ((2 ^ 53 - 1) * 2 ^ 971)) = Infinity False"
    by (rule ask_price_overflow) (simp add: huge_def)
  have j: "\<not> flt (Finite False (625 / 2 ^ 1074)) (ask_price (Finite False (625 / 2 ^ 1074)))"
    unfolding ask_price_625 by simp
  from d a b c ask_price_625 j e f g h i show ?thesis by (intro conjI)
qed

lemma width_bound:
  fixes a b m :: rat
  assumes ea: "\<bar>a - m * (4507202507072392 / 2 ^ 52)\<bar> \<le> m * 2 / 2 ^ 53"
    and eb: "\<bar>b - m * (8999993495337199 / 2 ^ 53)\<bar> \<le> m / 2 ^ 53" and m: "0 < m"
  shows "\<bar>(a - b) - m * (16 / 10000)\<bar> \<le> m / 10 ^ 15"
proof -
  have a1: "a \<le> m * (4507202507072392 / 2 ^ 52) + m * 2 / 2 ^ 53"
    and a2: "m * (4507202507072392 / 2 ^ 52) - m * 2 / 2 ^ 53 \<le> a"
    using ea by (simp_all only: abs_diff_le_iff)
  have b1: "b \<le> m * (8999993495337199 / 2 ^ 53) + m / 2 ^ 53"
    and b2: "m * (8999993495337199 / 2 ^ 53) - m / 2 ^ 53 \<le> b"
    using eb by (simp_all only: abs_diff_le_iff)
  have u: "m * (4507202507072392 / 2 ^ 52) + m * 2 / 2 ^ 53
           - (m * (8999993495337199 / 2 ^ 53) - m / 2 ^ 53) - m * (16 / 10000) \<le> m / 10 ^ 15"
    using m by simp
  have l: "- (m / 10 ^ 15) \<le> m * (4507202507072392 / 2 ^ 52) - m * 2 / 2 ^ 53
           - (m * (8999993495337199 / 2 ^ 53) + m / 2 ^ 53) - m * (16 / 10000)"
    using m by simp
  show ?thesis using a1 a2 b1 b2 u l by linarith
qed

text \<open>With the subnormal mark prices: one more unit in the last place, \<open>1 / 2 ^ 1074\<close>.\<close>

lemma width_bound_subnormal:
  fixes a b m :: rat
  assumes ea: "\<bar>a - m * (4507202507072392 / 2 ^ 52)\<bar> \<le> max (m * 2 / 2 ^ 53) (1 / 2 ^ 1075)"
    and eb: "\<bar>b - m * (8999993495337199 / 2 ^ 53)\<bar> \<le> max (m / 2 ^ 53) (1 / 2 ^ 1075)"
    and m: "0 < m"
  shows "\<bar>(a - b) - m * (16 / 10000)\<bar> \<le> m / 10 ^ 15 + 1 / 2 ^ 1074"
proof -
  have "max (m * 2 / 2 ^ 53) (1 / 2 ^ 1075) \<le> m * 2 / 2 ^ 53 + 1 / 2 ^ 1075"
    using m by (intro max.boundedI) simp_all
  with ea have ea': "\<bar>a - m * (4507202507072392 / 2 ^ 52)\<bar> \<le> m * 2 / 2 ^ 53 + 1 / 2 ^ 1075"
    by (rule order_trans)
  have "max (m / 2 ^ 53) (1 / 2 ^ 1075) \<le> m / 2 ^ 53 + 1 / 2 ^ 1075"
    using m by (intro max.boundedI) simp_all
  with eb have eb': "\<bar>b - m * (8999993495337199 / 2 ^ 53)\<bar> \<le> m / 2 ^ 53 + 1 / 2 ^ 1075"
    by (rule order_trans)
  have a1: "a \<le> m * (4507202507072392 / 2 ^ 52) + (m * 2 / 2 ^ 53 + 1 / 2 ^ 1075)"
    and a2: "m * (4507202507072392 / 2 ^ 52) - (m * 2 / 2 ^ 53 + 1 / 2 ^ 1075) \<le> a"
    using ea' by (simp_all only: abs_diff_le_iff)
  have b1: "b \<le> m * (8999993495337199 / 2 ^ 53) + (m / 2 ^ 53 + 1 / 2 ^ 1075)"
    and b2: "m * (8999993495337199 / 2 ^ 53) - (m / 2 ^ 53 + 1 / 2 ^ 1075) \<le> b"
    using eb' by (simp_all only: abs_diff_le_iff)
  have u: "m * (4507202507072392 / 2 ^ 52) + (m * 2 / 2 ^ 53 + 1 / 2 ^ 1075)
           - (m * (8999993495337199 / 2 ^ 53) - (m / 2 ^ 53 + 1 / 2 ^ 1075)) - m * (16 / 10000)
           \<le> m / 10 ^ 15 + 1 / 2 ^ 1074"
    using m by simp
  have l: "- (m / 10 ^ 15 + 1 / 2 ^ 1074)
           \<le> m * (4507202507072392 / 2 ^ 52) - (m * 2 / 2 ^ 53 + 1 / 2 ^ 1075)
           - (m * (8999993495337199 / 2 ^ 53) + (m / 2 ^ 53 + 1 / 2 ^ 1075)) - m * (16 / 10000)"
    using m by simp
  show ?thesis using a1 a2 b1 b2 u l by linarith
qed

text \<open>Each quote against its exact target, \<open>mark * (1 - 8 / 10000)\<close> and \<open>mark * (1 + 8 / 10000)\<close>.\<close>

lemma bid_close:
  fixes b m :: rat
  assumes eb: "\<bar>b - m * (8999993495337199 / 2 ^ 53)\<bar> \<le> max (m / 2 ^ 53) (1 / 2 ^ 1075)"
    and m: "0 < m"
  shows "\<bar>b - m * (9992 / 10000)\<bar> \<le> m / 10 ^ 15 + 1 / 2 ^ 1074"
proof -
  have "max (m / 2 ^ 53) (1 / 2 ^ 1075) \<le> m / 2 ^ 53 + 1 / 2 ^ 1075"
    using m by (intro max.boundedI) simp_all
  with eb have eb': "\<bar>b - m * (8999993495337199 / 2 ^ 53)\<bar> \<le> m / 2 ^ 53 + 1 / 2 ^ 1075"
    by (rule order_trans)
  have b1: "b \<le> m * (8999993495337199 / 2 ^ 53) + (m / 2 ^ 53 + 1 / 2 ^ 1075)"
    and b2: "m * (8999993495337199 / 2 ^ 53) - (m / 2 ^ 53 + 1 / 2 ^ 1075) \<le> b"
    using eb' by (simp_all only: abs_diff_le_iff)
  have u: "m * (8999993495337199 / 2 ^ 53) + (m / 2 ^ 53 + 1 / 2 ^ 1075) - m * (9992 / 10000)
           \<le> m / 10 ^ 15 + 1 / 2 ^ 1074"
    using m by simp
  have l: "- (m / 10 ^ 15 + 1 / 2 ^ 1074)
           \<le> m * (8999993495337199 / 2 ^ 53) - (m / 2 ^ 53 + 1 / 2 ^ 1075) - m * (9992 / 10000)"
    using m by simp
  show ?thesis using b1 b2 u l by linarith
qed

lemma ask_close:
  fixes a m :: rat
  assumes ea: "\<bar>a - m * (4507202507072392 / 2 ^ 52)\<bar> \<le> max (m * 2 / 2 ^ 53) (1 / 2 ^ 1075)"
    and m: "0 < m"
  shows "\<bar>a - m * (10008 / 10000)\<bar> \<le> m / 10 ^ 15 + 1 / 2 ^ 1074"
proof -
  have "max (m * 2 / 2 ^ 53) (1 / 2 ^ 1075) \<le> m * 2 / 2 ^ 53 + 1 / 2 ^ 1075"
    using m by (intro max.boundedI) simp_all
  with ea have ea': "\<bar>a - m * (4507202507072392 / 2 ^ 52)\<bar> \<le> m * 2 / 2 ^ 53 + 1 / 2 ^ 1075"
    by (rule order_trans)
  have a1: "a \<le> m * (4507202507072392 / 2 ^ 52) + (m * 2 / 2 ^ 53 + 1 / 2 ^ 1075)"
    and a2: "m * (4507202507072392 / 2 ^ 52) - (m * 2 / 2 ^ 53 + 1 / 2 ^ 1075) \<le> a"
    using ea' by (simp_all only: abs_diff_le_iff)
  have u: "m * (4507202507072392 / 2 ^ 52) + (m * 2 / 2 ^ 53 + 1 / 2 ^ 1075) - m * (10008 / 10000)
           \<le> m / 10 ^ 15 + 1 / 2 ^ 1074"
    using m by simp
  have l: "- (m / 10 ^ 15 + 1 / 2 ^ 1074)
           \<le> m * (4507202507072392 / 2 ^ 52) - (m * 2 / 2 ^ 53 + 1 / 2 ^ 1075)
             - m * (10008 / 10000)"
    using m by simp
  show ?thesis using a1 a2 u l by linarith
qed

text \<open>
  C7, amended. With the program's \<open>SPREAD_BPS = 8\<close>: for every mark price from
  \<open>626 / 2 ^ 1074\<close> (about 3.1e-321) up to the largest double, the bid is a finite double
  below the mark price, within \<open>mark / 10 ^ 15 + 1 / 2 ^ 1074\<close> of \<open>mark * (1 - SPREAD_BPS /
  10000)\<close>, and the ask is above the mark price. For every such mark price up to
  \<open>0.9992 * 2 ^ 1024\<close> (about 1.7963e308) the ask is a finite double too, as close to
  \<open>mark * (1 + SPREAD_BPS / 10000)\<close>, the width
  \<open>ask - bid\<close>, computed exactly from the two doubles, is within \<open>mark / 10 ^ 15 + 1 / 2 ^ 1074\<close>
  of \<open>mark * 2 * SPREAD_BPS / 10000\<close>, and from the smallest normal double \<open>1 / 2 ^ 1022\<close> on
  the relative width \<open>(ask - bid) / mark\<close> is within \<open>1 / 10 ^ 15\<close> of
  \<open>2 * SPREAD_BPS / 10000\<close>. From \<open>0.99921 * 2 ^ 1024\<close> on the ask is \<open>inf\<close>.
\<close>

theorem quote_ordering:
  assumes lo: "626 / 2 ^ 1074 \<le> m" and hi: "m < huge"
  shows "\<exists>b. bid_price (Finite False m) = Finite False b \<and> b < m
           \<and> \<bar>b - m * (1 - of_int SPREAD_BPS / 10000)\<bar> \<le> m / 10 ^ 15 + 1 / 2 ^ 1074
           \<and> flt (bid_price (Finite False m)) (Finite False m)
           \<and> flt (Finite False m) (ask_price (Finite False m))
           \<and> (m \<le> huge * 9992 / 10000
              \<longrightarrow> (\<exists>a. ask_price (Finite False m) = Finite False a \<and> m < a \<and> a < huge
                    \<and> \<bar>a - m * (1 + of_int SPREAD_BPS / 10000)\<bar>
                        \<le> m / 10 ^ 15 + 1 / 2 ^ 1074
                    \<and> \<bar>(a - b) - m * (2 * of_int SPREAD_BPS / 10000)\<bar>
                        \<le> m / 10 ^ 15 + 1 / 2 ^ 1074
                    \<and> (1 / 2 ^ 1022 \<le> m
                        \<longrightarrow> \<bar>(a - b) / m - 2 * of_int SPREAD_BPS / 10000\<bar> \<le> 1 / 10 ^ 15)))
           \<and> (huge * 99921 / 100000 \<le> m \<longrightarrow> ask_price (Finite False m) = Infinity False)"
proof -
  have m: "0 < m" using lo by (rule less_le_trans [rotated]) simp
  obtain b where b: "bid_price (Finite False m) = Finite False b"
    and eb: "\<bar>b - m * (8999993495337199 / 2 ^ 53)\<bar> \<le> max (m / 2 ^ 53) (1 / 2 ^ 1075)"
    and bm: "b < m"
    using bid_price_bounds [OF lo hi] by blast
  have fb: "flt (bid_price (Finite False m)) (Finite False m)"
    using bm by (simp add: b float_val_def)
  have fa: "flt (Finite False m) (ask_price (Finite False m))"
    using ask_price_bounds [OF lo] by (auto simp: float_val_def)
  have bc: "\<bar>b - m * (1 - of_int SPREAD_BPS / 10000)\<bar> \<le> m / 10 ^ 15 + 1 / 2 ^ 1074"
    using bid_close [OF eb m] by (simp add: SPREAD_BPS_def)
  have fin: "\<exists>a. ask_price (Finite False m) = Finite False a \<and> m < a \<and> a < huge
        \<and> \<bar>a - m * (1 + of_int SPREAD_BPS / 10000)\<bar> \<le> m / 10 ^ 15 + 1 / 2 ^ 1074
        \<and> \<bar>(a - b) - m * (2 * of_int SPREAD_BPS / 10000)\<bar> \<le> m / 10 ^ 15 + 1 / 2 ^ 1074
        \<and> (1 / 2 ^ 1022 \<le> m
            \<longrightarrow> \<bar>(a - b) / m - 2 * of_int SPREAD_BPS / 10000\<bar> \<le> 1 / 10 ^ 15)"
    if top: "m \<le> huge * 9992 / 10000"
  proof -
    obtain a where a: "ask_price (Finite False m) = Finite False a"
      and ea: "\<bar>a - m * (4507202507072392 / 2 ^ 52)\<bar> \<le> max (m * 2 / 2 ^ 53) (1 / 2 ^ 1075)"
      and am: "m < a" and ah: "a < huge"
      using ask_price_finite [OF lo top] by blast
    have w: "\<bar>(a - b) - m * (16 / 10000)\<bar> \<le> m / 10 ^ 15 + 1 / 2 ^ 1074"
      using ea eb m by (rule width_bound_subnormal)
    have "\<bar>(a - b) / m - 16 / 10000\<bar> \<le> 1 / 10 ^ 15" if normal: "1 / 2 ^ 1022 \<le> m"
    proof -
      have "(1::rat) / 2 ^ 1075 \<le> m / 2 ^ 53" using normal by simp
      then have eb': "\<bar>b - m * (8999993495337199 / 2 ^ 53)\<bar> \<le> m / 2 ^ 53"
        using eb by (simp add: max_def split: if_splits)
      have "(1::rat) / 2 ^ 1075 \<le> m * 2 / 2 ^ 53" using normal by simp
      then have ea': "\<bar>a - m * (4507202507072392 / 2 ^ 52)\<bar> \<le> m * 2 / 2 ^ 53"
        using ea by (simp add: max_def split: if_splits)
      define d where "d = (a - b) - m * (16 / 10000)"
      have d: "\<bar>d\<bar> \<le> m / 10 ^ 15"
        unfolding d_def using ea' eb' m by (rule width_bound)
      have dm: "d / m = (a - b) / m - 16 / 10000"
        using m by (simp add: d_def diff_divide_distrib)
      have "\<bar>d / m\<bar> = \<bar>d\<bar> / m" using m by (simp add: abs_divide)
      also have "\<dots> \<le> (m / 10 ^ 15) / m" using d m by (simp only: divide_right_mono less_imp_le)
      also have "\<dots> = 1 / 10 ^ 15" using m by simp
      finally show ?thesis unfolding dm .
    qed
    moreover have "\<bar>a - m * (1 + of_int SPREAD_BPS / 10000)\<bar> \<le> m / 10 ^ 15 + 1 / 2 ^ 1074"
      using ask_close [OF ea m] by (simp add: SPREAD_BPS_def)
    ultimately show ?thesis using a am ah w by (simp add: SPREAD_BPS_def)
  qed
  have ovf: "ask_price (Finite False m) = Infinity False" if "huge * 99921 / 100000 \<le> m"
    using that by (rule ask_price_overflow)
  from b bm bc fb fa fin ovf show ?thesis by blast
qed

text \<open>At the mark price 30000, and at the largest double.\<close>

theorem quote_ordering_witness:
  "(626::rat) / 2 ^ 1074 \<le> 30000 \<and> 30000 < huge \<and> 30000 \<le> huge * 9992 / 10000
   \<and> (1::rat) / 2 ^ 1022 \<le> 30000
   \<and> flt (bid_price (Finite False 30000)) (Finite False 30000)
   \<and> flt (Finite False 30000) (ask_price (Finite False 30000))
   \<and> (\<exists>a b. ask_price (Finite False 30000) = Finite False a
          \<and> bid_price (Finite False 30000) = Finite False b
          \<and> b < 30000 \<and> 30000 < a
          \<and> \<bar>(a - b) / 30000 - 2 * of_int SPREAD_BPS / 10000\<bar> \<le> 1 / 10 ^ 15)
   \<and> (626::rat) / 2 ^ 1074 \<le> (2 ^ 53 - 1) * 2 ^ 971 \<and> (2 ^ 53 - 1) * 2 ^ 971 < huge
   \<and> huge * 99921 / 100000 \<le> (2 ^ 53 - 1) * 2 ^ 971
   \<and> flt (bid_price (Finite False ((2 ^ 53 - 1) * 2 ^ 971))) (Finite False ((2 ^ 53 - 1) * 2 ^ 971))
   \<and> ask_price (Finite False ((2 ^ 53 - 1) * 2 ^ 971)) = Infinity False"
proof -
  have lo: "(626::rat) / 2 ^ 1074 \<le> 30000" by simp
  have hi: "30000 < huge" by (simp add: huge_def)
  have top: "30000 \<le> huge * 9992 / 10000" by (simp add: huge_def)
  have normal: "(1::rat) / 2 ^ 1022 \<le> 30000" by simp
  have lo': "(626::rat) / 2 ^ 1074 \<le> (2 ^ 53 - 1) * 2 ^ 971" by simp
  have hi': "(2 ^ 53 - 1) * 2 ^ 971 < huge" by (simp add: huge_def)
  have ovf: "huge * 99921 / 100000 \<le> (2 ^ 53 - 1) * 2 ^ 971" by (simp add: huge_def)
  from quote_ordering [OF lo hi] top normal
  obtain b a where "bid_price (Finite False 30000) = Finite False b" "b < 30000"
    "flt (bid_price (Finite False 30000)) (Finite False 30000)"
    "flt (Finite False 30000) (ask_price (Finite False 30000))"
    "ask_price (Finite False 30000) = Finite False a" "30000 < a"
    "\<bar>(a - b) / 30000 - 2 * of_int SPREAD_BPS / 10000\<bar> \<le> 1 / 10 ^ 15"
    by blast
  then have 1: "flt (bid_price (Finite False 30000)) (Finite False 30000)
   \<and> flt (Finite False 30000) (ask_price (Finite False 30000))
   \<and> (\<exists>a b. ask_price (Finite False 30000) = Finite False a
          \<and> bid_price (Finite False 30000) = Finite False b
          \<and> b < 30000 \<and> 30000 < a
          \<and> \<bar>(a - b) / 30000 - 2 * of_int SPREAD_BPS / 10000\<bar> \<le> 1 / 10 ^ 15)"
    by blast
  from quote_ordering [OF lo' hi'] ovf
  have 2: "flt (bid_price (Finite False ((2 ^ 53 - 1) * 2 ^ 971)))
        (Finite False ((2 ^ 53 - 1) * 2 ^ 971))
   \<and> ask_price (Finite False ((2 ^ 53 - 1) * 2 ^ 971)) = Infinity False"
    by blast
  from lo hi top normal 1 lo' hi' ovf 2 show ?thesis by blast
qed

section \<open>Precision of the quote strings\<close>

lemma digit_char_not_point: "d < 10 \<Longrightarrow> digit_char d \<noteq> CHR ''.''"
  using nth_mem [of d "''0123456789''"] by (auto simp: digit_char_def)

lemma str_nat_no_point: "c \<in> set (str_nat n) \<Longrightarrow> c \<noteq> CHR ''.''"
proof (induction n rule: str_nat.induct)
  case (1 n)
  show ?case
  proof (cases "n < 10")
    case True
    then show ?thesis using "1.prems" digit_char_not_point [of n]
      by (simp add: str_nat.simps [of n])
  next
    case False
    have "n mod 10 < 10" by simp
    then show ?thesis using False "1.prems" "1.IH" digit_char_not_point [of "n mod 10"]
      by (auto simp: str_nat.simps [of n])
  qed
qed

lemma length_str_nat: "n < 10 ^ p \<Longrightarrow> 0 < p \<Longrightarrow> length (str_nat n) \<le> p"
proof (induction n arbitrary: p rule: str_nat.induct)
  case (1 n)
  show ?case
  proof (cases "n < 10")
    case True
    then show ?thesis using "1.prems" by (simp add: str_nat.simps [of n])
  next
    case False
    obtain q where q: "p = Suc q" using "1.prems"(2) by (cases p) auto
    have "q \<noteq> 0" using False "1.prems"(1) q by (cases q) auto
    moreover have "n div 10 < 10 ^ q" using "1.prems"(1) q by (simp add: less_mult_imp_div_less)
    ultimately have "length (str_nat (n div 10)) \<le> q" using "1.IH" [OF False, of q] by simp
    then show ?thesis using False q by (simp add: str_nat.simps [of n])
  qed
qed

lemma fraction_digits_format_f: "length (fraction_digits (format_f p (Finite s x))) = p"
proof (cases "p = 0")
  case True
  have nil: "dropWhile (\<lambda>c. c \<noteq> CHR ''.'') (str_nat k) = []" for k
    by (auto simp: dropWhile_eq_Nil_conv dest: str_nat_no_point)
  show ?thesis using True by (simp add: fraction_digits_def Let_def nil)
next
  case False
  define n where "n = nat (round_half_even (x * 10 ^ p))"
  have len: "length (str_nat (n mod 10 ^ p)) \<le> p"
    using False by (intro length_str_nat) simp_all
  have "dropWhile (\<lambda>c. c \<noteq> CHR ''.'')
          (((if s then ''-'' else '''') @ str_nat (n div 10 ^ p)) @ ''.'' @ zfill p (str_nat (n mod 10 ^ p)))
        = dropWhile (\<lambda>c. c \<noteq> CHR ''.'') (''.'' @ zfill p (str_nat (n mod 10 ^ p)))"
    by (rule dropWhile_append2) (auto dest: str_nat_no_point)
  then have "fraction_digits (format_f p (Finite s x)) = zfill p (str_nat (n mod 10 ^ p))"
    using False by (simp add: fraction_digits_def Let_def n_def)
  then show ?thesis using len by (simp add: zfill_def)
qed

text \<open>A product of two magnitudes that stays clear of the overflow threshold is a finite double.\<close>

lemma fmul_finite:
  assumes "0 \<le> m" "0 \<le> n" "m * n * 2 < huge"
  shows "\<exists>r. fmul (Finite s m) (Finite t n) = Finite (s \<noteq> t) r"
proof (cases "m * n = 0")
  case True
  then show ?thesis by (auto simp: round_float_def)
next
  case False
  define x where "x = m * n"
  have x: "0 < x" using False assms by (simp add: less_le x_def)
  obtain r where r: "round_float (s \<noteq> t) x = Finite (s \<noteq> t) r \<and> r < huge
        \<or> round_float (s \<noteq> t) x = Infinity (s \<noteq> t) \<and> huge \<le> r"
    and err: "\<bar>r - x\<bar> \<le> max (x / 2 ^ 53) (1 / 2 ^ 1075)"
    using round_float_error [OF x] by blast
  have "r < huge"
  proof (cases "x / 2 ^ 53 \<le> 1 / 2 ^ 1075")
    case True
    then have "max (x / 2 ^ 53) (1 / 2 ^ 1075) = 1 / 2 ^ 1075" by (simp only: max_absorb2)
    with err have "r \<le> x + 1 / 2 ^ 1075" by linarith
    moreover have "x \<le> 1 / 2 ^ 1022" using True by simp
    moreover have "(1::rat) / 2 ^ 1022 + 1 / 2 ^ 1075 < huge" by (simp add: huge_def)
    ultimately show ?thesis by linarith
  next
    case False
    then have "max (x / 2 ^ 53) (1 / 2 ^ 1075) = x / 2 ^ 53" by (simp only: max_absorb1 not_le less_imp_le)
    with err have "r \<le> x + x / 2 ^ 53" by linarith
    moreover have "x + x / 2 ^ 53 \<le> x * 2" using x by simp
    ultimately show ?thesis using assms(3) by (simp add: x_def)
  qed
  then have "round_float (s \<noteq> t) x = Finite (s \<noteq> t) r" using r by auto
  then show ?thesis by (auto simp: x_def)
qed

lemma quote_digits:
  assumes "0 \<le> m" "m * 4 < huge"
  shows "length (fraction_digits (fst (quote_prices (Finite False m))))
           = (if m < 100 then 4 else 2)
       \<and> length (fraction_digits (snd (quote_prices (Finite False m))))
           = (if m < 100 then 4 else 2)"
proof -
  have "m * (8999993495337199 / 2 ^ 53) * 2 \<le> m * 4" using assms(1) by simp
  then have "m * (8999993495337199 / 2 ^ 53) * 2 < huge" using assms(2) by (rule le_less_trans)
  then obtain b where b: "bid_price (Finite False m) = Finite False b"
    using fmul_finite [of m "8999993495337199 / 2 ^ 53" False False] assms(1)
    by (auto simp: bid_price_def one_minus_spread_factor)
  have "m * (4507202507072392 / 2 ^ 52) * 2 \<le> m * 4" using assms(1) by simp
  then have "m * (4507202507072392 / 2 ^ 52) * 2 < huge" using assms(2) by (rule le_less_trans)
  then obtain a where a: "ask_price (Finite False m) = Finite False a"
    using fmul_finite [of m "4507202507072392 / 2 ^ 52" False False] assms(1)
    by (auto simp: ask_price_def one_plus_spread_factor)
  have lt: "flt (Finite False m) (float_of_small_int 100) \<longleftrightarrow> m < 100"
    by (simp add: float_of_small_int_def float_val_def)
  show ?thesis
    by (simp only: quote_prices_def lt a b fraction_digits_format_f fst_conv snd_conv
        if_distrib [of fst] if_distrib [of snd] if_distrib [of fraction_digits]
        if_distrib [of length])
qed

text \<open>
  C8. The precision depends on the mark price alone: a mark price below 100 has both quotes
  formatted by \<^verbatim>\<open>.4f\<close>, any other by \<^verbatim>\<open>.2f\<close>, 100 itself included; a number formatted with
  \<open>p\<close> digits has exactly \<open>p\<close> characters after its decimal point, and so have both quote
  strings of every mark price from zero up to \<open>2 powi 1022\<close> (near the largest double the ask overflows).
\<close>

theorem precision_selection:
  "(flt mark (float_of_small_int 100) \<longrightarrow>
      quote_prices mark = (format_f 4 (bid_price mark), format_f 4 (ask_price mark)))
   \<and> (\<not> flt mark (float_of_small_int 100) \<longrightarrow>
      quote_prices mark = (format_f 2 (bid_price mark), format_f 2 (ask_price mark)))
   \<and> length (fraction_digits (format_f p (Finite s x))) = p
   \<and> (0 \<le> m \<and> m < 100 \<longrightarrow>
        flt (Finite False m) (float_of_small_int 100)
        \<and> length (fraction_digits (fst (quote_prices (Finite False m)))) = 4
        \<and> length (fraction_digits (snd (quote_prices (Finite False m)))) = 4)
   \<and> (100 \<le> m \<and> m * 4 < huge \<longrightarrow>
        \<not> flt (Finite False m) (float_of_small_int 100)
        \<and> length (fraction_digits (fst (quote_prices (Finite False m)))) = 2
        \<and> length (fraction_digits (snd (quote_prices (Finite False m)))) = 2)"
proof (intro conjI impI)
  show "length (fraction_digits (format_f p (Finite s x))) = p"
    by (rule fraction_digits_format_f)
next
  assume "flt mark (float_of_small_int 100)"
  then show "quote_prices mark = (format_f 4 (bid_price mark), format_f 4 (ask_price mark))"
    by (simp add: quote_prices_def)
next
  assume "\<not> flt mark (float_of_small_int 100)"
  then show "quote_prices mark = (format_f 2 (bid_price mark), format_f 2 (ask_price mark))"
    by (simp add: quote_prices_def)
next
  assume h: "0 \<le> m \<and> m < 100"
  then show "flt (Finite False m) (float_of_small_int 100)"
    by (simp add: float_of_small_int_def float_val_def)
  have "m * 4 < huge" using h by (simp add: huge_def)
  with h show "length (fraction_digits (fst (quote_prices (Finite False m)))) = 4"
    and "length (fraction_digits (snd (quote_prices (Finite False m)))) = 4"
    using quote_digits [of m] by simp_all
next
  assume h: "100 \<le> m \<and> m * 4 < huge"
  then show "\<not> flt (Finite False m) (float_of_small_int 100)"
    by (simp add: float_of_small_int_def float_val_def)
  from h show "length (fraction_digits (fst (quote_prices (Finite False m)))) = 2"
    and "length (fraction_digits (snd (quote_prices (Finite False m)))) = 2"
    using quote_digits [of m] by simp_all
qed

lemma double_999999:
  "round_float False (999999 / 10000) = Finite False (3518433690445991 / 2 ^ 45)"
proof -
  have "round_float False (999999 / 10000) = Finite False (of_int 7036867380891982 * 2 powi (- 46))"
    by (rule round_float_cert [where e = 6]) (simp_all add: huge_def)
  then show ?thesis by simp
qed

theorem precision_selection_witness:
  "round_float False (999999 / 10000) = Finite False (3518433690445991 / 2 ^ 45)
   \<and> flt (Finite False (3518433690445991 / 2 ^ 45)) (float_of_small_int 100)
   \<and> length (fraction_digits (fst (quote_prices (Finite False (3518433690445991 / 2 ^ 45))))) = 4
   \<and> length (fraction_digits (snd (quote_prices (Finite False (3518433690445991 / 2 ^ 45))))) = 4
   \<and> \<not> flt (Finite False 100) (float_of_small_int 100)
   \<and> length (fraction_digits (fst (quote_prices (Finite False 100)))) = 2
   \<and> length (fraction_digits (snd (quote_prices (Finite False 100)))) = 2
   \<and> quote_prices (Finite False 30000) = (''29976.00'', ''30024.00'')
   \<and> quote_prices (Finite False (3518433690445991 / 2 ^ 45))
     = (format_f 4 (bid_price (Finite False (3518433690445991 / 2 ^ 45))),
        format_f 4 (ask_price (Finite False (3518433690445991 / 2 ^ 45))))"
proof -
  have a: "(0::rat) \<le> 3518433690445991 / 2 ^ 45 \<and> (3518433690445991::rat) / 2 ^ 45 < 100"
    by simp
  have b: "(100::rat) \<le> 100 \<and> (100::rat) * 4 < huge" by (simp add: huge_def)
  have c: "\<not> flt (Finite False 30000) (float_of_small_int 100)"
    by (simp add: float_of_small_int_def float_val_def)
  from precision_selection [of "Finite False 30000" 0 False 0 0] c
  have "quote_prices (Finite False 30000)
          = (format_f 2 (bid_price (Finite False 30000)), format_f 2 (ask_price (Finite False 30000)))"
    by blast
  then have d: "quote_prices (Finite False 30000) = (''29976.00'', ''30024.00'')"
    by (simp only: bid_30000 ask_30000 format_29976 format_30024)
  have lt: "flt (Finite False (3518433690445991 / 2 ^ 45)) (float_of_small_int 100)"
    by (simp add: float_of_small_int_def float_val_def)
  from precision_selection [of "Finite False (3518433690445991 / 2 ^ 45)" 0 False 0 0] lt
  have e: "quote_prices (Finite False (3518433690445991 / 2 ^ 45))
     = (format_f 4 (bid_price (Finite False (3518433690445991 / 2 ^ 45))),
        format_f 4 (ask_price (Finite False (3518433690445991 / 2 ^ 45))))"
    by blast
  have f: "round_float False (999999 / 10000) = Finite False (3518433690445991 / 2 ^ 45)
   \<and> flt (Finite False (3518433690445991 / 2 ^ 45)) (float_of_small_int 100)
   \<and> length (fraction_digits (fst (quote_prices (Finite False (3518433690445991 / 2 ^ 45))))) = 4
   \<and> length (fraction_digits (snd (quote_prices (Finite False (3518433690445991 / 2 ^ 45))))) = 4
   \<and> \<not> flt (Finite False 100) (float_of_small_int 100)
   \<and> length (fraction_digits (fst (quote_prices (Finite False 100)))) = 2
   \<and> length (fraction_digits (snd (quote_prices (Finite False 100)))) = 2"
    using precision_selection [of NaN 0 False 0 "3518433690445991 / 2 ^ 45"]
      precision_selection [of NaN 0 False 0 100] a b double_999999
    by simp
  from f d e show ?thesis by (intro conjI) blast+
qed

section \<open>Control flow, step by step\<close>

lemma ret_apply: "ret a tr = (Inr a, tr)"
  by (simp add: ret_def)

lemma throw_apply: "throw e tr = (Inl e, tr)"
  by (simp add: throw_def)

lemma log_apply: "log l m tr = (Inr (), tr @ [Log l m])"
  by (simp add: log_def)

lemma print_apply: "print s tr = (Inr (), tr @ [Print s])"
  by (simp add: print_def)

lemma call_apply: "call f ev tr = (f tr, tr @ [ev])"
  by (simp add: call_def)

lemma and_then_apply:
  "and_then p f tr = (case p tr of (Inl e, tr') \<Rightarrow> (Inl e, tr') | (Inr a, tr') \<Rightarrow> f a tr')"
  by (simp add: and_then_def)

lemma seq_apply:
  "seq p q tr = (case p tr of (Inl e, tr') \<Rightarrow> (Inl e, tr') | (Inr a, tr') \<Rightarrow> q tr')"
  by (simp add: seq_def and_then_def)

lemma try_except_apply:
  "try_except p h tr = (case p tr of (Inl (Exception msg), tr') \<Rightarrow> h msg tr' | r \<Rightarrow> r)"
  by (simp add: try_except_def)

lemma try_except_all_apply:
  "try_except_all p h tr = (case p tr of (Inl e, tr') \<Rightarrow> h tr' | r \<Rightarrow> r)"
  by (simp add: try_except_all_def)

lemma lift_apply:
  "lift r tr = (case r of Inl msg \<Rightarrow> (Inl (Exception msg), tr) | Inr a \<Rightarrow> (Inr a, tr))"
  by (simp add: lift_def ret_def throw_def split: sum.splits)

lemmas prog_simps = ret_apply throw_apply log_apply print_apply call_apply and_then_apply seq_apply
  try_except_apply try_except_all_apply lift_apply

lemma cancel_calls_append [simp]: "cancel_calls (xs @ ys) = cancel_calls xs @ cancel_calls ys"
  by (simp add: cancel_calls_def)

lemma placed_orders_append [simp]: "placed_orders (xs @ ys) = placed_orders xs @ placed_orders ys"
  by (simp add: placed_orders_def)

lemma sweeps_append [simp]: "sweeps (xs @ ys) = sweeps xs + sweeps ys"
  by (induction xs) (simp_all add: sweeps_def)

lemma cancel_calls_simps [simp]:
  "cancel_calls [] = []"
  "cancel_calls (Cancel_orders ids # tr) = ids # cancel_calls tr"
  "cancel_calls (Log l m # tr) = cancel_calls tr"
  "cancel_calls (Query_open_orders s # tr) = cancel_calls tr"
  "cancel_calls (Query_positions s # tr) = cancel_calls tr"
  "cancel_calls (Query_symbol_price s # tr) = cancel_calls tr"
  "cancel_calls (Place_order r # tr) = cancel_calls tr"
  "cancel_calls (Sleep n # tr) = cancel_calls tr"
  "cancel_calls (Input s # tr) = cancel_calls tr"
  "cancel_calls (Print s # tr) = cancel_calls tr"
  "cancel_calls (Get_auth_context s # tr) = cancel_calls tr"
  by (simp_all add: cancel_calls_def)

lemma placed_orders_simps [simp]:
  "placed_orders [] = []"
  "placed_orders (Place_order r # tr) = r # placed_orders tr"
  "placed_orders (Log l m # tr) = placed_orders tr"
  "placed_orders (Query_open_orders s # tr) = placed_orders tr"
  "placed_orders (Query_positions s # tr) = placed_orders tr"
  "placed_orders (Query_symbol_price s # tr) = placed_orders tr"
  "placed_orders (Cancel_orders ids # tr) = placed_orders tr"
  "placed_orders (Sleep n # tr) = placed_orders tr"
  "placed_orders (Input s # tr) = placed_orders tr"
  "placed_orders (Print s # tr) = placed_orders tr"
  "placed_orders (Get_auth_context s # tr) = placed_orders tr"
  by (simp_all add: placed_orders_def)

lemma sweeps_simps [simp]:
  "sweeps [] = 0"
  "sweeps (Log INFO SHUTDOWN_SEQUENCE # tr) = Suc (sweeps tr)"
  "m \<noteq> SHUTDOWN_SEQUENCE \<Longrightarrow> sweeps (Log l m # tr) = sweeps tr"
  "sweeps (Cancel_orders ids # tr) = sweeps tr"
  "sweeps (Query_open_orders s # tr) = sweeps tr"
  "sweeps (Query_positions s # tr) = sweeps tr"
  "sweeps (Query_symbol_price s # tr) = sweeps tr"
  "sweeps (Place_order r # tr) = sweeps tr"
  "sweeps (Sleep n # tr) = sweeps tr"
  "sweeps (Input s # tr) = sweeps tr"
  "sweeps (Print s # tr) = sweeps tr"
  "sweeps (Get_auth_context s # tr) = sweeps tr"
  by (simp_all add: sweeps_def)

section \<open>Step 3: cancelling the open orders\<close>

lemma ids_of_map_Some [simp]: "ids_of (map Some ids) = Inr ids"
  by (induction ids) simp_all

lemma cancel_one_by_one_no_exception:
  "fst (cancel_one_by_one w ids tr) \<noteq> Inl (Exception msg)"
  by (induction ids arbitrary: tr)
     (auto simp: prog_simps split: prod.splits sum.splits exn.splits)

lemma cancel_one_by_one_prefix: "prefix tr (snd (cancel_one_by_one w ids tr))"
  by (induction ids arbitrary: tr)
     (auto simp: prog_simps split: prod.splits sum.splits exn.splits dest: append_prefixD)

lemma cancel_one_by_one_all:
  assumes "\<forall>ids h. cancel_orders w ids h \<noteq> Inl KeyboardInterrupt"
  shows "fst (cancel_one_by_one w ids tr) = Inr ()
       \<and> cancel_calls (snd (cancel_one_by_one w ids tr))
           = cancel_calls tr @ map (\<lambda>oid. [oid]) ids"
  using assms
  by (induction ids arbitrary: tr)
     (auto simp: prog_simps split: prod.splits sum.splits exn.splits)

lemma cancel_one_by_one_Inr:
  assumes "\<forall>ids h. cancel_orders w ids h \<noteq> Inl KeyboardInterrupt"
    and "cancel_one_by_one w ids tr = (r, tr')"
  shows "r = Inr ()"
  using cancel_one_by_one_all [OF assms(1), of ids tr] assms(2) by simp

lemma cancel_one_by_one_not_Exception:
  "cancel_one_by_one w ids tr = (Inl (Exception msg), tr') \<Longrightarrow> False"
  using cancel_one_by_one_no_exception [of w ids tr msg] by simp

lemma cancel_one_by_one_logs_failure:
  assumes "\<forall>ids h. cancel_orders w ids h \<noteq> Inl KeyboardInterrupt"
    and "oid \<in> set ids" and "\<forall>h. cancel_orders w [oid] h = Inl (Exception m)"
  shows "Log ERROR (FAILED_to_cancel_order oid m) \<in> set (snd (cancel_one_by_one w ids tr))"
  using assms
proof (induction ids arbitrary: tr)
  case Nil
  then show ?case by simp
next
  case (Cons a ids)
  show ?case
  proof (cases "a = oid")
    case True
    have "prefix (tr @ [Cancel_orders [oid], Log ERROR (FAILED_to_cancel_order oid m)])
            (snd (cancel_one_by_one w ids
               (tr @ [Cancel_orders [oid], Log ERROR (FAILED_to_cancel_order oid m)])))"
      by (rule cancel_one_by_one_prefix)
    then have "Log ERROR (FAILED_to_cancel_order oid m)
        \<in> set (snd (cancel_one_by_one w ids
               (tr @ [Cancel_orders [oid], Log ERROR (FAILED_to_cancel_order oid m)])))"
      by (auto dest: set_mono_prefix)
    then show ?thesis using True Cons.prems(3) by (simp add: prog_simps)
  next
    case False
    then have "oid \<in> set ids" using Cons.prems(2) by simp
    then have "\<And>tr. Log ERROR (FAILED_to_cancel_order oid m)
        \<in> set (snd (cancel_one_by_one w ids tr))"
      using Cons.IH Cons.prems(1,3) by blast
    then show ?thesis using Cons.prems(1)
      by (auto simp: prog_simps split: prod.splits sum.splits exn.splits)
  qed
qed

lemma cancel_open_orders_no_exception:
  "fst (cancel_open_orders w current_symbol tr) \<noteq> Inl (Exception msg)"
  by (auto simp: cancel_open_orders_def prog_simps split: prod.splits sum.splits exn.splits
      dest: cancel_one_by_one_not_Exception)

lemma cancel_open_orders_returns:
  assumes "\<forall>ids h. cancel_orders w ids h \<noteq> Inl KeyboardInterrupt"
    and "query_open_orders w current_symbol tr \<noteq> Inl KeyboardInterrupt"
  shows "fst (cancel_open_orders w current_symbol tr) = Inr ()"
  using assms
  by (auto simp: cancel_open_orders_def prog_simps split: prod.splits sum.splits exn.splits
      dest: cancel_one_by_one_Inr [OF assms(1)])

lemma cancel_open_orders_fallback:
  assumes noint: "\<forall>ids h. cancel_orders w ids h \<noteq> Inl KeyboardInterrupt"
    and q: "query_open_orders w current_symbol tr = Inr (map Some ids)" and ne: "ids \<noteq> []"
    and batch: "cancel_orders w ids
        (tr @ [Query_open_orders current_symbol, Log INFO (Found_open_orders (length ids))])
        = Inl (Exception m)"
  shows "snd (cancel_open_orders w current_symbol tr)
         = snd (cancel_one_by_one w ids
             (tr @ [Query_open_orders current_symbol, Log INFO (Found_open_orders (length ids)),
                    Cancel_orders ids, Log WARNING (Batch_cancel_failed m)]))"
  using assms
  by (auto simp: cancel_open_orders_def prog_simps split: prod.splits sum.splits exn.splits
      dest: cancel_one_by_one_not_Exception)

text \<open>
  C6. The cancel pass of a tick never raises an \<^verbatim>\<open>Exception\<close> to its caller. When the batch
  cancel of the open orders fails, every id is cancelled on its own, in order, whatever
  the single cancels answer; a single cancel that fails is logged with its id and message.
  (\<^verbatim>\<open>KeyboardInterrupt\<close>, the user's interrupt, is no failure of the exchange and is left out.)
\<close>

theorem cancel_open_orders_isolated:
  "fst (cancel_open_orders w current_symbol tr) \<noteq> Inl (Exception msg)
   \<and> ((\<forall>ids h. cancel_orders w ids h \<noteq> Inl KeyboardInterrupt)
        \<and> query_open_orders w current_symbol tr \<noteq> Inl KeyboardInterrupt
      \<longrightarrow> fst (cancel_open_orders w current_symbol tr) = Inr ())
   \<and> ((\<forall>ids h. cancel_orders w ids h \<noteq> Inl KeyboardInterrupt)
        \<and> query_open_orders w current_symbol tr = Inr (map Some ids) \<and> ids \<noteq> []
        \<and> cancel_orders w ids
            (tr @ [Query_open_orders current_symbol, Log INFO (Found_open_orders (length ids))])
            = Inl (Exception m)
      \<longrightarrow> cancel_calls (snd (cancel_open_orders w current_symbol tr))
            = cancel_calls tr @ ids # map (\<lambda>oid. [oid]) ids
          \<and> Log WARNING (Batch_cancel_failed m) \<in> set (snd (cancel_open_orders w current_symbol tr))
          \<and> (\<forall>oid m'. oid \<in> set ids \<and> (\<forall>h. cancel_orders w [oid] h = Inl (Exception m'))
                \<longrightarrow> Log ERROR (FAILED_to_cancel_order oid m')
                      \<in> set (snd (cancel_open_orders w current_symbol tr))))"
proof (intro conjI impI allI)
  show "fst (cancel_open_orders w current_symbol tr) \<noteq> Inl (Exception msg)"
    by (rule cancel_open_orders_no_exception)
next
  assume "(\<forall>ids h. cancel_orders w ids h \<noteq> Inl KeyboardInterrupt)
        \<and> query_open_orders w current_symbol tr \<noteq> Inl KeyboardInterrupt"
  then show "fst (cancel_open_orders w current_symbol tr) = Inr ()"
    using cancel_open_orders_returns by blast
next
  assume h: "(\<forall>ids h. cancel_orders w ids h \<noteq> Inl KeyboardInterrupt)
        \<and> query_open_orders w current_symbol tr = Inr (map Some ids) \<and> ids \<noteq> []
        \<and> cancel_orders w ids
            (tr @ [Query_open_orders current_symbol, Log INFO (Found_open_orders (length ids))])
            = Inl (Exception m)"
  define tr1 where "tr1 = tr @ [Query_open_orders current_symbol,
     Log INFO (Found_open_orders (length ids)), Cancel_orders ids,
     Log WARNING (Batch_cancel_failed m)]"
  have eq: "snd (cancel_open_orders w current_symbol tr) = snd (cancel_one_by_one w ids tr1)"
    unfolding tr1_def using h by (intro cancel_open_orders_fallback) blast+
  have noint: "\<forall>ids h. cancel_orders w ids h \<noteq> Inl KeyboardInterrupt" using h by blast
  show "cancel_calls (snd (cancel_open_orders w current_symbol tr))
          = cancel_calls tr @ ids # map (\<lambda>oid. [oid]) ids"
    using cancel_one_by_one_all [OF noint, of ids tr1] by (simp add: eq) (simp add: tr1_def)
  have "prefix tr1 (snd (cancel_one_by_one w ids tr1))" by (rule cancel_one_by_one_prefix)
  then have "set tr1 \<subseteq> set (snd (cancel_one_by_one w ids tr1))" by (rule set_mono_prefix)
  then show "Log WARNING (Batch_cancel_failed m) \<in> set (snd (cancel_open_orders w current_symbol tr))"
    unfolding eq by (auto simp: tr1_def)
  fix oid m'
  assume "oid \<in> set ids \<and> (\<forall>h. cancel_orders w [oid] h = Inl (Exception m'))"
  then show "Log ERROR (FAILED_to_cancel_order oid m')
      \<in> set (snd (cancel_open_orders w current_symbol tr))"
    unfolding eq using cancel_one_by_one_logs_failure [OF noint, of oid ids m' tr1] by blast
qed

lemma cancel_flaky_trace:
  "cancel_open_orders cancel_flaky_world ''BTC-USD'' [] =
     (Inr (),
      [Query_open_orders ''BTC-USD'', Log INFO (Found_open_orders 3),
       Cancel_orders [''a'', ''b'', ''c''], Log WARNING (Batch_cancel_failed ''timeout''),
       Cancel_orders [''a''], Log INFO (Cancelled_order ''a''),
       Cancel_orders [''b''], Log ERROR (FAILED_to_cancel_order ''b'' ''timeout''),
       Cancel_orders [''c''], Log INFO (Cancelled_order ''c'')])"
  by (simp add: cancel_open_orders_def cancel_flaky_world_def quiet_world_def prog_simps)

theorem cancel_open_orders_isolated_witness:
  "fst (cancel_open_orders cancel_flaky_world ''BTC-USD'' []) = Inr ()
   \<and> cancel_calls (snd (cancel_open_orders cancel_flaky_world ''BTC-USD'' []))
       = [[''a'', ''b'', ''c''], [''a''], [''b''], [''c'']]
   \<and> Log WARNING (Batch_cancel_failed ''timeout'')
       \<in> set (snd (cancel_open_orders cancel_flaky_world ''BTC-USD'' []))
   \<and> Log ERROR (FAILED_to_cancel_order ''b'' ''timeout'')
       \<in> set (snd (cancel_open_orders cancel_flaky_world ''BTC-USD'' []))"
proof -
  have a: "\<forall>ids h. cancel_orders cancel_flaky_world ids h \<noteq> Inl KeyboardInterrupt"
    by (simp add: cancel_flaky_world_def quiet_world_def)
  have b: "query_open_orders cancel_flaky_world ''BTC-USD'' [] = Inr (map Some [''a'', ''b'', ''c''])"
    by (simp add: cancel_flaky_world_def quiet_world_def)
  have c: "cancel_orders cancel_flaky_world [''a'', ''b'', ''c'']
      ([] @ [Query_open_orders ''BTC-USD'', Log INFO (Found_open_orders (length [''a'', ''b'', ''c'']))])
      = Inl (Exception ''timeout'')"
    by (simp add: cancel_flaky_world_def quiet_world_def)
  have d: "\<forall>h. cancel_orders cancel_flaky_world [''b''] h = Inl (Exception ''timeout'')"
    by (simp add: cancel_flaky_world_def quiet_world_def)
  from cancel_open_orders_isolated
    [of cancel_flaky_world "''BTC-USD''" "[]" "''x''" "[''a'', ''b'', ''c'']" "''timeout''"]
    a b c d
  show ?thesis by (simp del: map_eq_Cons_conv)
qed

section \<open>Step 4: closing positions\<close>


lemma flt_asym: "flt x y \<Longrightarrow> \<not> flt y x"
  by (cases x; cases y) (auto simp: float_val_def split: if_splits)

lemma close_positions_only:
  "\<exists>new. placed_orders (snd (close_positions w current_symbol ps tr)) = placed_orders tr @ new
      \<and> (\<forall>r\<in>set new. \<exists>p\<in>set ps. \<exists>q. pos_symbol p = Some current_symbol \<and> pos_qty p = Inr q
              \<and> fne q (float_of_small_int 0) \<and> r = close_order current_symbol q)"
proof (induction ps arbitrary: tr)
  case Nil
  then show ?case by (simp add: prog_simps)
next
  case (Cons p ps)
  have step: "\<And>tr'. \<exists>new. placed_orders (snd (close_positions w current_symbol ps tr'))
        = placed_orders tr' @ new
      \<and> (\<forall>r\<in>set new. \<exists>p'\<in>set (p # ps). \<exists>q. pos_symbol p' = Some current_symbol
              \<and> pos_qty p' = Inr q \<and> fne q (float_of_small_int 0)
              \<and> r = close_order current_symbol q)"
    using Cons.IH by fastforce
  show ?case
  proof (cases "pos_symbol p = Some current_symbol")
    case False
    then show ?thesis using step [of tr] by (simp add: prog_simps)
  next
    case True
    show ?thesis
    proof (cases "pos_qty p")
      case (Inl msg)
      then show ?thesis using True by (simp add: prog_simps)
    next
      case (Inr q)
      show ?thesis
      proof (cases "fne q (float_of_small_int 0)")
        case False
        then show ?thesis using True Inr step [of tr] by (simp add: prog_simps)
      next
        case ne: True
        define tr1 where "tr1 = tr @ [Log WARNING (OPEN_POSITION_DETECTED q current_symbol),
          Log INFO Attempting_CLOSE_via_Market_Order]"
        define c where "c = close_order current_symbol q"
        have here: "\<exists>p'\<in>set (p # ps). \<exists>q'. pos_symbol p' = Some current_symbol
              \<and> pos_qty p' = Inr q' \<and> fne q' (float_of_small_int 0)
              \<and> c = close_order current_symbol q'"
          using True Inr ne by (auto simp: c_def)
        show ?thesis
        proof (cases "place_order w c tr1")
          case (Inr u)
          obtain new where new: "placed_orders (snd (close_positions w current_symbol ps
                (tr1 @ [Place_order c, Log INFO POSITION_CLOSE_ORDER_SENT])))
              = placed_orders (tr1 @ [Place_order c, Log INFO POSITION_CLOSE_ORDER_SENT]) @ new"
            and all: "\<forall>r\<in>set new. \<exists>p'\<in>set (p # ps). \<exists>q. pos_symbol p' = Some current_symbol
              \<and> pos_qty p' = Inr q \<and> fne q (float_of_small_int 0)
              \<and> r = close_order current_symbol q"
            using step by blast
          have "placed_orders (snd (close_positions w current_symbol (p # ps) tr))
              = placed_orders tr @ (c # new)"
            using True \<open>pos_qty p = Inr q\<close> ne Inr new
            by (simp add: prog_simps tr1_def c_def)
          then show ?thesis using all here by (intro exI [of _ "c # new"]) simp
        next
          case (Inl e)
          show ?thesis
          proof (cases e)
            case KeyboardInterrupt
            then have "placed_orders (snd (close_positions w current_symbol (p # ps) tr))
              = placed_orders tr @ [c]"
              using True \<open>pos_qty p = Inr q\<close> ne Inl by (simp add: prog_simps tr1_def c_def)
            then show ?thesis using here by (intro exI [of _ "[c]"]) simp
          next
            case (Exception msg)
            obtain new where new: "placed_orders (snd (close_positions w current_symbol ps
                (tr1 @ [Place_order c, Log ERROR (FAILED_to_update_position_close_order msg)])))
              = placed_orders (tr1 @ [Place_order c,
                  Log ERROR (FAILED_to_update_position_close_order msg)]) @ new"
              and all: "\<forall>r\<in>set new. \<exists>p'\<in>set (p # ps). \<exists>q. pos_symbol p' = Some current_symbol
                \<and> pos_qty p' = Inr q \<and> fne q (float_of_small_int 0)
                \<and> r = close_order current_symbol q"
              using step by blast
            have "placed_orders (snd (close_positions w current_symbol (p # ps) tr))
              = placed_orders tr @ (c # new)"
              using True \<open>pos_qty p = Inr q\<close> ne Inl Exception new
              by (simp add: prog_simps tr1_def c_def)
            then show ?thesis using all here by (intro exI [of _ "c # new"]) simp
          qed
        qed
      qed
    qed
  qed
qed

lemma close_positions_all:
  assumes "\<forall>r h. place_order w r h \<noteq> Inl KeyboardInterrupt"
    and "\<forall>p\<in>set ps. pos_symbol p = Some current_symbol \<longrightarrow> (\<exists>q. pos_qty p = Inr q)"
  shows "fst (close_positions w current_symbol ps tr) = Inr ()
       \<and> placed_orders (snd (close_positions w current_symbol ps tr))
           = placed_orders tr @
             map (\<lambda>p. close_order current_symbol (projr (pos_qty p)))
               (filter (\<lambda>p. pos_symbol p = Some current_symbol
                          \<and> fne (projr (pos_qty p)) (float_of_small_int 0)) ps)"
  using assms
  by (induction ps arbitrary: tr)
     (auto simp: prog_simps split: prod.splits sum.splits exn.splits)

lemma check_positions_only:
  "\<exists>new. placed_orders (snd (check_positions w current_symbol tr)) = placed_orders tr @ new
      \<and> (\<forall>r\<in>set new. \<exists>ps. query_positions w current_symbol tr = Inr ps
            \<and> (\<exists>p\<in>set ps. \<exists>q. pos_symbol p = Some current_symbol \<and> pos_qty p = Inr q
                  \<and> fne q (float_of_small_int 0) \<and> r = close_order current_symbol q))"
proof (cases "query_positions w current_symbol tr")
  case (Inl e)
  then have "placed_orders (snd (check_positions w current_symbol tr)) = placed_orders tr @ []"
    by (cases e) (simp_all add: check_positions_def prog_simps)
  then show ?thesis by (intro exI [of _ "[]"]) simp
next
  case (Inr ps)
  obtain new where new: "placed_orders (snd (close_positions w current_symbol ps
        (tr @ [Query_positions current_symbol])))
      = placed_orders (tr @ [Query_positions current_symbol]) @ new"
    and all: "\<forall>r\<in>set new. \<exists>p\<in>set ps. \<exists>q. pos_symbol p = Some current_symbol
        \<and> pos_qty p = Inr q \<and> fne q (float_of_small_int 0) \<and> r = close_order current_symbol q"
    using close_positions_only by blast
  have "placed_orders (snd (check_positions w current_symbol tr)) = placed_orders tr @ new"
    using Inr new
    by (auto simp: check_positions_def prog_simps split: prod.splits sum.splits exn.splits)
  then show ?thesis using all Inr by (intro exI [of _ new]) simp
qed

lemma check_positions_all:
  assumes "query_positions w current_symbol tr = Inr ps"
    and "\<forall>r h. place_order w r h \<noteq> Inl KeyboardInterrupt"
    and "\<forall>p\<in>set ps. pos_symbol p = Some current_symbol \<longrightarrow> (\<exists>q. pos_qty p = Inr q)"
  shows "fst (check_positions w current_symbol tr) = Inr ()
       \<and> placed_orders (snd (check_positions w current_symbol tr))
           = placed_orders tr @
             map (\<lambda>p. close_order current_symbol (projr (pos_qty p)))
               (filter (\<lambda>p. pos_symbol p = Some current_symbol
                          \<and> fne (projr (pos_qty p)) (float_of_small_int 0)) ps)"
  using assms(1)
    close_positions_all [OF assms(2,3), of "tr @ [Query_positions current_symbol]"]
  by (auto simp: check_positions_def prog_simps split: prod.splits sum.splits exn.splits)

lemma check_positions_no_exception:
  "fst (check_positions w current_symbol tr) \<noteq> Inl (Exception msg)"
  by (auto simp: check_positions_def prog_simps split: prod.splits sum.splits exn.splits)

lemma close_positions_prefix:
  "prefix (placed_orders (snd (close_positions w current_symbol ps tr)))
     (placed_orders tr @
      map (\<lambda>p. close_order current_symbol (projr (pos_qty p)))
        (filter (\<lambda>p. pos_symbol p = Some current_symbol
                   \<and> fne (projr (pos_qty p)) (float_of_small_int 0))
           (takeWhile (\<lambda>p. pos_symbol p = Some current_symbol \<longrightarrow> \<not> isl (pos_qty p)) ps)))"
proof (induction ps arbitrary: tr)
  case Nil
  then show ?case by (simp add: prog_simps)
next
  case (Cons p ps)
  show ?case
    using Cons.IH [of tr]
      Cons.IH [of "tr @ [Log WARNING (OPEN_POSITION_DETECTED (projr (pos_qty p)) current_symbol),
          Log INFO Attempting_CLOSE_via_Market_Order,
          Place_order (close_order current_symbol (projr (pos_qty p))),
          Log INFO POSITION_CLOSE_ORDER_SENT]"]
      Cons.IH [of "tr @ [Log WARNING (OPEN_POSITION_DETECTED (projr (pos_qty p)) current_symbol),
          Log INFO Attempting_CLOSE_via_Market_Order,
          Place_order (close_order current_symbol (projr (pos_qty p))),
          Log ERROR (FAILED_to_update_position_close_order msg)]" for msg]
    by (cases "pos_qty p")
       (auto simp: prog_simps split: prod.splits sum.splits exn.splits)
qed

lemma close_positions_upto:
  assumes "\<forall>r h. place_order w r h \<noteq> Inl KeyboardInterrupt"
  shows "fst (close_positions w current_symbol ps tr) \<noteq> Inl KeyboardInterrupt
       \<and> placed_orders (snd (close_positions w current_symbol ps tr))
           = placed_orders tr @
             map (\<lambda>p. close_order current_symbol (projr (pos_qty p)))
               (filter (\<lambda>p. pos_symbol p = Some current_symbol
                          \<and> fne (projr (pos_qty p)) (float_of_small_int 0))
                  (takeWhile (\<lambda>p. pos_symbol p = Some current_symbol \<longrightarrow> \<not> isl (pos_qty p))
                     ps))"
  using assms
proof (induction ps arbitrary: tr)
  case Nil
  then show ?case by (simp add: prog_simps)
next
  case (Cons p ps)
  show ?case
    using Cons.prems
      Cons.IH [OF Cons.prems, of tr]
      Cons.IH [OF Cons.prems,
        of "tr @ [Log WARNING (OPEN_POSITION_DETECTED (projr (pos_qty p)) current_symbol),
          Log INFO Attempting_CLOSE_via_Market_Order,
          Place_order (close_order current_symbol (projr (pos_qty p))),
          Log INFO POSITION_CLOSE_ORDER_SENT]"]
      Cons.IH [OF Cons.prems,
        of "tr @ [Log WARNING (OPEN_POSITION_DETECTED (projr (pos_qty p)) current_symbol),
          Log INFO Attempting_CLOSE_via_Market_Order,
          Place_order (close_order current_symbol (projr (pos_qty p))),
          Log ERROR (FAILED_to_update_position_close_order msg)]" for msg]
    by (cases "pos_qty p")
       (auto simp: prog_simps split: prod.splits sum.splits exn.splits)
qed

lemma check_positions_prefix:
  assumes "query_positions w current_symbol tr = Inr ps"
  shows "prefix (placed_orders (snd (check_positions w current_symbol tr)))
     (placed_orders tr @
      map (\<lambda>p. close_order current_symbol (projr (pos_qty p)))
        (filter (\<lambda>p. pos_symbol p = Some current_symbol
                   \<and> fne (projr (pos_qty p)) (float_of_small_int 0))
           (takeWhile (\<lambda>p. pos_symbol p = Some current_symbol \<longrightarrow> \<not> isl (pos_qty p)) ps)))"
  using assms
    close_positions_prefix [of w current_symbol ps "tr @ [Query_positions current_symbol]"]
  by (auto simp: check_positions_def prog_simps split: prod.splits sum.splits exn.splits)

lemma check_positions_upto:
  assumes "query_positions w current_symbol tr = Inr ps"
    and "\<forall>r h. place_order w r h \<noteq> Inl KeyboardInterrupt"
  shows "fst (check_positions w current_symbol tr) = Inr ()
       \<and> placed_orders (snd (check_positions w current_symbol tr))
           = placed_orders tr @
             map (\<lambda>p. close_order current_symbol (projr (pos_qty p)))
               (filter (\<lambda>p. pos_symbol p = Some current_symbol
                          \<and> fne (projr (pos_qty p)) (float_of_small_int 0))
                  (takeWhile (\<lambda>p. pos_symbol p = Some current_symbol \<longrightarrow> \<not> isl (pos_qty p))
                     ps))"
  using assms(1)
    close_positions_upto [OF assms(2), of current_symbol ps
      "tr @ [Query_positions current_symbol]"]
  by (auto simp: check_positions_def prog_simps split: prod.splits sum.splits exn.splits)

text \<open>
  C5, counterexample. The listing has two entries for the active symbol: the first with a
  quantity that \<^verbatim>\<open>float\<close> cannot read, the second with quantity 0.5. The \<^verbatim>\<open>ValueError\<close> of
  the first entry leaves the loop over the listing for the handler of the step: the second
  entry has \<^verbatim>\<open>qty != 0\<close> and no order is submitted for it.
\<close>

theorem flatten_position_orders_counterexample:
  "query_positions unreadable_position_world ''BTC-USD'' []
     = Inr [\<lparr>pos_symbol = Some ''BTC-USD'', pos_qty = Inl not_a_number\<rparr>,
            \<lparr>pos_symbol = Some ''BTC-USD'', pos_qty = Inr (Finite False (1 / 2))\<rparr>]
   \<and> fne (Finite False (1 / 2)) (float_of_small_int 0)
   \<and> check_positions unreadable_position_world ''BTC-USD'' []
     = (Inr (), [Query_positions ''BTC-USD'',
                 Log ERROR (CRITICAL_ERROR_in_Position_Check_step not_a_number)])
   \<and> placed_orders (snd (check_positions unreadable_position_world ''BTC-USD'' [])) = []"
proof -
  have a: "query_positions unreadable_position_world ''BTC-USD'' []
     = Inr [\<lparr>pos_symbol = Some ''BTC-USD'', pos_qty = Inl not_a_number\<rparr>,
            \<lparr>pos_symbol = Some ''BTC-USD'', pos_qty = Inr (Finite False (1 / 2))\<rparr>]"
    by (simp add: unreadable_position_world_def)
  have b: "fne (Finite False (1 / 2)) (float_of_small_int 0)"
    by (simp add: float_of_small_int_def float_val_def)
  have c: "check_positions unreadable_position_world ''BTC-USD'' []
     = (Inr (), [Query_positions ''BTC-USD'',
                 Log ERROR (CRITICAL_ERROR_in_Position_Check_step not_a_number)])"
    by (simp add: check_positions_def prog_simps a)
  have d: "placed_orders (snd (check_positions unreadable_position_world ''BTC-USD'' [])) = []"
    by (simp add: c)
  from a b c d show ?thesis by (intro conjI)
qed

text \<open>
  C5, amended. The position check places an order only for an entry of the listing that
  carries the active symbol and a quantity different from zero. The entries are read in
  order up to the first entry of the active symbol whose quantity \<^verbatim>\<open>float\<close> cannot read: the
  orders placed are always a first part of the close orders of the entries read that carry
  the active symbol and a quantity different from zero, and all of them, one for each such
  entry, in order, unless a \<^verbatim>\<open>KeyboardInterrupt\<close> ends the step; so, when every quantity of
  the active symbol can be read, one order for each entry of the listing with the active
  symbol and a quantity different from zero. The order is a reduce-only, immediate-or-cancel
  market order of size \<^verbatim>\<open>str(abs(qty))\<close>, a sell when \<^verbatim>\<open>qty > 0\<close> and a buy when \<^verbatim>\<open>qty < 0\<close>. A
  quantity of zero is not different from zero.
\<close>

theorem flatten_position_orders:
  "(\<exists>new. placed_orders (snd (check_positions w current_symbol tr)) = placed_orders tr @ new
      \<and> (\<forall>r\<in>set new. \<exists>ps. query_positions w current_symbol tr = Inr ps
            \<and> (\<exists>p\<in>set ps. \<exists>q. pos_symbol p = Some current_symbol \<and> pos_qty p = Inr q
                  \<and> fne q (float_of_small_int 0) \<and> r = close_order current_symbol q)))
   \<and> (query_positions w current_symbol tr = Inr ps
      \<longrightarrow> prefix (placed_orders (snd (check_positions w current_symbol tr)))
            (placed_orders tr @
             map (\<lambda>p. close_order current_symbol (projr (pos_qty p)))
               (filter (\<lambda>p. pos_symbol p = Some current_symbol
                          \<and> fne (projr (pos_qty p)) (float_of_small_int 0))
                  (takeWhile (\<lambda>p. pos_symbol p = Some current_symbol \<longrightarrow> \<not> isl (pos_qty p))
                     ps))))
   \<and> (query_positions w current_symbol tr = Inr ps
        \<and> (\<forall>r h. place_order w r h \<noteq> Inl KeyboardInterrupt)
      \<longrightarrow> fst (check_positions w current_symbol tr) = Inr ()
          \<and> placed_orders (snd (check_positions w current_symbol tr))
             = placed_orders tr @
               map (\<lambda>p. close_order current_symbol (projr (pos_qty p)))
                 (filter (\<lambda>p. pos_symbol p = Some current_symbol
                            \<and> fne (projr (pos_qty p)) (float_of_small_int 0))
                    (takeWhile (\<lambda>p. pos_symbol p = Some current_symbol \<longrightarrow> \<not> isl (pos_qty p))
                       ps)))
   \<and> (query_positions w current_symbol tr = Inr ps
        \<and> (\<forall>r h. place_order w r h \<noteq> Inl KeyboardInterrupt)
        \<and> (\<forall>p\<in>set ps. pos_symbol p = Some current_symbol \<longrightarrow> (\<exists>q. pos_qty p = Inr q))
      \<longrightarrow> fst (check_positions w current_symbol tr) = Inr ()
          \<and> placed_orders (snd (check_positions w current_symbol tr))
             = placed_orders tr @
               map (\<lambda>p. close_order current_symbol (projr (pos_qty p)))
                 (filter (\<lambda>p. pos_symbol p = Some current_symbol
                            \<and> fne (projr (pos_qty p)) (float_of_small_int 0)) ps))
   \<and> close_order current_symbol q =
       \<lparr>symbol = current_symbol,
        side = (if fgt q (float_of_small_int 0) then ''sell'' else ''buy''),
        order_type = ''market'', qty = Str_of (fabs q), price = None,
        time_in_force = ''ioc'', reduce_only = True\<rparr>
   \<and> (flt (float_of_small_int 0) q \<longrightarrow> side (close_order current_symbol q) = ''sell'')
   \<and> (flt q (float_of_small_int 0) \<longrightarrow> side (close_order current_symbol q) = ''buy'')
   \<and> \<not> fne (Finite s 0) (float_of_small_int 0)"
proof (intro conjI impI)
  show "\<exists>new. placed_orders (snd (check_positions w current_symbol tr)) = placed_orders tr @ new
      \<and> (\<forall>r\<in>set new. \<exists>ps. query_positions w current_symbol tr = Inr ps
            \<and> (\<exists>p\<in>set ps. \<exists>q. pos_symbol p = Some current_symbol \<and> pos_qty p = Inr q
                  \<and> fne q (float_of_small_int 0) \<and> r = close_order current_symbol q))"
    by (rule check_positions_only)
next
  assume "query_positions w current_symbol tr = Inr ps"
  then show "prefix (placed_orders (snd (check_positions w current_symbol tr)))
            (placed_orders tr @
             map (\<lambda>p. close_order current_symbol (projr (pos_qty p)))
               (filter (\<lambda>p. pos_symbol p = Some current_symbol
                          \<and> fne (projr (pos_qty p)) (float_of_small_int 0))
                  (takeWhile (\<lambda>p. pos_symbol p = Some current_symbol \<longrightarrow> \<not> isl (pos_qty p))
                     ps)))"
    by (rule check_positions_prefix)
next
  assume h: "query_positions w current_symbol tr = Inr ps
        \<and> (\<forall>r h. place_order w r h \<noteq> Inl KeyboardInterrupt)"
  then have a: "query_positions w current_symbol tr = Inr ps"
    and b: "\<forall>r h. place_order w r h \<noteq> Inl KeyboardInterrupt"
    by blast+
  from check_positions_upto [OF a b]
  show "fst (check_positions w current_symbol tr) = Inr ()"
    and "placed_orders (snd (check_positions w current_symbol tr))
             = placed_orders tr @
               map (\<lambda>p. close_order current_symbol (projr (pos_qty p)))
                 (filter (\<lambda>p. pos_symbol p = Some current_symbol
                            \<and> fne (projr (pos_qty p)) (float_of_small_int 0))
                    (takeWhile (\<lambda>p. pos_symbol p = Some current_symbol \<longrightarrow> \<not> isl (pos_qty p))
                       ps))"
    by blast+
next
  assume h: "query_positions w current_symbol tr = Inr ps
        \<and> (\<forall>r h. place_order w r h \<noteq> Inl KeyboardInterrupt)
        \<and> (\<forall>p\<in>set ps. pos_symbol p = Some current_symbol \<longrightarrow> (\<exists>q. pos_qty p = Inr q))"
  then have a: "query_positions w current_symbol tr = Inr ps"
    and b: "\<forall>r h. place_order w r h \<noteq> Inl KeyboardInterrupt"
    and c: "\<forall>p\<in>set ps. pos_symbol p = Some current_symbol \<longrightarrow> (\<exists>q. pos_qty p = Inr q)"
    by blast+
  from check_positions_all [OF a b c]
  show "fst (check_positions w current_symbol tr) = Inr ()"
    and "placed_orders (snd (check_positions w current_symbol tr))
             = placed_orders tr @
               map (\<lambda>p. close_order current_symbol (projr (pos_qty p)))
                 (filter (\<lambda>p. pos_symbol p = Some current_symbol
                            \<and> fne (projr (pos_qty p)) (float_of_small_int 0)) ps)"
    by blast+
next
  show "close_order current_symbol q =
       \<lparr>symbol = current_symbol,
        side = (if fgt q (float_of_small_int 0) then ''sell'' else ''buy''),
        order_type = ''market'', qty = Str_of (fabs q), price = None,
        time_in_force = ''ioc'', reduce_only = True\<rparr>"
    by (simp add: close_order_def)
next
  assume "flt (float_of_small_int 0) q"
  then have "fgt q (float_of_small_int 0)" unfolding fgt_def .
  then show "side (close_order current_symbol q) = ''sell''" by (simp add: close_order_def)
next
  assume "flt q (float_of_small_int 0)"
  then have "\<not> fgt q (float_of_small_int 0)" unfolding fgt_def by (rule flt_asym)
  then show "side (close_order current_symbol q) = ''buy''" by (simp add: close_order_def)
next
  show "\<not> fne (Finite s 0) (float_of_small_int 0)"
    by (simp add: float_of_small_int_def float_val_def)
qed

lemma double_001: "round_float True (1 / 100) = Finite True (5764607523034235 / 2 ^ 59)"
proof -
  have "round_float True (1 / 100) = Finite True (of_int 5764607523034235 * 2 powi (- 59))"
    by (rule round_float_cert [where e = "- 7"]) (simp_all add: huge_def)
  then show ?thesis by simp
qed

text \<open>
  On the listing with a short position of 0.01, another symbol, a flat entry and a long
  position of 0.25: a buy of 0.01, then a sell of 0.25, and nothing else. On the listing with
  the unreadable entry: nothing. On the listing with two long positions and an interrupt
  during the first close order: the first of the two close orders, and the interrupt goes on
  to the caller.
\<close>

theorem flatten_position_orders_witness:
  "fst (check_positions open_positions_world ''BTC-USD'' []) = Inr ()
   \<and> placed_orders (snd (check_positions open_positions_world ''BTC-USD'' []))
      = [\<lparr>symbol = ''BTC-USD'', side = ''buy'', order_type = ''market'',
          qty = Str_of (Finite False (5764607523034235 / 2 ^ 59)), price = None,
          time_in_force = ''ioc'', reduce_only = True\<rparr>,
         \<lparr>symbol = ''BTC-USD'', side = ''sell'', order_type = ''market'',
          qty = Str_of (Finite False (1 / 4)), price = None,
          time_in_force = ''ioc'', reduce_only = True\<rparr>]
   \<and> flt (Finite True (5764607523034235 / 2 ^ 59)) (float_of_small_int 0)
   \<and> side (close_order ''BTC-USD'' (Finite True (5764607523034235 / 2 ^ 59))) = ''buy''
   \<and> flt (float_of_small_int 0) (Finite False (1 / 4))
   \<and> side (close_order ''BTC-USD'' (Finite False (1 / 4))) = ''sell''
   \<and> fst (check_positions unreadable_position_world ''BTC-USD'' []) = Inr ()
   \<and> placed_orders (snd (check_positions unreadable_position_world ''BTC-USD'' [])) = []
   \<and> prefix (placed_orders (snd (check_positions interrupted_close_world ''BTC-USD'' [])))
        [close_order ''BTC-USD'' (Finite False (1 / 4)),
         close_order ''BTC-USD'' (Finite False (1 / 2))]
   \<and> check_positions interrupted_close_world ''BTC-USD'' []
      = (Inl KeyboardInterrupt,
         [Query_positions ''BTC-USD'',
          Log WARNING (OPEN_POSITION_DETECTED (Finite False (1 / 4)) ''BTC-USD''),
          Log INFO Attempting_CLOSE_via_Market_Order,
          Place_order (close_order ''BTC-USD'' (Finite False (1 / 4)))])"
proof -
  define ps where "ps =
     [\<lparr>pos_symbol = Some ''BTC-USD'', pos_qty = Inr (Finite True (5764607523034235 / 2 ^ 59))\<rparr>,
      \<lparr>pos_symbol = Some ''ETH-USD'', pos_qty = Inr (Finite False 5)\<rparr>,
      \<lparr>pos_symbol = Some ''BTC-USD'', pos_qty = Inr (Finite False 0)\<rparr>,
      \<lparr>pos_symbol = Some ''BTC-USD'', pos_qty = Inr (Finite False (1 / 4))\<rparr>]"
  define us where "us =
     [\<lparr>pos_symbol = Some ''BTC-USD'', pos_qty = Inl not_a_number\<rparr>,
      \<lparr>pos_symbol = Some ''BTC-USD'', pos_qty = Inr (Finite False (1 / 2))\<rparr>]"
  have a: "query_positions open_positions_world ''BTC-USD'' [] = Inr ps"
    by (simp only: open_positions_world_def double_001 ps_def) simp
  have b: "\<forall>r h. place_order open_positions_world r h \<noteq> Inl KeyboardInterrupt"
    by (simp add: open_positions_world_def quiet_world_def)
  have c: "\<forall>p\<in>set ps. pos_symbol p = Some ''BTC-USD'' \<longrightarrow> (\<exists>q. pos_qty p = Inr q)"
    by (simp add: ps_def)
  have a': "query_positions unreadable_position_world ''BTC-USD'' [] = Inr us"
    by (simp add: unreadable_position_world_def us_def)
  have b': "\<forall>r h. place_order unreadable_position_world r h \<noteq> Inl KeyboardInterrupt"
    by (simp add: unreadable_position_world_def quiet_world_def)
  have neg: "flt (Finite True (5764607523034235 / 2 ^ 59)) (float_of_small_int 0)"
    by (simp add: float_of_small_int_def float_val_def)
  have pos: "flt (float_of_small_int 0) (Finite False (1 / 4))"
    by (simp add: float_of_small_int_def float_val_def)
  note t1 = flatten_position_orders
    [of open_positions_world "''BTC-USD''" "[]" ps "Finite True (5764607523034235 / 2 ^ 59)" False]
  note t2 = flatten_position_orders
    [of open_positions_world "''BTC-USD''" "[]" ps "Finite False (1 / 4)" False]
  note t3 = flatten_position_orders
    [of unreadable_position_world "''BTC-USD''" "[]" us "Finite False (1 / 4)" False]
  from t1 a b c
  have "fst (check_positions open_positions_world ''BTC-USD'' []) = Inr ()
      \<and> placed_orders (snd (check_positions open_positions_world ''BTC-USD'' []))
         = placed_orders [] @
           map (\<lambda>p. close_order ''BTC-USD'' (projr (pos_qty p)))
             (filter (\<lambda>p. pos_symbol p = Some ''BTC-USD''
                        \<and> fne (projr (pos_qty p)) (float_of_small_int 0)) ps)"
    by blast
  then have 1: "fst (check_positions open_positions_world ''BTC-USD'' []) = Inr ()
      \<and> placed_orders (snd (check_positions open_positions_world ''BTC-USD'' []))
         = [\<lparr>symbol = ''BTC-USD'', side = ''buy'', order_type = ''market'',
             qty = Str_of (Finite False (5764607523034235 / 2 ^ 59)), price = None,
             time_in_force = ''ioc'', reduce_only = True\<rparr>,
            \<lparr>symbol = ''BTC-USD'', side = ''sell'', order_type = ''market'',
             qty = Str_of (Finite False (1 / 4)), price = None,
             time_in_force = ''ioc'', reduce_only = True\<rparr>]"
    by (simp add: ps_def close_order_def fgt_def float_of_small_int_def float_val_def)
  from t1 neg
  have 2: "side (close_order ''BTC-USD'' (Finite True (5764607523034235 / 2 ^ 59))) = ''buy''"
    by blast
  from t2 pos
  have 3: "side (close_order ''BTC-USD'' (Finite False (1 / 4))) = ''sell''"
    by blast
  from t3 a' b'
  have "fst (check_positions unreadable_position_world ''BTC-USD'' []) = Inr ()
      \<and> placed_orders (snd (check_positions unreadable_position_world ''BTC-USD'' []))
         = placed_orders [] @
           map (\<lambda>p. close_order ''BTC-USD'' (projr (pos_qty p)))
             (filter (\<lambda>p. pos_symbol p = Some ''BTC-USD''
                        \<and> fne (projr (pos_qty p)) (float_of_small_int 0))
                (takeWhile (\<lambda>p. pos_symbol p = Some ''BTC-USD'' \<longrightarrow> \<not> isl (pos_qty p)) us))"
    by blast
  then have 4: "fst (check_positions unreadable_position_world ''BTC-USD'' []) = Inr ()
      \<and> placed_orders (snd (check_positions unreadable_position_world ''BTC-USD'' [])) = []"
    by (simp add: us_def)
  define qs where "qs =
     [\<lparr>pos_symbol = Some ''BTC-USD'', pos_qty = Inr (Finite False (1 / 4))\<rparr>,
      \<lparr>pos_symbol = Some ''BTC-USD'', pos_qty = Inr (Finite False (1 / 2))\<rparr>]"
  have a'': "query_positions interrupted_close_world ''BTC-USD'' [] = Inr qs"
    by (simp add: interrupted_close_world_def qs_def)
  from flatten_position_orders
    [of interrupted_close_world "''BTC-USD''" "[]" qs "Finite False (1 / 4)" False] a''
  have "prefix (placed_orders (snd (check_positions interrupted_close_world ''BTC-USD'' [])))
      (placed_orders [] @
       map (\<lambda>p. close_order ''BTC-USD'' (projr (pos_qty p)))
         (filter (\<lambda>p. pos_symbol p = Some ''BTC-USD''
                    \<and> fne (projr (pos_qty p)) (float_of_small_int 0))
            (takeWhile (\<lambda>p. pos_symbol p = Some ''BTC-USD'' \<longrightarrow> \<not> isl (pos_qty p)) qs)))"
    by blast
  then have 5: "prefix
      (placed_orders (snd (check_positions interrupted_close_world ''BTC-USD'' [])))
      [close_order ''BTC-USD'' (Finite False (1 / 4)),
       close_order ''BTC-USD'' (Finite False (1 / 2))]"
    by (simp add: qs_def float_of_small_int_def float_val_def)
  have 6: "check_positions interrupted_close_world ''BTC-USD'' []
      = (Inl KeyboardInterrupt,
         [Query_positions ''BTC-USD'',
          Log WARNING (OPEN_POSITION_DETECTED (Finite False (1 / 4)) ''BTC-USD''),
          Log INFO Attempting_CLOSE_via_Market_Order,
          Place_order (close_order ''BTC-USD'' (Finite False (1 / 4)))])"
    by (simp add: check_positions_def prog_simps a'' qs_def float_of_small_int_def
        float_val_def interrupted_close_world_def)
  from 1 neg 2 pos 3 4 5 6 show ?thesis by blast
qed

section \<open>One turn of the loop\<close>

lemma cancel_one_by_one_placed [simp]:
  "placed_orders (snd (cancel_one_by_one w ids tr)) = placed_orders tr"
  by (induction ids arbitrary: tr)
     (auto simp: prog_simps split: prod.splits sum.splits exn.splits)

lemma cancel_open_orders_placed [simp]:
  "placed_orders (snd (cancel_open_orders w current_symbol tr)) = placed_orders tr"
proof -
  have "\<And>ids tr r tr'. cancel_one_by_one w ids tr = (r, tr') \<Longrightarrow> placed_orders tr' = placed_orders tr"
    using cancel_one_by_one_placed by (metis snd_conv)
  then show ?thesis
    by (fastforce simp: cancel_open_orders_def prog_simps split: prod.splits sum.splits exn.splits)
qed

lemma close_positions_no_interrupt:
  assumes "\<forall>r h. place_order w r h \<noteq> Inl KeyboardInterrupt"
  shows "fst (close_positions w current_symbol ps tr) \<noteq> Inl KeyboardInterrupt"
  using assms
  by (induction ps arbitrary: tr)
     (auto simp: prog_simps split: prod.splits sum.splits exn.splits)

lemma check_positions_returns:
  assumes "\<forall>r h. place_order w r h \<noteq> Inl KeyboardInterrupt"
    and "query_positions w current_symbol tr \<noteq> Inl KeyboardInterrupt"
  shows "fst (check_positions w current_symbol tr) = Inr ()"
proof -
  have "\<And>ps tr tr'. close_positions w current_symbol ps tr = (Inl KeyboardInterrupt, tr') \<Longrightarrow> False"
    using close_positions_no_interrupt [OF assms(1)] by (metis fst_conv)
  then show ?thesis using assms(2)
    by (auto simp: check_positions_def prog_simps split: prod.splits sum.splits exn.splits)
qed

lemma place_new_orders_cases:
  "place_new_orders w current_symbol current_order_size bid_price_str ask_price_str tr =
     (let buy = limit_order current_symbol ''buy'' current_order_size bid_price_str;
          sell = limit_order current_symbol ''sell'' current_order_size ask_price_str
      in case place_order w buy tr of
           Inl e \<Rightarrow> (Inl e, tr @ [Place_order buy])
         | Inr u \<Rightarrow>
             (case place_order w sell (tr @ [Place_order buy]) of
                Inl e \<Rightarrow> (Inl e, tr @ [Place_order buy, Place_order sell])
              | Inr u' \<Rightarrow> (Inr (), tr @ [Place_order buy, Place_order sell,
                                         Log INFO Orders_placed_successfully])))"
  by (simp add: place_new_orders_def Let_def prog_simps split: sum.splits)

section \<open>Step 5: the two resting orders\<close>





section \<open>Quotes of a mark price that is not positive\<close>

lemma round_half_even_zero [simp]: "round_half_even 0 = 0"
  using round_half_even_int [of 0] by simp

lemma quote_zero: "quote_prices (Finite False 0) = (''0.0000'', ''0.0000'')"
proof -
  have r: "replicate 3 CHR ''0'' = ''000''" by (simp add: numeral_3_eq_3)
  have f: "format_f 4 (Finite False 0) = ''0.0000''"
    by (simp add: Let_def str_nat.simps digit_char_def zfill_def r)
  have b: "bid_price (Finite False 0) = Finite False 0"
    by (simp add: bid_price_def one_minus_spread_factor round_float_def)
  have a: "ask_price (Finite False 0) = Finite False 0"
    by (simp add: ask_price_def one_plus_spread_factor round_float_def)
  have lt: "flt (Finite False 0) (float_of_small_int 100)"
    by (simp add: float_of_small_int_def float_val_def)
  show ?thesis by (simp only: quote_prices_def lt if_True a b f)
qed

lemma format_mark_zero: "format_f 4 (Finite False 0) = ''0.0000''"
proof -
  have r: "replicate 3 CHR ''0'' = ''000''" by (simp add: numeral_3_eq_3)
  show ?thesis by (simp add: Let_def str_nat.simps digit_char_def zfill_def r)
qed

text \<open>
  C3, counterexample. The exchange reports a mark price of zero. No error is raised: the
  tick computes the quote pair 0.0000 / 0.0000, places a buy and a sell order at that price,
  reports success and sleeps.
\<close>

theorem invalid_price_counterexample:
  "\<not> flt (float_of_small_int 0) (Finite False 0)
   \<and> quote_prices (Finite False 0) = (''0.0000'', ''0.0000'')
   \<and> tick zero_price_world ''BTC-USD'' ''0.0015'' [] =
       (Inr (),
        [Query_symbol_price ''BTC-USD'',
         Log INFO (Mark_Target ''0.0000'' ''0.0000'' ''0.0000''),
         Query_open_orders ''BTC-USD'', Query_positions ''BTC-USD'',
         Place_order (limit_order ''BTC-USD'' ''buy'' ''0.0015'' ''0.0000''),
         Place_order (limit_order ''BTC-USD'' ''sell'' ''0.0015'' ''0.0000''),
         Log INFO Orders_placed_successfully, Sleep 30])"
proof (intro conjI)
  show "\<not> flt (float_of_small_int 0) (Finite False 0)"
    by (simp add: float_of_small_int_def float_val_def)
  show "quote_prices (Finite False 0) = (''0.0000'', ''0.0000'')" by (rule quote_zero)
  show "tick zero_price_world ''BTC-USD'' ''0.0015'' [] =
       (Inr (),
        [Query_symbol_price ''BTC-USD'',
         Log INFO (Mark_Target ''0.0000'' ''0.0000'' ''0.0000''),
         Query_open_orders ''BTC-USD'', Query_positions ''BTC-USD'',
         Place_order (limit_order ''BTC-USD'' ''buy'' ''0.0015'' ''0.0000''),
         Place_order (limit_order ''BTC-USD'' ''sell'' ''0.0015'' ''0.0000''),
         Log INFO Orders_placed_successfully, Sleep 30])"
    by (simp add: tick_def tick_body_def cancel_open_orders_def check_positions_def
        place_new_orders_def zero_price_world_def quiet_world_def REFRESH_RATE_def
        quote_zero format_mark_zero prog_simps Let_def del: format_f.simps)
qed

text \<open>
  C3, amended. The quote computation validates nothing and cannot fail: for every mark
  price the exchange reports, positive or not, the tick goes on with the pair
  \<open>quote_prices mark_price\<close>, and when no call is interrupted and both placements are
  accepted it places a buy at the first and a sell at the second string of that pair. The
  computation is a function of the mark price alone and does no I/O.
\<close>

theorem quotes_for_every_mark_price:
  assumes "query_symbol_price w current_symbol tr = Inr mark_price"
    and "\<forall>s h. query_open_orders w s h \<noteq> Inl KeyboardInterrupt"
    and "\<forall>ids h. cancel_orders w ids h \<noteq> Inl KeyboardInterrupt"
    and "\<forall>s h. query_positions w s h \<noteq> Inl KeyboardInterrupt"
    and "\<forall>r h. place_order w r h = Inr ()"
    and "\<forall>n h. sleep w n h = Inr ()"
  shows "fst (tick_body w current_symbol current_order_size tr) = Inr ()
       \<and> (\<exists>closes. placed_orders (snd (tick_body w current_symbol current_order_size tr))
            = placed_orders tr @ closes @
              [limit_order current_symbol ''buy'' current_order_size (fst (quote_prices mark_price)),
               limit_order current_symbol ''sell'' current_order_size (snd (quote_prices mark_price))])"
proof -
  obtain bid_str ask_str where q: "quote_prices mark_price = (bid_str, ask_str)"
    by (cases "quote_prices mark_price")
  define tr1 where "tr1 = tr @ [Query_symbol_price current_symbol,
     Log INFO (Mark_Target (format_f 4 mark_price) bid_str ask_str)]"
  obtain tr2 where c: "cancel_open_orders w current_symbol tr1 = (Inr (), tr2)"
    using cancel_open_orders_returns [of w current_symbol tr1] assms(2,3)
    by (cases "cancel_open_orders w current_symbol tr1") auto
  have "placed_orders (snd (cancel_open_orders w current_symbol tr1)) = placed_orders tr1"
    by (rule cancel_open_orders_placed)
  then have p2: "placed_orders tr2 = placed_orders tr"
    unfolding c by (simp add: tr1_def)
  have noint: "\<forall>r h. place_order w r h \<noteq> Inl KeyboardInterrupt" using assms(5) by simp
  obtain tr3 where p: "check_positions w current_symbol tr2 = (Inr (), tr3)"
    using check_positions_returns [of w current_symbol tr2] noint assms(4)
    by (cases "check_positions w current_symbol tr2") auto
  obtain closes where p3: "placed_orders tr3 = placed_orders tr2 @ closes"
    using check_positions_only [of w current_symbol tr2] p by auto
  have "tick_body w current_symbol current_order_size tr =
      (Inr (), tr3 @ [Place_order (limit_order current_symbol ''buy'' current_order_size bid_str),
                      Place_order (limit_order current_symbol ''sell'' current_order_size ask_str),
                      Log INFO Orders_placed_successfully, Sleep REFRESH_RATE])"
    using assms(1,5,6) q c p
    by (simp add: tick_body_def prog_simps place_new_orders_cases Let_def tr1_def
        del: format_f.simps)
  then show ?thesis using p2 p3 q by simp
qed

theorem quotes_for_every_mark_price_witness:
  "fst (tick_body zero_price_world ''BTC-USD'' ''0.0015'' []) = Inr ()
   \<and> placed_orders (snd (tick_body zero_price_world ''BTC-USD'' ''0.0015'' []))
      = [limit_order ''BTC-USD'' ''buy'' ''0.0015'' ''0.0000'',
         limit_order ''BTC-USD'' ''sell'' ''0.0015'' ''0.0000'']"
proof -
  have t: "placed_orders (snd (tick_body zero_price_world ''BTC-USD'' ''0.0015'' []))
      = [limit_order ''BTC-USD'' ''buy'' ''0.0015'' ''0.0000'',
         limit_order ''BTC-USD'' ''sell'' ''0.0015'' ''0.0000'']"
    by (simp add: tick_body_def cancel_open_orders_def check_positions_def
        place_new_orders_def zero_price_world_def quiet_world_def REFRESH_RATE_def
        quote_zero format_mark_zero prog_simps Let_def del: format_f.simps)
  have "fst (tick_body zero_price_world ''BTC-USD'' ''0.0015'' []) = Inr ()"
    using quotes_for_every_mark_price
      [of zero_price_world "''BTC-USD''" "[]" "Finite False 0" "''0.0015''"]
    by (simp add: zero_price_world_def quiet_world_def)
  with t show ?thesis by (intro conjI)
qed

section \<open>The shutdown sweep\<close>

lemma error_logs_append [simp]: "error_logs (xs @ ys) = error_logs xs @ error_logs ys"
  by (induction xs rule: error_logs.induct) simp_all

lemma shutdown_one_by_one_silent:
  "error_logs (snd (shutdown_one_by_one w ids tr)) = error_logs tr"
  by (induction ids arbitrary: tr)
     (auto simp: prog_simps split: prod.splits sum.splits exn.splits)

text \<open>
  C4, at its failing input. Two orders are open at shutdown and every cancel call raises.
  The sweep catches the failure of the batch cancel and the failure of each single cancel,
  logs none of them and reports \<open>Shutdown: Cancelled orders via fallback\<close>: of the three
  errors caught, not one has a log line, and no world makes the fallback of the sweep log an
  error. The cancel step of a tick, on the same exchange, logs all three.
\<close>

theorem shutdown_swallows_cancel_failures:
  "shutdown_sweep cancel_down_world \<lparr>token = ''tok'', address = ''0xabc''\<rparr> ''BTC-USD'' [] =
     (Inr (),
      [Log INFO SHUTDOWN_SEQUENCE, Query_open_orders ''BTC-USD'',
       Log INFO (Retrieved_open_orders_to_cancel 2),
       Cancel_orders [''a'', ''b''], Cancel_orders [''a''], Cancel_orders [''b''],
       Log INFO Shutdown_Cancelled_orders_via_fallback])
   \<and> error_logs (snd (shutdown_sweep cancel_down_world \<lparr>token = ''tok'', address = ''0xabc''\<rparr>
         ''BTC-USD'' [])) = []
   \<and> error_logs (snd (shutdown_one_by_one w ids tr)) = error_logs tr
   \<and> error_logs (snd (cancel_open_orders cancel_down_world ''BTC-USD'' [])) =
       [Batch_cancel_failed ''timeout'', FAILED_to_cancel_order ''a'' ''timeout'',
        FAILED_to_cancel_order ''b'' ''timeout'']"
  by (simp add: shutdown_sweep_def cancel_open_orders_def cancel_down_world_def quiet_world_def
      shutdown_one_by_one_silent prog_simps)

section \<open>The kinds of events a step emits\<close>

lemma emits_only_ret: "emits_only Q (ret a)"
  by (simp add: emits_only_def ret_def)

lemma emits_only_throw: "emits_only Q (throw e)"
  by (simp add: emits_only_def throw_def)

lemma emits_only_lift: "emits_only Q (lift r)"
  by (cases r) (simp_all add: lift_def emits_only_ret emits_only_throw)

lemma emits_only_log: "Q (Log l m) \<Longrightarrow> emits_only Q (log l m)"
  by (simp add: emits_only_def log_def)

lemma emits_only_print: "Q (Print s) \<Longrightarrow> emits_only Q (print s)"
  by (simp add: emits_only_def print_def)

lemma emits_only_call: "Q ev \<Longrightarrow> emits_only Q (call f ev)"
  by (simp add: emits_only_def call_def)

lemma emits_only_and_then:
  assumes "emits_only Q p" and "\<And>a. emits_only Q (f a)"
  shows "emits_only Q (and_then p f)"
  unfolding emits_only_def
proof
  fix tr
  obtain r tr1 where p: "p tr = (r, tr1)" by (cases "p tr")
  obtain n1 where n1: "tr1 = tr @ n1" "list_all Q n1"
    using assms(1) p unfolding emits_only_def by (metis snd_conv)
  show "\<exists>new. snd (and_then p f tr) = tr @ new \<and> list_all Q new"
  proof (cases r)
    case (Inl e)
    then show ?thesis using p n1 by (simp add: and_then_def)
  next
    case (Inr a)
    obtain n2 where n2: "snd (f a tr1) = tr1 @ n2" "list_all Q n2"
      using assms(2) [of a] unfolding emits_only_def by blast
    then have "snd (and_then p f tr) = tr @ (n1 @ n2)" "list_all Q (n1 @ n2)"
      using Inr p n1 by (simp_all add: and_then_def)
    then show ?thesis by blast
  qed
qed

lemma emits_only_seq:
  "emits_only Q p \<Longrightarrow> emits_only Q q \<Longrightarrow> emits_only Q (seq p q)"
  by (simp add: seq_def emits_only_and_then)

lemma emits_only_try_except:
  assumes "emits_only Q p" and "\<And>msg. emits_only Q (h msg)"
  shows "emits_only Q (try_except p h)"
  unfolding emits_only_def
proof
  fix tr
  obtain r tr1 where p: "p tr = (r, tr1)" by (cases "p tr")
  obtain n1 where n1: "tr1 = tr @ n1" "list_all Q n1"
    using assms(1) p unfolding emits_only_def by (metis snd_conv)
  show "\<exists>new. snd (try_except p h tr) = tr @ new \<and> list_all Q new"
  proof (cases "\<exists>msg. r = Inl (Exception msg)")
    case False
    then have "try_except p h tr = (r, tr1)"
      using p by (auto simp: try_except_def split: sum.splits exn.splits)
    then show ?thesis using n1 by simp
  next
    case True
    then obtain msg where r: "r = Inl (Exception msg)" by blast
    obtain n2 where n2: "snd (h msg tr1) = tr1 @ n2" "list_all Q n2"
      using assms(2) [of msg] unfolding emits_only_def by blast
    then have "snd (try_except p h tr) = tr @ (n1 @ n2)" "list_all Q (n1 @ n2)"
      using r p n1 by (simp_all add: try_except_def)
    then show ?thesis by blast
  qed
qed

lemma emits_only_try_except_all:
  assumes "emits_only Q p" and "emits_only Q h"
  shows "emits_only Q (try_except_all p h)"
  unfolding emits_only_def
proof
  fix tr
  obtain r tr1 where p: "p tr = (r, tr1)" by (cases "p tr")
  obtain n1 where n1: "tr1 = tr @ n1" "list_all Q n1"
    using assms(1) p unfolding emits_only_def by (metis snd_conv)
  show "\<exists>new. snd (try_except_all p h tr) = tr @ new \<and> list_all Q new"
  proof (cases r)
    case (Inr a)
    then show ?thesis using p n1 by (simp add: try_except_all_def)
  next
    case (Inl e)
    obtain n2 where n2: "snd (h tr1) = tr1 @ n2" "list_all Q n2"
      using assms(2) unfolding emits_only_def by blast
    then have "snd (try_except_all p h tr) = tr @ (n1 @ n2)" "list_all Q (n1 @ n2)"
      using Inl p n1 by (simp_all add: try_except_all_def)
    then show ?thesis by blast
  qed
qed

lemma emits_only_if:
  "(c \<Longrightarrow> emits_only Q p) \<Longrightarrow> (\<not> c \<Longrightarrow> emits_only Q q) \<Longrightarrow> emits_only Q (if c then p else q)"
  by simp

lemmas emits_only_intros = emits_only_ret emits_only_throw emits_only_lift emits_only_log
  emits_only_print
  emits_only_call emits_only_and_then emits_only_seq emits_only_try_except
  emits_only_try_except_all emits_only_if

lemma emits_onlyD:
  assumes "emits_only Q p" and "p tr = (r, tr')"
  obtains new where "tr' = tr @ new" "list_all Q new"
  using assms unfolding emits_only_def by (metis snd_conv)

lemma sweeps_unchanged:
  "list_all (\<lambda>e. e \<noteq> Log INFO SHUTDOWN_SEQUENCE) new \<Longrightarrow> sweeps (tr @ new) = sweeps tr"
  by (induction new) (simp_all add: sweeps_def)

section \<open>Exactly one sweep\<close>

lemma cancel_one_by_one_quiet:
  "emits_only (\<lambda>e. e \<noteq> Log INFO SHUTDOWN_SEQUENCE) (cancel_one_by_one w ids)"
  by (induction ids) (auto intro!: emits_only_intros)

lemma cancel_open_orders_quiet:
  "emits_only (\<lambda>e. e \<noteq> Log INFO SHUTDOWN_SEQUENCE) (cancel_open_orders w current_symbol)"
  unfolding cancel_open_orders_def
  by (auto intro!: emits_only_intros cancel_one_by_one_quiet)

lemma close_positions_quiet:
  "emits_only (\<lambda>e. e \<noteq> Log INFO SHUTDOWN_SEQUENCE) (close_positions w current_symbol ps)"
  by (induction ps) (auto intro!: emits_only_intros)

lemma check_positions_quiet:
  "emits_only (\<lambda>e. e \<noteq> Log INFO SHUTDOWN_SEQUENCE) (check_positions w current_symbol)"
  unfolding check_positions_def
  by (auto intro!: emits_only_intros close_positions_quiet)

lemma place_new_orders_quiet:
  "emits_only (\<lambda>e. e \<noteq> Log INFO SHUTDOWN_SEQUENCE)
     (place_new_orders w current_symbol current_order_size b a)"
  unfolding place_new_orders_def Let_def
  by (auto intro!: emits_only_intros)

lemma tick_quiet:
  "emits_only (\<lambda>e. e \<noteq> Log INFO SHUTDOWN_SEQUENCE) (tick w current_symbol current_order_size)"
  unfolding tick_def tick_body_def Let_def split_def
  by (auto intro!: emits_only_intros cancel_open_orders_quiet check_positions_quiet
      place_new_orders_quiet)

lemma startup_quiet:
  "emits_only (\<lambda>e. e \<noteq> Log INFO SHUTDOWN_SEQUENCE) (startup w)"
  unfolding startup_def Let_def
  by (auto intro!: emits_only_intros split: option.splits)

lemma outer_handler_quiet:
  "emits_only (\<lambda>e. e \<noteq> Log INFO SHUTDOWN_SEQUENCE) (outer_handler e)"
  by (cases e) (auto intro!: emits_only_intros)

lemma trading_loop_quiet:
  "trading_loop fuel w current_symbol current_order_size tr = Some (e, tr')
     \<Longrightarrow> \<exists>new. tr' = tr @ new \<and> list_all (\<lambda>e. e \<noteq> Log INFO SHUTDOWN_SEQUENCE) new"
proof (induction fuel arbitrary: tr)
  case 0
  then show ?case by simp
next
  case (Suc n)
  obtain r tr1 where t: "tick w current_symbol current_order_size tr = (r, tr1)"
    by (cases "tick w current_symbol current_order_size tr")
  obtain n1 where n1: "tr1 = tr @ n1" "list_all (\<lambda>e. e \<noteq> Log INFO SHUTDOWN_SEQUENCE) n1"
    using tick_quiet t by (rule emits_onlyD)
  show ?case
  proof (cases r)
    case (Inl e')
    then show ?thesis using Suc.prems t n1 by auto
  next
    case (Inr u)
    then have "trading_loop n w current_symbol current_order_size tr1 = Some (e, tr')"
      using Suc.prems t by simp
    then obtain n2 where "tr' = tr1 @ n2" "list_all (\<lambda>e. e \<noteq> Log INFO SHUTDOWN_SEQUENCE) n2"
      using Suc.IH by blast
    then have "tr' = tr @ (n1 @ n2)" "list_all (\<lambda>e. e \<noteq> Log INFO SHUTDOWN_SEQUENCE) (n1 @ n2)"
      using n1 by simp_all
    then show ?thesis by blast
  qed
qed

lemma shutdown_one_by_one_cancels:
  "emits_only sweep_event (shutdown_one_by_one w ids)"
  by (induction ids) (auto intro!: emits_only_intros)

text \<open>The sweep: its announcement, the query of the open orders, then cancel calls and log lines.\<close>

lemma shutdown_sweep_shape:
  assumes "token context \<noteq> []"
  shows "\<exists>after. snd (shutdown_sweep w context current_symbol tr)
           = tr @ [Log INFO SHUTDOWN_SEQUENCE, Query_open_orders current_symbol] @ after
         \<and> list_all sweep_event after"
proof -
  define tr1 where "tr1 = tr @ [Log INFO SHUTDOWN_SEQUENCE, Query_open_orders current_symbol]"
  define rest :: "order_id option list \<Rightarrow> unit prog" where
    "rest = (\<lambda>result_list.
                  if result_list \<noteq> [] then
                    and_then (lift (ids_of result_list))
                      (\<lambda>ids_to_cancel.
                         seq (log INFO (Retrieved_open_orders_to_cancel (length ids_to_cancel)))
                           (try_except
                              (seq (call (cancel_orders w ids_to_cancel) (Cancel_orders ids_to_cancel))
                                   (log INFO (Shutdown_Cancelled_orders (length ids_to_cancel))))
                              (\<lambda>batch_error.
                                 seq (shutdown_one_by_one w ids_to_cancel)
                                     (log INFO Shutdown_Cancelled_orders_via_fallback))))
                  else log INFO Shutdown_No_open_orders_found)"
  define handler :: "string \<Rightarrow> unit prog" where
    "handler = (\<lambda>cleanup_error. log ERROR (Failed_to_cleanup_orders_on_exit cleanup_error))"
  have rest: "emits_only sweep_event (rest result_list)" for result_list
    unfolding rest_def by (auto intro!: emits_only_intros shutdown_one_by_one_cancels)
  have handler: "emits_only sweep_event (handler msg)" for msg
    unfolding handler_def by (auto intro!: emits_only_intros)
  have sw: "shutdown_sweep w context current_symbol tr =
      (case query_open_orders w current_symbol (tr @ [Log INFO SHUTDOWN_SEQUENCE]) of
         Inl KeyboardInterrupt \<Rightarrow> (Inl KeyboardInterrupt, tr1)
       | Inl (Exception msg) \<Rightarrow> handler msg tr1
       | Inr result_list \<Rightarrow> try_except (rest result_list) handler tr1)"
    using assms
    by (simp add: shutdown_sweep_def rest_def handler_def tr1_def prog_simps
        split: sum.splits exn.splits prod.splits)
  have "\<exists>after. snd (shutdown_sweep w context current_symbol tr) = tr1 @ after
         \<and> list_all sweep_event after"
  proof (cases "query_open_orders w current_symbol (tr @ [Log INFO SHUTDOWN_SEQUENCE])")
    case (Inl e)
    show ?thesis
    proof (cases e)
      case KeyboardInterrupt
      then show ?thesis using Inl sw by simp
    next
      case (Exception msg)
      then show ?thesis using Inl sw handler [of msg] by (simp add: emits_only_def)
    qed
  next
    case (Inr result_list)
    have "emits_only sweep_event (try_except (rest result_list) handler)"
      using rest handler by (intro emits_only_try_except)
    then show ?thesis using Inr sw by (simp add: emits_only_def)
  qed
  then show ?thesis by (simp add: tr1_def)
qed

text \<open>The fallback of the sweep calls cancel once for each id, whatever the calls answer.\<close>

lemma shutdown_one_by_one_events:
  "shutdown_one_by_one w ids tr = (Inr (), tr @ map (\<lambda>oid. Cancel_orders [oid]) ids)"
  by (induction ids arbitrary: tr)
     (auto simp: prog_simps split: prod.splits sum.splits exn.splits)

text \<open>The events of the sweep, when every open order has an id, and when the query fails.\<close>

lemma shutdown_sweep_events:
  assumes "token context \<noteq> []"
    and "query_open_orders w current_symbol (tr @ [Log INFO SHUTDOWN_SEQUENCE]) = Inr (map Some ids)"
  shows "snd (shutdown_sweep w context current_symbol tr)
       = tr @ [Log INFO SHUTDOWN_SEQUENCE, Query_open_orders current_symbol] @
         (if ids = [] then [Log INFO Shutdown_No_open_orders_found]
          else [Log INFO (Retrieved_open_orders_to_cancel (length ids)), Cancel_orders ids] @
            (case cancel_orders w ids
                    (tr @ [Log INFO SHUTDOWN_SEQUENCE, Query_open_orders current_symbol,
                           Log INFO (Retrieved_open_orders_to_cancel (length ids))]) of
               Inr u \<Rightarrow> [Log INFO (Shutdown_Cancelled_orders (length ids))]
             | Inl KeyboardInterrupt \<Rightarrow> []
             | Inl (Exception msg) \<Rightarrow>
                 map (\<lambda>oid. Cancel_orders [oid]) ids
                 @ [Log INFO Shutdown_Cancelled_orders_via_fallback]))"
  using assms
  by (simp add: shutdown_sweep_def prog_simps ids_of_map_Some shutdown_one_by_one_events
      split: sum.splits exn.splits)

lemma shutdown_sweep_query_fails:
  assumes "token context \<noteq> []"
    and "query_open_orders w current_symbol (tr @ [Log INFO SHUTDOWN_SEQUENCE])
         = Inl (Exception msg)"
  shows "snd (shutdown_sweep w context current_symbol tr)
       = tr @ [Log INFO SHUTDOWN_SEQUENCE, Query_open_orders current_symbol] @
         [Log ERROR (Failed_to_cleanup_orders_on_exit msg)]"
  using assms by (simp add: shutdown_sweep_def prog_simps)

lemma sweeps_sweep_events: "list_all sweep_event after \<Longrightarrow> sweeps after = 0"
proof (induction after)
  case Nil
  then show ?case by simp
next
  case (Cons e after)
  then show ?case by (cases e) (auto simp: sweeps_def)
qed

lemma outer_handler_returns: "fst (outer_handler e tr) = Inr ()"
  by (cases e) (simp_all add: prog_simps)

text \<open>The bound on the turns is only a bound: a loop that has ended stays ended under a larger one.\<close>

lemma trading_loop_more_fuel:
  "trading_loop n w current_symbol current_order_size tr = Some x
     \<Longrightarrow> trading_loop (n + k) w current_symbol current_order_size tr = Some x"
proof (induction n arbitrary: tr)
  case 0
  then show ?case by simp
next
  case (Suc n)
  obtain r tr1 where t: "tick w current_symbol current_order_size tr = (r, tr1)"
    by (cases "tick w current_symbol current_order_size tr")
  show ?case
  proof (cases r)
    case (Inl e)
    then show ?thesis using Suc.prems t by simp
  next
    case (Inr u)
    then have "trading_loop n w current_symbol current_order_size tr1 = Some x"
      using Suc.prems t by simp
    then have "trading_loop (n + k) w current_symbol current_order_size tr1 = Some x"
      by (rule Suc.IH)
    then show ?thesis using Inr t by simp
  qed
qed

lemma run_loop_sweep:
  assumes tok: "token context \<noteq> []"
    and run: "run_loop fuel w context current_symbol current_order_size tr = Some (r, tr')"
  shows "\<exists>before after.
           tr' = tr @ before @ [Log INFO SHUTDOWN_SEQUENCE, Query_open_orders current_symbol] @ after
         \<and> list_all (\<lambda>e. e \<noteq> Log INFO SHUTDOWN_SEQUENCE) before \<and> list_all sweep_event after
         \<and> (\<forall>ids. query_open_orders w current_symbol (tr @ before @ [Log INFO SHUTDOWN_SEQUENCE])
                    = Inr (map Some ids)
               \<longrightarrow> after =
                   (if ids = [] then [Log INFO Shutdown_No_open_orders_found]
                    else [Log INFO (Retrieved_open_orders_to_cancel (length ids)),
                          Cancel_orders ids] @
                      (case cancel_orders w ids
                              (tr @ before @
                               [Log INFO SHUTDOWN_SEQUENCE, Query_open_orders current_symbol,
                                Log INFO (Retrieved_open_orders_to_cancel (length ids))]) of
                         Inr u \<Rightarrow> [Log INFO (Shutdown_Cancelled_orders (length ids))]
                       | Inl KeyboardInterrupt \<Rightarrow> []
                       | Inl (Exception msg) \<Rightarrow>
                           map (\<lambda>oid. Cancel_orders [oid]) ids
                           @ [Log INFO Shutdown_Cancelled_orders_via_fallback])))
         \<and> (\<forall>msg. query_open_orders w current_symbol (tr @ before @ [Log INFO SHUTDOWN_SEQUENCE])
                    = Inl (Exception msg)
               \<longrightarrow> after = [Log ERROR (Failed_to_cleanup_orders_on_exit msg)])"
proof -
  obtain e tr1 where loop: "trading_loop fuel w current_symbol current_order_size tr = Some (e, tr1)"
    using run by (auto simp: run_loop_def split: option.splits)
  obtain n1 where n1: "tr1 = tr @ n1" "list_all (\<lambda>e. e \<noteq> Log INFO SHUTDOWN_SEQUENCE) n1"
    using trading_loop_quiet [OF loop] by blast
  obtain u tr2 where h: "outer_handler e tr1 = (u, tr2)" by (cases "outer_handler e tr1")
  have u: "u = Inr ()" using outer_handler_returns [of e tr1] h by simp
  obtain n2 where n2: "tr2 = tr1 @ n2" "list_all (\<lambda>e. e \<noteq> Log INFO SHUTDOWN_SEQUENCE) n2"
    using outer_handler_quiet h by (rule emits_onlyD)
  define before where "before = n1 @ n2"
  have tr2: "tr2 = tr @ before" using n1 n2 by (simp add: before_def)
  have "(r, tr') = shutdown_sweep w context current_symbol tr2"
    using run loop h u by (simp add: run_loop_def prog_simps)
  then have tr': "tr' = snd (shutdown_sweep w context current_symbol tr2)"
    by (metis snd_conv)
  obtain after where after: "tr' = tr2 @ [Log INFO SHUTDOWN_SEQUENCE, Query_open_orders current_symbol] @ after"
    "list_all sweep_event after"
    using shutdown_sweep_shape [OF tok, of w current_symbol tr2] tr' by auto
  have 1: "tr' = tr @ before @ [Log INFO SHUTDOWN_SEQUENCE, Query_open_orders current_symbol] @ after"
    using after tr2 by simp
  have 2: "list_all (\<lambda>e. e \<noteq> Log INFO SHUTDOWN_SEQUENCE) before"
    using n1 n2 by (simp add: before_def)
  have 3: "after =
         (if ids = [] then [Log INFO Shutdown_No_open_orders_found]
          else [Log INFO (Retrieved_open_orders_to_cancel (length ids)), Cancel_orders ids] @
            (case cancel_orders w ids
                    (tr @ before @
                     [Log INFO SHUTDOWN_SEQUENCE, Query_open_orders current_symbol,
                      Log INFO (Retrieved_open_orders_to_cancel (length ids))]) of
               Inr u \<Rightarrow> [Log INFO (Shutdown_Cancelled_orders (length ids))]
             | Inl KeyboardInterrupt \<Rightarrow> []
             | Inl (Exception msg) \<Rightarrow>
                 map (\<lambda>oid. Cancel_orders [oid]) ids
                 @ [Log INFO Shutdown_Cancelled_orders_via_fallback]))"
    if q: "query_open_orders w current_symbol (tr @ before @ [Log INFO SHUTDOWN_SEQUENCE])
           = Inr (map Some ids)" for ids
  proof -
    have "query_open_orders w current_symbol (tr2 @ [Log INFO SHUTDOWN_SEQUENCE])
        = Inr (map Some ids)"
      using q by (simp add: tr2)
    from shutdown_sweep_events [OF tok this]
    have "tr2 @ [Log INFO SHUTDOWN_SEQUENCE, Query_open_orders current_symbol] @ after
        = tr2 @ [Log INFO SHUTDOWN_SEQUENCE, Query_open_orders current_symbol] @
         (if ids = [] then [Log INFO Shutdown_No_open_orders_found]
          else [Log INFO (Retrieved_open_orders_to_cancel (length ids)), Cancel_orders ids] @
            (case cancel_orders w ids
                    (tr2 @ [Log INFO SHUTDOWN_SEQUENCE, Query_open_orders current_symbol,
                           Log INFO (Retrieved_open_orders_to_cancel (length ids))]) of
               Inr u \<Rightarrow> [Log INFO (Shutdown_Cancelled_orders (length ids))]
             | Inl KeyboardInterrupt \<Rightarrow> []
             | Inl (Exception msg) \<Rightarrow>
                 map (\<lambda>oid. Cancel_orders [oid]) ids
                 @ [Log INFO Shutdown_Cancelled_orders_via_fallback]))"
      unfolding after(1) [symmetric] tr' .
    then have "after =
         (if ids = [] then [Log INFO Shutdown_No_open_orders_found]
          else [Log INFO (Retrieved_open_orders_to_cancel (length ids)), Cancel_orders ids] @
            (case cancel_orders w ids
                    (tr2 @ [Log INFO SHUTDOWN_SEQUENCE, Query_open_orders current_symbol,
                           Log INFO (Retrieved_open_orders_to_cancel (length ids))]) of
               Inr u \<Rightarrow> [Log INFO (Shutdown_Cancelled_orders (length ids))]
             | Inl KeyboardInterrupt \<Rightarrow> []
             | Inl (Exception msg) \<Rightarrow>
                 map (\<lambda>oid. Cancel_orders [oid]) ids
                 @ [Log INFO Shutdown_Cancelled_orders_via_fallback]))"
      by (simp only: same_append_eq)
    then show ?thesis unfolding tr2 append_assoc .
  qed
  have 4: "after = [Log ERROR (Failed_to_cleanup_orders_on_exit msg)]"
    if q: "query_open_orders w current_symbol (tr @ before @ [Log INFO SHUTDOWN_SEQUENCE])
           = Inl (Exception msg)" for msg
  proof -
    have "query_open_orders w current_symbol (tr2 @ [Log INFO SHUTDOWN_SEQUENCE])
        = Inl (Exception msg)"
      using q by (simp add: tr2)
    from shutdown_sweep_query_fails [OF tok this]
    have "tr2 @ [Log INFO SHUTDOWN_SEQUENCE, Query_open_orders current_symbol] @ after
        = tr2 @ [Log INFO SHUTDOWN_SEQUENCE, Query_open_orders current_symbol] @
          [Log ERROR (Failed_to_cleanup_orders_on_exit msg)]"
      unfolding after(1) [symmetric] tr' .
    then show ?thesis by (simp only: same_append_eq)
  qed
  from 1 2 after(2) 3 4 show ?thesis by blast
qed

text \<open>
  C2, counterexample. The user picks mode 1, the context is established with a token, the
  symbol is BTC-USD, and the user presses Ctrl-C at the order size prompt: the run ends
  with \<^verbatim>\<open>KeyboardInterrupt\<close> and has performed no sweep, since the prompt stands before the
  \<^verbatim>\<open>try\<close> whose \<^verbatim>\<open>finally\<close> block is the sweep.
\<close>

theorem shutdown_sweep_counterexample:
  "get_auth_context interrupted_prompt_world ''1'' [Input choice_prompt]
     = Inr (Some \<lparr>token = ''tok'', address = ''0xabc''\<rparr>)
   \<and> select_symbol (str_upper interrupted_prompt_world) (env_SYMBOL interrupted_prompt_world)
       = ''BTC-USD''
   \<and> run_trading_bot 1 interrupted_prompt_world
     = Some (Inl KeyboardInterrupt,
         (banner @
      [Input choice_prompt, Get_auth_context ''1'', Input (size_prompt ''BTC-USD'')]))
   \<and> sweeps (banner @
      [Input choice_prompt, Get_auth_context ''1'', Input (size_prompt ''BTC-USD'')]) = 0"
proof -
  have s: "select_symbol ascii_upper None = ''BTC-USD''"
    using ascii_upper_BTC by (rule select_symbol_default)
  have p: "size_prompt ''BTC-USD'' \<noteq> choice_prompt"
    by (simp add: size_prompt_def choice_prompt_def)
  have st: "ascii_strip ''1'' = ''1''" by (simp add: ascii_strip_def isspace_def)
  show ?thesis
    by (simp add: run_trading_bot_def startup_def interrupted_prompt_world_def quiet_world_def
        prog_simps s p st banner_def)
qed

text \<open>
  C2, amended. For every run that reaches the trading loop (the choice and the order size
  were read, the context was established) with a non-empty token: the run ends exactly when
  the loop ends, which is by an interrupt or by an error escaping the handler of a tick;
  when it ends, its events hold exactly one shutdown sweep, after all events of the ticks,
  however many ticks there were: the announcement of the sweep, the query of the open orders
  of the symbol, then only cancel calls and log lines until the process exits. When the
  query lists the orders \<open>ids\<close>, what follows it is: with no order, the line \<open>No open orders
  found\<close>; otherwise the line \<open>Retrieved n open orders\<close> and one cancel call for all of \<open>ids\<close>,
  then \<open>Cancelled n orders\<close> when that call succeeds and, when it raises an \<^verbatim>\<open>Exception\<close>, one
  cancel call for each id in order and the line \<open>Cancelled orders via fallback\<close>. When the
  query raises an \<^verbatim>\<open>Exception\<close>, the failure is logged and nothing is cancelled.
\<close>

theorem shutdown_sweep_once:
  assumes "startup w [] = (Inr (Ready context current_symbol current_order_size), tr0)"
    and "token context \<noteq> []"
  shows "(run_trading_bot fuel w = None
            \<longleftrightarrow> trading_loop fuel w current_symbol current_order_size tr0 = None)
       \<and> (run_trading_bot fuel w = Some (r, tr')
            \<longrightarrow> sweeps tr' = 1
              \<and> (\<exists>before after.
                    tr' = tr0 @ before
                          @ [Log INFO SHUTDOWN_SEQUENCE, Query_open_orders current_symbol] @ after
                  \<and> list_all (\<lambda>e. e \<noteq> Log INFO SHUTDOWN_SEQUENCE) before
                  \<and> list_all sweep_event after
                  \<and> (\<forall>ids. query_open_orders w current_symbol (tr0 @ before @ [Log INFO SHUTDOWN_SEQUENCE])
                             = Inr (map Some ids)
                        \<longrightarrow> after =
                            (if ids = [] then [Log INFO Shutdown_No_open_orders_found]
                             else [Log INFO (Retrieved_open_orders_to_cancel (length ids)),
                                   Cancel_orders ids] @
                               (case cancel_orders w ids
                                       (tr0 @ before @
                                        [Log INFO SHUTDOWN_SEQUENCE, Query_open_orders current_symbol,
                                         Log INFO (Retrieved_open_orders_to_cancel (length ids))]) of
                                  Inr u \<Rightarrow> [Log INFO (Shutdown_Cancelled_orders (length ids))]
                                | Inl KeyboardInterrupt \<Rightarrow> []
                                | Inl (Exception msg) \<Rightarrow>
                                    map (\<lambda>oid. Cancel_orders [oid]) ids
                                    @ [Log INFO Shutdown_Cancelled_orders_via_fallback])))
                  \<and> (\<forall>msg. query_open_orders w current_symbol (tr0 @ before @ [Log INFO SHUTDOWN_SEQUENCE])
                             = Inl (Exception msg)
                        \<longrightarrow> after = [Log ERROR (Failed_to_cleanup_orders_on_exit msg)])))"
proof (intro conjI impI)
  have run: "run_trading_bot fuel w
      = run_loop fuel w context current_symbol current_order_size tr0"
    using assms(1) by (simp add: run_trading_bot_def)
  show "run_trading_bot fuel w = None
      \<longleftrightarrow> trading_loop fuel w current_symbol current_order_size tr0 = None"
    unfolding run by (simp add: run_loop_def split: option.splits)
  assume "run_trading_bot fuel w = Some (r, tr')"
  then have rl: "run_loop fuel w context current_symbol current_order_size tr0 = Some (r, tr')"
    unfolding run .
  from run_loop_sweep [OF assms(2) rl]
  obtain before after where shape:
    "tr' = tr0 @ before @ [Log INFO SHUTDOWN_SEQUENCE, Query_open_orders current_symbol] @ after"
    "list_all (\<lambda>e. e \<noteq> Log INFO SHUTDOWN_SEQUENCE) before" "list_all sweep_event after"
    by blast
  obtain n0 where n0: "tr0 = [] @ n0" "list_all (\<lambda>e. e \<noteq> Log INFO SHUTDOWN_SEQUENCE) n0"
    using startup_quiet assms(1) by (rule emits_onlyD)
  have "sweeps tr0 = 0" using sweeps_unchanged [OF n0(2), of "[]"] n0(1) by simp
  moreover have "sweeps (tr0 @ before) = sweeps tr0" using shape(2) by (rule sweeps_unchanged)
  moreover have "sweeps after = 0" using shape(3) by (rule sweeps_sweep_events)
  ultimately show "sweeps tr' = 1" using shape(1) by simp
  show "\<exists>before after.
          tr' = tr0 @ before @ [Log INFO SHUTDOWN_SEQUENCE, Query_open_orders current_symbol] @ after
        \<and> list_all (\<lambda>e. e \<noteq> Log INFO SHUTDOWN_SEQUENCE) before \<and> list_all sweep_event after
        \<and> (\<forall>ids. query_open_orders w current_symbol (tr0 @ before @ [Log INFO SHUTDOWN_SEQUENCE])
                     = Inr (map Some ids)
                \<longrightarrow> after =
                    (if ids = [] then [Log INFO Shutdown_No_open_orders_found]
                     else [Log INFO (Retrieved_open_orders_to_cancel (length ids)),
                           Cancel_orders ids] @
                       (case cancel_orders w ids
                               (tr0 @ before @
                                [Log INFO SHUTDOWN_SEQUENCE, Query_open_orders current_symbol,
                                 Log INFO (Retrieved_open_orders_to_cancel (length ids))]) of
                          Inr u \<Rightarrow> [Log INFO (Shutdown_Cancelled_orders (length ids))]
                        | Inl KeyboardInterrupt \<Rightarrow> []
                        | Inl (Exception msg) \<Rightarrow>
                            map (\<lambda>oid. Cancel_orders [oid]) ids
                            @ [Log INFO Shutdown_Cancelled_orders_via_fallback])))
          \<and> (\<forall>msg. query_open_orders w current_symbol (tr0 @ before @ [Log INFO SHUTDOWN_SEQUENCE])
                     = Inl (Exception msg)
                \<longrightarrow> after = [Log ERROR (Failed_to_cleanup_orders_on_exit msg)])"
    by (rule run_loop_sweep [OF assms(2) rl])
qed

lemma banner_facts [simp]:
  "placed_orders banner = []" "sweeps banner = 0" "Sleep n \<notin> set banner"
  by (simp_all add: banner_def)

lemma select_symbol_ascii: "select_symbol ascii_upper None = ''BTC-USD''"
  using ascii_upper_BTC by (rule select_symbol_default)

lemma startup_interrupted_at_once:
  "startup interrupted_at_once_world [] =
     (Inr (Ready \<lparr>token = ''tok'', address = ''0xabc''\<rparr> ''BTC-USD'' ''0.0015''),
      (banner @
      [Input choice_prompt, Get_auth_context ''1'', Input (size_prompt ''BTC-USD''),
       Log INFO (Starting_Bot ''BTC-USD'' ''0xabc''), Log INFO (Spread_Target 8 ''0.0015'')]))"
proof -
  have p: "size_prompt ''BTC-USD'' \<noteq> choice_prompt"
    by (simp add: size_prompt_def choice_prompt_def)
  have st: "ascii_strip ''1'' = ''1''" "ascii_strip '''' = ''''"
    by (simp_all add: ascii_strip_def isspace_def)
  show ?thesis
    by (simp add: startup_def interrupted_at_once_world_def quiet_world_def prog_simps
        select_symbol_ascii p st SPREAD_BPS_def ORDER_SIZE_def Let_def banner_def)
qed

lemma startup_interrupted_later:
  "startup interrupted_later_world [] =
     (Inr (Ready \<lparr>token = ''tok'', address = ''0xabc''\<rparr> ''BTC-USD'' ''0.0015''),
      (banner @
      [Input choice_prompt, Get_auth_context ''1'', Input (size_prompt ''BTC-USD''),
       Log INFO (Starting_Bot ''BTC-USD'' ''0xabc''), Log INFO (Spread_Target 8 ''0.0015'')]))"
proof -
  have p: "size_prompt ''BTC-USD'' \<noteq> choice_prompt"
    by (simp add: size_prompt_def choice_prompt_def)
  have st: "ascii_strip ''1'' = ''1''" "ascii_strip '''' = ''''"
    by (simp_all add: ascii_strip_def isspace_def)
  show ?thesis
    by (simp add: startup_def interrupted_later_world_def quiet_world_def prog_simps
        select_symbol_ascii p st SPREAD_BPS_def ORDER_SIZE_def Let_def banner_def)
qed

lemma run_interrupted_at_once:
  "run_trading_bot 1 interrupted_at_once_world =
     Some (Inr (),
      (banner @
      [Input choice_prompt, Get_auth_context ''1'', Input (size_prompt ''BTC-USD''),
       Log INFO (Starting_Bot ''BTC-USD'' ''0xabc''), Log INFO (Spread_Target 8 ''0.0015''),
       Query_symbol_price ''BTC-USD'', Log INFO Bot_stopped_by_user,
       Log INFO SHUTDOWN_SEQUENCE, Query_open_orders ''BTC-USD'',
       Log INFO Shutdown_No_open_orders_found]))"
proof -
  have loop: "trading_loop (Suc 0) interrupted_at_once_world ''BTC-USD'' ''0.0015'' tr
      = Some (KeyboardInterrupt, tr @ [Query_symbol_price ''BTC-USD''])" for tr
    by (simp add: tick_def tick_body_def prog_simps interrupted_at_once_world_def)
  have sweep: "shutdown_sweep interrupted_at_once_world \<lparr>token = ''tok'', address = ''0xabc''\<rparr>
      ''BTC-USD'' tr
      = (Inr (), tr @ [Log INFO SHUTDOWN_SEQUENCE, Query_open_orders ''BTC-USD'',
           Log INFO Shutdown_No_open_orders_found])" for tr
    by (simp add: shutdown_sweep_def prog_simps interrupted_at_once_world_def quiet_world_def)
  show ?thesis
    by (simp add: run_trading_bot_def startup_interrupted_at_once run_loop_def loop sweep
        prog_simps del: trading_loop.simps)
qed

lemma run_interrupted_later:
  "run_trading_bot 2 interrupted_later_world =
     Some (Inr (),
      (banner @
      [Input choice_prompt, Get_auth_context ''1'', Input (size_prompt ''BTC-USD''),
       Log INFO (Starting_Bot ''BTC-USD'' ''0xabc''), Log INFO (Spread_Target 8 ''0.0015''),
       Query_symbol_price ''BTC-USD'',
       Log INFO (Mark_Target ''30000.0000'' ''29976.00'' ''30024.00''),
       Query_open_orders ''BTC-USD'', Query_positions ''BTC-USD'',
       Place_order (limit_order ''BTC-USD'' ''buy'' ''0.0015'' ''29976.00''),
       Place_order (limit_order ''BTC-USD'' ''sell'' ''0.0015'' ''30024.00''),
       Log INFO Orders_placed_successfully, Sleep 30,
       Query_symbol_price ''BTC-USD'',
       Log INFO (Mark_Target ''30000.0000'' ''29976.00'' ''30024.00''),
       Query_open_orders ''BTC-USD'', Query_positions ''BTC-USD'',
       Place_order (limit_order ''BTC-USD'' ''buy'' ''0.0015'' ''29976.00''),
       Place_order (limit_order ''BTC-USD'' ''sell'' ''0.0015'' ''30024.00''),
       Log INFO Orders_placed_successfully, Sleep 30,
       Log INFO Bot_stopped_by_user,
       Log INFO SHUTDOWN_SEQUENCE, Query_open_orders ''BTC-USD'',
       Log INFO Shutdown_No_open_orders_found]))"
proof -
  have tick1: "Sleep 30 \<notin> set tr \<Longrightarrow>
      tick interrupted_later_world ''BTC-USD'' ''0.0015'' tr
      = (Inr (), tr @ [Query_symbol_price ''BTC-USD'',
           Log INFO (Mark_Target ''30000.0000'' ''29976.00'' ''30024.00''),
           Query_open_orders ''BTC-USD'', Query_positions ''BTC-USD'',
           Place_order (limit_order ''BTC-USD'' ''buy'' ''0.0015'' ''29976.00''),
           Place_order (limit_order ''BTC-USD'' ''sell'' ''0.0015'' ''30024.00''),
           Log INFO Orders_placed_successfully, Sleep 30])" for tr
    by (simp add: tick_def tick_body_def cancel_open_orders_def check_positions_def
        place_new_orders_def prog_simps interrupted_later_world_def quiet_world_def
        REFRESH_RATE_def quote_30000 format_mark_30000 Let_def del: format_f.simps)
  have tick2: "Sleep 30 \<in> set tr \<Longrightarrow>
      tick interrupted_later_world ''BTC-USD'' ''0.0015'' tr
      = (Inl KeyboardInterrupt, tr @ [Query_symbol_price ''BTC-USD'',
           Log INFO (Mark_Target ''30000.0000'' ''29976.00'' ''30024.00''),
           Query_open_orders ''BTC-USD'', Query_positions ''BTC-USD'',
           Place_order (limit_order ''BTC-USD'' ''buy'' ''0.0015'' ''29976.00''),
           Place_order (limit_order ''BTC-USD'' ''sell'' ''0.0015'' ''30024.00''),
           Log INFO Orders_placed_successfully, Sleep 30])" for tr
    by (simp add: tick_def tick_body_def cancel_open_orders_def check_positions_def
        place_new_orders_def prog_simps interrupted_later_world_def quiet_world_def
        REFRESH_RATE_def quote_30000 format_mark_30000 Let_def del: format_f.simps)
  have sweep: "shutdown_sweep interrupted_later_world \<lparr>token = ''tok'', address = ''0xabc''\<rparr>
      ''BTC-USD'' tr
      = (Inr (), tr @ [Log INFO SHUTDOWN_SEQUENCE, Query_open_orders ''BTC-USD'',
           Log INFO Shutdown_No_open_orders_found])" for tr
    by (simp add: shutdown_sweep_def prog_simps interrupted_later_world_def quiet_world_def)
  show ?thesis
    by (simp add: run_trading_bot_def startup_interrupted_later run_loop_def numeral_2_eq_2
        tick1 tick2 sweep prog_simps)
qed

lemma startup_orders_left:
  "startup orders_left_world [] =
     (Inr (Ready \<lparr>token = ''tok'', address = ''0xabc''\<rparr> ''BTC-USD'' ''0.0015''),
      (banner @
      [Input choice_prompt, Get_auth_context ''1'', Input (size_prompt ''BTC-USD''),
       Log INFO (Starting_Bot ''BTC-USD'' ''0xabc''), Log INFO (Spread_Target 8 ''0.0015'')]))"
proof -
  have p: "size_prompt ''BTC-USD'' \<noteq> choice_prompt"
    by (simp add: size_prompt_def choice_prompt_def)
  have st: "ascii_strip ''1'' = ''1''" "ascii_strip '''' = ''''"
    by (simp_all add: ascii_strip_def isspace_def)
  show ?thesis
    by (simp add: startup_def orders_left_world_def quiet_world_def prog_simps
        select_symbol_ascii p st SPREAD_BPS_def ORDER_SIZE_def Let_def banner_def)
qed

lemma startup_orders_left_no_batch:
  "startup orders_left_no_batch_world [] =
     (Inr (Ready \<lparr>token = ''tok'', address = ''0xabc''\<rparr> ''BTC-USD'' ''0.0015''),
      (banner @
      [Input choice_prompt, Get_auth_context ''1'', Input (size_prompt ''BTC-USD''),
       Log INFO (Starting_Bot ''BTC-USD'' ''0xabc''), Log INFO (Spread_Target 8 ''0.0015'')]))"
proof -
  have p: "size_prompt ''BTC-USD'' \<noteq> choice_prompt"
    by (simp add: size_prompt_def choice_prompt_def)
  have st: "ascii_strip ''1'' = ''1''" "ascii_strip '''' = ''''"
    by (simp_all add: ascii_strip_def isspace_def)
  show ?thesis
    by (simp add: startup_def orders_left_no_batch_world_def orders_left_world_def
        quiet_world_def prog_simps
        select_symbol_ascii p st SPREAD_BPS_def ORDER_SIZE_def Let_def banner_def)
qed

lemma loop_orders_left:
  "trading_loop (Suc 0) orders_left_world ''BTC-USD'' ''0.0015'' tr
     = Some (KeyboardInterrupt, tr @ [Query_symbol_price ''BTC-USD''])"
  by (simp add: tick_def tick_body_def prog_simps orders_left_world_def)

lemma loop_orders_left_no_batch:
  "trading_loop (Suc 0) orders_left_no_batch_world ''BTC-USD'' ''0.0015'' tr
     = Some (KeyboardInterrupt, tr @ [Query_symbol_price ''BTC-USD''])"
  by (simp add: tick_def tick_body_def prog_simps orders_left_no_batch_world_def
      orders_left_world_def)

lemma startup_orders_unknown:
  "startup orders_unknown_world [] =
     (Inr (Ready \<lparr>token = ''tok'', address = ''0xabc''\<rparr> ''BTC-USD'' ''0.0015''),
      (banner @
      [Input choice_prompt, Get_auth_context ''1'', Input (size_prompt ''BTC-USD''),
       Log INFO (Starting_Bot ''BTC-USD'' ''0xabc''), Log INFO (Spread_Target 8 ''0.0015'')]))"
proof -
  have p: "size_prompt ''BTC-USD'' \<noteq> choice_prompt"
    by (simp add: size_prompt_def choice_prompt_def)
  have st: "ascii_strip ''1'' = ''1''" "ascii_strip '''' = ''''"
    by (simp_all add: ascii_strip_def isspace_def)
  show ?thesis
    by (simp add: startup_def orders_unknown_world_def orders_left_world_def
        quiet_world_def prog_simps
        select_symbol_ascii p st SPREAD_BPS_def ORDER_SIZE_def Let_def banner_def)
qed

lemma loop_orders_unknown:
  "trading_loop (Suc 0) orders_unknown_world ''BTC-USD'' ''0.0015'' tr
     = Some (KeyboardInterrupt, tr @ [Query_symbol_price ''BTC-USD''])"
  by (simp add: tick_def tick_body_def prog_simps orders_unknown_world_def
      orders_left_world_def)

text \<open>
  Five runs: interrupted during the first price query; interrupted during the second sleep,
  after two ticks and four orders; interrupted during the first price query with two orders
  open, which the sweep cancels in one call; and the same on an exchange that refuses the
  call for both, where the sweep then cancels the two one by one; and interrupted during the
  first price query on an exchange whose query of the open orders fails.
\<close>

theorem shutdown_sweep_once_witness:
  "sweeps
     (banner @
      [Input choice_prompt, Get_auth_context ''1'', Input (size_prompt ''BTC-USD''),
      Log INFO (Starting_Bot ''BTC-USD'' ''0xabc''), Log INFO (Spread_Target 8 ''0.0015''),
      Query_symbol_price ''BTC-USD'', Log INFO Bot_stopped_by_user,
      Log INFO SHUTDOWN_SEQUENCE, Query_open_orders ''BTC-USD'',
      Log INFO Shutdown_No_open_orders_found]) = 1
   \<and> (\<exists>r tr. run_trading_bot 2 interrupted_later_world = Some (r, tr) \<and> sweeps tr = 1
         \<and> length (placed_orders tr) = 4)
   \<and> (\<exists>r tr. run_trading_bot 1 orders_left_world = Some (r, tr) \<and> sweeps tr = 1
         \<and> suffix [Log INFO SHUTDOWN_SEQUENCE, Query_open_orders ''BTC-USD'',
                   Log INFO (Retrieved_open_orders_to_cancel 2),
                   Cancel_orders [''a'', ''b''],
                   Log INFO (Shutdown_Cancelled_orders 2)] tr)
   \<and> (\<exists>r tr. run_trading_bot 1 orders_left_no_batch_world = Some (r, tr) \<and> sweeps tr = 1
         \<and> suffix [Log INFO SHUTDOWN_SEQUENCE, Query_open_orders ''BTC-USD'',
                   Log INFO (Retrieved_open_orders_to_cancel 2),
                   Cancel_orders [''a'', ''b''],
                   Cancel_orders [''a''], Cancel_orders [''b''],
                   Log INFO Shutdown_Cancelled_orders_via_fallback] tr)
   \<and> (\<exists>r tr. run_trading_bot 1 orders_unknown_world = Some (r, tr) \<and> sweeps tr = 1
         \<and> suffix [Log INFO SHUTDOWN_SEQUENCE, Query_open_orders ''BTC-USD'',
                   Log ERROR (Failed_to_cleanup_orders_on_exit ''connection lost'')] tr)"
proof -
  have tok: "token \<lparr>token = ''tok'', address = ''0xabc''\<rparr> \<noteq> []" by simp
  from shutdown_sweep_once [OF startup_interrupted_at_once tok, of 1 "Inr ()"]
    run_interrupted_at_once
  have a: "sweeps
     (banner @
      [Input choice_prompt, Get_auth_context ''1'', Input (size_prompt ''BTC-USD''),
      Log INFO (Starting_Bot ''BTC-USD'' ''0xabc''), Log INFO (Spread_Target 8 ''0.0015''),
      Query_symbol_price ''BTC-USD'', Log INFO Bot_stopped_by_user,
      Log INFO SHUTDOWN_SEQUENCE, Query_open_orders ''BTC-USD'',
      Log INFO Shutdown_No_open_orders_found]) = 1"
    by blast
  obtain r tr where run: "run_trading_bot 2 interrupted_later_world = Some (r, tr)"
    and len: "length (placed_orders tr) = 4"
    using run_interrupted_later by simp
  from shutdown_sweep_once [OF startup_interrupted_later tok, of 2 r tr] run
  have "sweeps tr = 1" by blast
  with run len
  have b: "\<exists>r tr. run_trading_bot 2 interrupted_later_world = Some (r, tr) \<and> sweeps tr = 1
         \<and> length (placed_orders tr) = 4"
    by blast
  have c: "\<exists>r tr. run_trading_bot 1 orders_left_world = Some (r, tr) \<and> sweeps tr = 1
         \<and> suffix [Log INFO SHUTDOWN_SEQUENCE, Query_open_orders ''BTC-USD'',
                   Log INFO (Retrieved_open_orders_to_cancel 2),
                   Cancel_orders [''a'', ''b''],
                   Log INFO (Shutdown_Cancelled_orders 2)] tr"
  proof -
    note t = shutdown_sweep_once [OF startup_orders_left tok, of 1]
    have "run_trading_bot 1 orders_left_world \<noteq> None"
      using t loop_orders_left by simp
    then obtain r tr where run: "run_trading_bot 1 orders_left_world = Some (r, tr)"
      by auto
    from t [of r tr] run
    obtain before after where one: "sweeps tr = 1"
      and tr: "tr = (banner @
          [Input choice_prompt, Get_auth_context ''1'', Input (size_prompt ''BTC-USD''),
           Log INFO (Starting_Bot ''BTC-USD'' ''0xabc''), Log INFO (Spread_Target 8 ''0.0015'')])
          @ before @ [Log INFO SHUTDOWN_SEQUENCE, Query_open_orders ''BTC-USD''] @ after"
      and ev: "\<And>ids. query_open_orders orders_left_world ''BTC-USD''
             ((banner @
               [Input choice_prompt, Get_auth_context ''1'', Input (size_prompt ''BTC-USD''),
                Log INFO (Starting_Bot ''BTC-USD'' ''0xabc''),
                Log INFO (Spread_Target 8 ''0.0015'')])
              @ before @ [Log INFO SHUTDOWN_SEQUENCE]) = Inr (map Some ids)
          \<Longrightarrow> after =
             (if ids = [] then [Log INFO Shutdown_No_open_orders_found]
              else [Log INFO (Retrieved_open_orders_to_cancel (length ids)),
                    Cancel_orders ids] @
                (case cancel_orders orders_left_world ids
                        ((banner @
                          [Input choice_prompt, Get_auth_context ''1'',
                           Input (size_prompt ''BTC-USD''),
                           Log INFO (Starting_Bot ''BTC-USD'' ''0xabc''),
                           Log INFO (Spread_Target 8 ''0.0015'')]) @ before @
                         [Log INFO SHUTDOWN_SEQUENCE, Query_open_orders ''BTC-USD'',
                          Log INFO (Retrieved_open_orders_to_cancel (length ids))]) of
                   Inr u \<Rightarrow> [Log INFO (Shutdown_Cancelled_orders (length ids))]
                 | Inl KeyboardInterrupt \<Rightarrow> []
                 | Inl (Exception msg) \<Rightarrow>
                     map (\<lambda>oid. Cancel_orders [oid]) ids
                     @ [Log INFO Shutdown_Cancelled_orders_via_fallback]))"
      by blast
    have "after = [Log INFO (Retrieved_open_orders_to_cancel 2), Cancel_orders [''a'', ''b''],
                   Log INFO (Shutdown_Cancelled_orders 2)]"
      using ev [of "[''a'', ''b'']"] by (simp add: orders_left_world_def quiet_world_def)
    then have "suffix [Log INFO SHUTDOWN_SEQUENCE, Query_open_orders ''BTC-USD'',
                   Log INFO (Retrieved_open_orders_to_cancel 2),
                   Cancel_orders [''a'', ''b''],
                   Log INFO (Shutdown_Cancelled_orders 2)] tr"
      unfolding tr suffix_def by simp
    with run one show ?thesis by blast
  qed
  have d: "\<exists>r tr. run_trading_bot 1 orders_left_no_batch_world = Some (r, tr) \<and> sweeps tr = 1
         \<and> suffix [Log INFO SHUTDOWN_SEQUENCE, Query_open_orders ''BTC-USD'',
                   Log INFO (Retrieved_open_orders_to_cancel 2),
                   Cancel_orders [''a'', ''b''],
                   Cancel_orders [''a''], Cancel_orders [''b''],
                   Log INFO Shutdown_Cancelled_orders_via_fallback] tr"
  proof -
    note t = shutdown_sweep_once [OF startup_orders_left_no_batch tok, of 1]
    have "run_trading_bot 1 orders_left_no_batch_world \<noteq> None"
      using t loop_orders_left_no_batch by simp
    then obtain r tr where run: "run_trading_bot 1 orders_left_no_batch_world = Some (r, tr)"
      by auto
    from t [of r tr] run
    obtain before after where one: "sweeps tr = 1"
      and tr: "tr = (banner @
          [Input choice_prompt, Get_auth_context ''1'', Input (size_prompt ''BTC-USD''),
           Log INFO (Starting_Bot ''BTC-USD'' ''0xabc''), Log INFO (Spread_Target 8 ''0.0015'')])
          @ before @ [Log INFO SHUTDOWN_SEQUENCE, Query_open_orders ''BTC-USD''] @ after"
      and ev: "\<And>ids. query_open_orders orders_left_no_batch_world ''BTC-USD''
             ((banner @
               [Input choice_prompt, Get_auth_context ''1'', Input (size_prompt ''BTC-USD''),
                Log INFO (Starting_Bot ''BTC-USD'' ''0xabc''),
                Log INFO (Spread_Target 8 ''0.0015'')])
              @ before @ [Log INFO SHUTDOWN_SEQUENCE]) = Inr (map Some ids)
          \<Longrightarrow> after =
             (if ids = [] then [Log INFO Shutdown_No_open_orders_found]
              else [Log INFO (Retrieved_open_orders_to_cancel (length ids)),
                    Cancel_orders ids] @
                (case cancel_orders orders_left_no_batch_world ids
                        ((banner @
                          [Input choice_prompt, Get_auth_context ''1'',
                           Input (size_prompt ''BTC-USD''),
                           Log INFO (Starting_Bot ''BTC-USD'' ''0xabc''),
                           Log INFO (Spread_Target 8 ''0.0015'')]) @ before @
                         [Log INFO SHUTDOWN_SEQUENCE, Query_open_orders ''BTC-USD'',
                          Log INFO (Retrieved_open_orders_to_cancel (length ids))]) of
                   Inr u \<Rightarrow> [Log INFO (Shutdown_Cancelled_orders (length ids))]
                 | Inl KeyboardInterrupt \<Rightarrow> []
                 | Inl (Exception msg) \<Rightarrow>
                     map (\<lambda>oid. Cancel_orders [oid]) ids
                     @ [Log INFO Shutdown_Cancelled_orders_via_fallback]))"
      by blast
    have "after = [Log INFO (Retrieved_open_orders_to_cancel 2), Cancel_orders [''a'', ''b''],
                   Cancel_orders [''a''], Cancel_orders [''b''],
                   Log INFO Shutdown_Cancelled_orders_via_fallback]"
      using ev [of "[''a'', ''b'']"]
      by (simp add: orders_left_no_batch_world_def orders_left_world_def quiet_world_def)
    then have "suffix [Log INFO SHUTDOWN_SEQUENCE, Query_open_orders ''BTC-USD'',
                   Log INFO (Retrieved_open_orders_to_cancel 2),
                   Cancel_orders [''a'', ''b''],
                   Cancel_orders [''a''], Cancel_orders [''b''],
                   Log INFO Shutdown_Cancelled_orders_via_fallback] tr"
      unfolding tr suffix_def by simp
    with run one show ?thesis by blast
  qed
  have e: "\<exists>r tr. run_trading_bot 1 orders_unknown_world = Some (r, tr) \<and> sweeps tr = 1
         \<and> suffix [Log INFO SHUTDOWN_SEQUENCE, Query_open_orders ''BTC-USD'',
                   Log ERROR (Failed_to_cleanup_orders_on_exit ''connection lost'')] tr"
  proof -
    note t = shutdown_sweep_once [OF startup_orders_unknown tok, of 1]
    have "run_trading_bot 1 orders_unknown_world \<noteq> None"
      using t loop_orders_unknown by simp
    then obtain r tr where run: "run_trading_bot 1 orders_unknown_world = Some (r, tr)"
      by auto
    from t [of r tr] run
    obtain before after where one: "sweeps tr = 1"
      and tr: "tr = (banner @
          [Input choice_prompt, Get_auth_context ''1'', Input (size_prompt ''BTC-USD''),
           Log INFO (Starting_Bot ''BTC-USD'' ''0xabc''), Log INFO (Spread_Target 8 ''0.0015'')])
          @ before @ [Log INFO SHUTDOWN_SEQUENCE, Query_open_orders ''BTC-USD''] @ after"
      and ev: "\<And>msg. query_open_orders orders_unknown_world ''BTC-USD''
             ((banner @
               [Input choice_prompt, Get_auth_context ''1'', Input (size_prompt ''BTC-USD''),
                Log INFO (Starting_Bot ''BTC-USD'' ''0xabc''),
                Log INFO (Spread_Target 8 ''0.0015'')])
              @ before @ [Log INFO SHUTDOWN_SEQUENCE]) = Inl (Exception msg)
          \<Longrightarrow> after = [Log ERROR (Failed_to_cleanup_orders_on_exit msg)]"
      by blast
    have "after = [Log ERROR (Failed_to_cleanup_orders_on_exit ''connection lost'')]"
      by (rule ev) (simp add: orders_unknown_world_def)
    then have "suffix [Log INFO SHUTDOWN_SEQUENCE, Query_open_orders ''BTC-USD'',
                   Log ERROR (Failed_to_cleanup_orders_on_exit ''connection lost'')] tr"
      unfolding tr suffix_def by simp
    with run one show ?thesis by blast
  qed
  from a b c d e show ?thesis by (intro conjI)
qed


end
